(* ===== verification/Kernel_Prelude.thy ===== *)
theory Kernel_Prelude
  imports Main "HOL-Library.Word" "HOL-Library.Monad_Syntax" "HOL-Library.Signed_Division"
begin

unbundle bit_operations_syntax

text \<open>
  The prelude of the development: the C integer types of the i686 target, C characters and
  literals, the loops the kernel is written with, and the generic facts on words, option chains
  and maps that the component theories share.

  Conventions used everywhere:
  \<^item> \<open>uint8_t\<close>, \<open>uint16_t\<close>, \<open>uint32_t\<close> (also \<open>size_t\<close> and raw addresses) are words of their
    width, so that \<open>+\<close> wraps as it does on the machine; a C \<open>int\<close> is an \<open>int\<close>, and \<open>s32\<close>
    writes out the two's complement wrap where a counter can reach the bound;
  \<^item> a \<open>char\<close> is an 8 bit word; where the code compares characters with \<open><\<close> the comparison is
    on \<open>sint\<close>, since \<open>char\<close> is signed on this target;
  \<^item> a \<open>char *\<close> is the list of the bytes from the pointer to the end of the object it points
    into, \<open>None\<close> in a result means that the code read or wrote past that end (or outside the
    memory the model knows), which C leaves undefined.
\<close>

section \<open>Types\<close>

type_synonym u8 = "8 word"
type_synonym u16 = "16 word"
type_synonym u32 = "32 word"

text \<open>The result of storing an \<open>int\<close> value into a 32 bit two's complement variable.\<close>

definition s32 :: "int \<Rightarrow> int" where
  "s32 i = signed_take_bit 31 i"

section \<open>Theorem collections\<close>

named_theorems kframe \<open>fields an operation leaves alone\<close>
named_theorems kinv \<open>invariants an operation keeps\<close>
named_theorems cstr_simps \<open>evaluation of the C string functions on terminated strings\<close>

section \<open>Characters and literals\<close>

abbreviation chr8 :: "char \<Rightarrow> u8" where
  "chr8 c \<equiv> of_char c"

definition c_chars :: "string \<Rightarrow> u8 list" where
  "c_chars s = map of_char s"

text \<open>A string literal is its characters and the terminating NUL.\<close>

definition c_literal :: "string \<Rightarrow> u8 list" where
  "c_literal s = c_chars s @ [0]"

text \<open>The content of a character buffer, and the condition under which it is a C string.\<close>

definition cstr :: "u8 list \<Rightarrow> u8 list" where
  "cstr buf = takeWhile (\<lambda>c. c \<noteq> 0) buf"

definition terminated :: "u8 list \<Rightarrow> bool" where
  "terminated buf \<longleftrightarrow> 0 \<in> set buf"

lemma cstr_Nil [simp]: "cstr [] = []"
  by (simp add: cstr_def)

lemma cstr_Cons [simp]: "cstr (c # cs) = (if c = 0 then [] else c # cstr cs)"
  by (simp add: cstr_def)

lemma terminated_Nil [simp]: "\<not> terminated []"
  by (simp add: terminated_def)

lemma terminated_Cons [simp]: "terminated (c # cs) \<longleftrightarrow> c = 0 \<or> terminated cs"
  by (auto simp: terminated_def)

lemma zero_notin_cstr [simp]: "0 \<notin> set (cstr buf)"
  by (induction buf) auto

lemma cstr_append_zero [simp]: "0 \<notin> set xs \<Longrightarrow> cstr (xs @ 0 # ys) = xs"
  by (induction xs) auto

lemma terminated_append_zero [simp]: "terminated (xs @ 0 # ys)"
  by (simp add: terminated_def)

lemma terminated_append1 [simp]: "terminated xs \<Longrightarrow> terminated (xs @ ys)"
  by (simp add: terminated_def)

lemma cstr_terminated_append [simp]: "terminated xs \<Longrightarrow> cstr (xs @ ys) = cstr xs"
  by (induction xs) auto

lemma cstr_split: "terminated buf \<Longrightarrow> \<exists>rest. buf = cstr buf @ 0 # rest"
  by (induction buf) auto

lemma length_cstr_less: "terminated buf \<Longrightarrow> length (cstr buf) < length buf"
  by (induction buf) auto

lemma length_cstr_le: "length (cstr buf) \<le> length buf"
  by (simp add: cstr_def length_takeWhile_le)

lemma cstr_eq_self: "0 \<notin> set xs \<Longrightarrow> cstr xs = xs"
  by (induction xs) auto

lemma nth_cstr: "i < length (cstr buf) \<Longrightarrow> cstr buf ! i = buf ! i"
  by (simp add: cstr_def takeWhile_nth)

text \<open>A text without a NUL character, as every literal of the kernel is.\<close>

definition nul_free :: "string \<Rightarrow> bool" where
  "nul_free s \<longleftrightarrow> (\<forall>c \<in> set s. (of_char c :: u8) \<noteq> 0)"

lemma c_chars_simps [simp]:
  "c_chars [] = []" "c_chars (c # s) = of_char c # c_chars s"
  by (simp_all add: c_chars_def)

lemma nul_free_simps [simp]:
  "nul_free []" "nul_free (c # s) \<longleftrightarrow> (of_char c :: u8) \<noteq> 0 \<and> nul_free s"
  by (simp_all add: nul_free_def)

lemma c_chars_append [simp]: "c_chars (s @ t) = c_chars s @ c_chars t"
  by (simp add: c_chars_def)

lemma length_c_chars [simp]: "length (c_chars s) = length s"
  by (simp add: c_chars_def)

lemma nul_free_iff: "nul_free s \<longleftrightarrow> 0 \<notin> set (c_chars s)"
  by (induction s) auto

lemma terminated_c_literal [simp]: "terminated (c_literal s)"
  by (simp add: c_literal_def terminated_def)

lemma cstr_c_literal [simp]: "nul_free s \<Longrightarrow> cstr (c_literal s) = c_chars s"
  by (simp add: c_literal_def nul_free_iff)

section \<open>Words\<close>

lemma word_eq_unat: "(a :: 'a::len word) = b \<longleftrightarrow> unat a = unat b"
  by (rule word_unat_eq_iff)

lemma of_nat_unat_id: "of_nat (unat w) = w"
  for w :: "'a::len word"
  by simp

lemma unat_of_nat_u32 [simp]: "n < 4294967296 \<Longrightarrow> unat (of_nat n :: u32) = n"
  by (simp add: unat_of_nat take_bit_nat_eq_self)

lemma of_nat_u32_inject:
  "m < 4294967296 \<Longrightarrow> n < 4294967296 \<Longrightarrow> (of_nat m :: u32) = of_nat n \<longleftrightarrow> m = n"
  by (metis unat_of_nat_u32)

lemma unat_plus_u32: "unat (a :: u32) + unat b < 4294967296 \<Longrightarrow> unat (a + b) = unat a + unat b"
  by (simp add: unat_word_ariths)

lemma unat_lt_u32: "unat (a :: u32) < 4294967296"
  using unsigned_less [of a] by simp

text \<open>Rounding down by a mask: \<open>x & ~(2^n - 1)\<close>.\<close>

lemma unat_and_not_mask: "unat (w AND NOT (mask n)) = 2 ^ n * (unat w div 2 ^ n)"
  for w :: "'a::len word"
proof -
  have "w AND NOT (mask n) = push_bit n (drop_bit n w)"
    by (rule bit_word_eqI) (auto simp: bit_simps)
  then have "unat (w AND NOT (mask n)) = take_bit LENGTH('a) (2 ^ n * (unat w div 2 ^ n))"
    by (simp only: unsigned_push_bit_eq unsigned_drop_bit_eq)
       (simp add: push_bit_eq_mult drop_bit_eq_div mult.commute take_bit_nat_eq_self)
  moreover have "2 ^ n * (unat w div 2 ^ n) \<le> unat w"
    by simp
  ultimately show ?thesis
    using unsigned_less [of w, where 'a = nat] by (simp add: take_bit_nat_eq_self)
qed

section \<open>Loops\<close>

text \<open>
  A counted loop \<open>for (i = lo; i < hi; i++) body\<close> is a fold of its body over the index list.
\<close>

definition for_loop :: "nat \<Rightarrow> nat \<Rightarrow> (nat \<Rightarrow> 's \<Rightarrow> 's) \<Rightarrow> 's \<Rightarrow> 's" where
  "for_loop lo hi body s = fold body [lo..<hi] s"

lemma for_loop_empty [simp]: "hi \<le> lo \<Longrightarrow> for_loop lo hi body s = s"
  by (simp add: for_loop_def)

lemma for_loop_step: "lo < hi \<Longrightarrow> for_loop lo hi body s = for_loop (Suc lo) hi body (body lo s)"
  by (simp add: for_loop_def upt_conv_Cons)

lemma for_loop_Suc: "lo \<le> hi \<Longrightarrow> for_loop lo (Suc hi) body s = body hi (for_loop lo hi body s)"
  by (simp add: for_loop_def)

text \<open>The invariant rule for counted loops.\<close>

lemma for_loop_invar:
  assumes "I lo s" and "lo \<le> hi"
    and "\<And>i t. lo \<le> i \<Longrightarrow> i < hi \<Longrightarrow> I i t \<Longrightarrow> I (Suc i) (body i t)"
  shows "I hi (for_loop lo hi body s)"
  using assms(2) assms(3)
proof (induction hi rule: dec_induct)
  case base
  then show ?case using assms(1) by simp
next
  case (step n)
  then show ?case by (simp add: for_loop_Suc)
qed

lemma for_loop_const:
  assumes "\<And>i t. lo \<le> i \<Longrightarrow> i < hi \<Longrightarrow> f (body i t) = f t"
  shows "f (for_loop lo hi body s) = f s"
proof (cases "lo \<le> hi")
  case True
  then show ?thesis
    using for_loop_invar [where I = "\<lambda>_ t. f t = f s"] assms by simp
qed simp

section \<open>Option chains\<close>

declare Option.bind_eq_Some_conv [simp]

section \<open>Systems\<close>

text \<open>
  A system that starts in a safe state and whose steps keep it safe: the contract of the running
  kernel, whatever the order of interrupts and command lines.
\<close>

locale safe_system =
  fixes starts :: "'s \<Rightarrow> bool"
    and step :: "'s \<Rightarrow> 's \<Rightarrow> bool"
    and safe :: "'s \<Rightarrow> bool"
  assumes starts_safe: "starts s \<Longrightarrow> safe s"
    and step_safe: "step s t \<Longrightarrow> safe s \<Longrightarrow> safe t"
begin

lemma steps_safe: "step\<^sup>*\<^sup>* s t \<Longrightarrow> safe s \<Longrightarrow> safe t"
  by (induction rule: rtranclp_induct) (auto intro: step_safe)

lemma reachable_safe: "starts s \<Longrightarrow> step\<^sup>*\<^sup>* s t \<Longrightarrow> safe t"
  using starts_safe steps_safe by blast

end

text \<open>
  A loop that polls a port until an event ends it. \<open>poll\<close> is one iteration: \<open>Inl\<close> goes on, \<open>Inr\<close> is
  the result; the loop also returns the events it has not read, some of which \<open>drain\<close> may drop.
  \<open>running\<close> holds at every iteration.
\<close>

locale event_loop =
  fixes poll :: "'e \<Rightarrow> 's \<Rightarrow> 's + 's"
    and loop :: "'e list \<Rightarrow> 's \<Rightarrow> ('s \<times> 'e list) option"
    and drain :: "'e list \<Rightarrow> 'e list"
    and running :: "'s \<Rightarrow> bool"
    and finished :: "'s \<Rightarrow> bool"
  assumes loop_Nil: "loop [] s = None"
    and loop_Cons: "loop (e # es) s = (case poll e s of Inl t \<Rightarrow> loop es t | Inr t \<Rightarrow> Some (t, drain es))"
    and drain_suffix: "\<exists>used. es = used @ drain es"
    and poll_contract: "running s \<Longrightarrow> (case poll e s of Inl t \<Rightarrow> running t | Inr t \<Rightarrow> finished t)"
begin

lemma loop_finished: "running s \<Longrightarrow> loop es s = Some (t, rest) \<Longrightarrow> finished t"
proof (induction es arbitrary: s)
  case (Cons e es)
  then show ?case using poll_contract [of s e] by (auto simp: loop_Cons split: sum.splits)
qed (simp add: loop_Nil)

lemma loop_suffix: "loop es s = Some (t, rest) \<Longrightarrow> \<exists>used. es = used @ rest \<and> used \<noteq> []"
proof (induction es arbitrary: s)
  case (Cons e es)
  show ?case
  proof (cases "poll e s")
    case (Inl u)
    then obtain used where "es = used @ rest" using Cons by (auto simp: loop_Cons)
    then show ?thesis by (intro exI [of _ "e # used"]) simp
  next
    case (Inr u)
    then have "rest = drain es" using Cons.prems by (simp add: loop_Cons)
    then obtain used where "es = used @ rest" using drain_suffix [of es] by blast
    then show ?thesis by (intro exI [of _ "e # used"]) simp
  qed
qed (simp add: loop_Nil)

lemma loop_shorter: "loop es s = Some (t, rest) \<Longrightarrow> length rest < length es"
  using loop_suffix by fastforce

end

text \<open>
  Operations that may fail (\<open>None\<close>) and a total specification of them on an abstract state; \<open>run_ops\<close> is a
  sequence of operations all of which return.
\<close>

primrec run_ops :: "('o \<Rightarrow> 's \<Rightarrow> 's option) \<Rightarrow> 'o list \<Rightarrow> 's \<Rightarrow> 's option" where
  "run_ops perform [] s = Some s"
| "run_ops perform (a # as) s = Option.bind (perform a s) (run_ops perform as)"

locale simulation =
  fixes perform :: "'o \<Rightarrow> 's \<Rightarrow> 's option"
    and specify :: "'o \<Rightarrow> 'a \<Rightarrow> 'a"
    and abstract :: "'s \<Rightarrow> 'a"
    and good :: "'s \<Rightarrow> bool"
    and allowed :: "'o \<Rightarrow> bool"
  assumes perform_good: "good s \<Longrightarrow> allowed a \<Longrightarrow> perform a s = Some t \<Longrightarrow> good t"
    and perform_specified: "good s \<Longrightarrow> allowed a \<Longrightarrow> perform a s = Some t \<Longrightarrow> abstract t = specify a (abstract s)"
begin

lemma run_simulates:
  "good s \<Longrightarrow> list_all allowed as \<Longrightarrow> run_ops perform as s = Some t \<Longrightarrow>
   good t \<and> abstract t = fold specify as (abstract s)"
proof (induction as arbitrary: s)
  case (Cons a as)
  then obtain u where u: "perform a s = Some u" "run_ops perform as u = Some t" by auto
  with Cons.prems perform_good [of s a u] perform_specified [of s a u]
  have "good u" "abstract u = specify a (abstract s)" by simp_all
  then show ?case using Cons.IH [of u] Cons.prems(2) u(2) by simp
qed simp

text \<open>What the specification keeps, the operations keep.\<close>

lemma run_keeps:
  assumes "\<And>a x. allowed a \<Longrightarrow> keeps x \<Longrightarrow> keeps (specify a x)"
    and "good s" and "list_all allowed as" and "run_ops perform as s = Some t" and "keeps (abstract s)"
  shows "keeps (abstract t)"
proof -
  have "keeps x \<Longrightarrow> keeps (fold specify as x)" for x
    using assms(3) by (induction as arbitrary: x) (simp_all add: assms(1))
  then show ?thesis using run_simulates [OF assms(2-4)] assms(5) by simp
qed

end

text \<open>Operations that also return, in every good state.\<close>

locale total_simulation = simulation perform specify abstract good allowed
  for perform :: "'o \<Rightarrow> 's \<Rightarrow> 's option" and specify :: "'o \<Rightarrow> 'a \<Rightarrow> 'a" and abstract :: "'s \<Rightarrow> 'a"
    and good :: "'s \<Rightarrow> bool" and allowed :: "'o \<Rightarrow> bool" +
  fixes returning :: "'o \<Rightarrow> bool"
  assumes perform_returns: "good s \<Longrightarrow> allowed a \<Longrightarrow> returning a \<Longrightarrow> \<exists>t. perform a s = Some t"
begin

lemma run_returns:
  "good s \<Longrightarrow> list_all allowed as \<Longrightarrow> list_all returning as \<Longrightarrow> \<exists>t. run_ops perform as s = Some t"
proof (induction as arbitrary: s)
  case (Cons a as)
  with perform_returns [of s a] perform_good [of s a] show ?case by fastforce
qed simp

end

end
