(* ===== verification/Cstring.thy ===== *)
theory Cstring
  imports Kernel_Prelude
begin

text \<open>
  The C string functions: \<open>libc/string.c\<close> (\<open>strlen\<close>, \<open>memset\<close>, \<open>memcpy\<close>, \<open>strcmp\<close>,
  \<open>strncmp\<close>) and the helpers of \<open>kernel/kernel.c\<close> (\<open>string_compare\<close>, \<open>string_starts_with\<close>,
  \<open>string_copy\<close>, \<open>string_length\<close>, \<open>string_to_uint32\<close>, \<open>parse_arguments\<close>).
  A pointer argument is the list of the bytes from the pointer to the end of its object; running
  off that end is \<open>None\<close>. The lemmas relate each loop to the contents \<open>cstr\<close> of its buffers, and
  \<open>parse_arguments\<close> to a specification that splits the line at spaces.
\<close>

section \<open>Definitions\<close>

subsection \<open>libc/string.c\<close>

fun strlen :: "u8 list \<Rightarrow> nat option" where
  "strlen [] = None"
| "strlen (c # str) = (if c \<noteq> 0 then map_option Suc (strlen str) else Some 0)"

text \<open>\<open>p[i] = (uint8_t)value\<close> for \<open>i < n\<close>.\<close>

fun memset_bytes :: "u8 list \<Rightarrow> u8 \<Rightarrow> nat \<Rightarrow> u8 list option" where
  "memset_bytes p value 0 = Some p"
| "memset_bytes [] value (Suc n) = None"
| "memset_bytes (b # p) value (Suc n) = map_option ((#) value) (memset_bytes p value n)"

definition memset :: "u8 list \<Rightarrow> int \<Rightarrow> nat \<Rightarrow> u8 list option" where
  "memset ptr value n = memset_bytes ptr (word_of_int value) n"

fun memcpy :: "u8 list \<Rightarrow> u8 list \<Rightarrow> nat \<Rightarrow> u8 list option" where
  "memcpy d s 0 = Some d"
| "memcpy (b # d) (c # s) (Suc n) = map_option ((#) c) (memcpy d s n)"
| "memcpy d s (Suc n) = None"

text \<open>The result subtracts the two characters read as \<open>unsigned char\<close>.\<close>

fun strcmp :: "u8 list \<Rightarrow> u8 list \<Rightarrow> int option" where
  "strcmp (a # str1) (b # str2) =
     (if a \<noteq> 0 \<and> a = b then strcmp str1 str2 else Some (uint a - uint b))"
| "strcmp str1 str2 = None"

fun strncmp :: "u8 list \<Rightarrow> u8 list \<Rightarrow> nat \<Rightarrow> int option" where
  "strncmp str1 str2 0 = Some 0"
| "strncmp (a # str1) (b # str2) (Suc n) =
     (if a \<noteq> 0 \<and> a = b then strncmp str1 str2 n else Some (uint a - uint b))"
| "strncmp str1 str2 (Suc n) = None"

subsection \<open>String helpers of kernel.c\<close>

fun string_compare :: "u8 list \<Rightarrow> u8 list \<Rightarrow> bool option" where
  "string_compare (a # str1) (b # str2) =
     (if a \<noteq> 0 \<and> b \<noteq> 0 then (if a \<noteq> b then Some False else string_compare str1 str2)
      else Some (a = b))"
| "string_compare str1 str2 = None"

fun string_starts_with :: "u8 list \<Rightarrow> u8 list \<Rightarrow> bool option" where
  "string_starts_with str [] = None"
| "string_starts_with str (p # prefix) =
     (if p \<noteq> 0 then
        (case str of [] \<Rightarrow> None
         | c # str' \<Rightarrow> if c \<noteq> p then Some False else string_starts_with str' prefix)
      else Some True)"

fun string_copy :: "u8 list \<Rightarrow> u8 list \<Rightarrow> u8 list option" where
  "string_copy (d # dest) (s # src) =
     (if s \<noteq> 0 then map_option ((#) s) (string_copy dest src) else Some (0 # dest))"
| "string_copy dest src = None"

fun string_length :: "u8 list \<Rightarrow> nat option" where
  "string_length [] = None"
| "string_length (c # str) = (if c \<noteq> 0 then map_option Suc (string_length str) else Some 0)"

text \<open>
  \<open>string_to_uint32\<close>: the return value and what is stored through \<open>out\<close> (\<open>None\<close>: nothing is).
  The digit test compares signed characters, the accumulator wraps at 32 bits.
\<close>

fun string_to_uint32_loop :: "u8 list \<Rightarrow> u32 \<Rightarrow> nat \<Rightarrow> (bool \<times> u32 option) option" where
  "string_to_uint32_loop [] result i = None"
| "string_to_uint32_loop (c # str) result i =
     (if c \<noteq> 0 then
        (if sint c < sint (chr8 CHR ''0'') \<or> sint c > sint (chr8 CHR ''9'') then Some (False, None)
         else string_to_uint32_loop str (result * 10 + (ucast c - ucast (chr8 CHR ''0''))) (Suc i))
      else Some (i > 0, Some result))"

definition string_to_uint32 :: "u8 list option \<Rightarrow> bool \<Rightarrow> (bool \<times> u32 option) option" where
  "string_to_uint32 str out_nonnull =
     (case str of None \<Rightarrow> Some (False, None)
      | Some s \<Rightarrow> if \<not> out_nonnull then Some (False, None) else string_to_uint32_loop s 0 0)"

subsection \<open>parse\_arguments\<close>

text \<open>The three loops of the parser: skipping spaces, copying a token, and the whole function.\<close>

fun skip_spaces :: "u8 list \<Rightarrow> u8 list option" where
  "skip_spaces [] = None"
| "skip_spaces (c # command) =
     (if c = chr8 CHR '' '' then skip_spaces command else Some (c # command))"

fun copy_token :: "nat \<Rightarrow> u8 list \<Rightarrow> u8 list \<Rightarrow> (u8 list \<times> u8 list) option" where
  "copy_token j buf [] = None"
| "copy_token j buf (c # command) =
     (if \<not> j < length buf then None
      else if c \<noteq> 0 \<and> c \<noteq> chr8 CHR '' '' then copy_token (Suc j) (buf[j := c]) command
      else Some (buf[j := 0], c # command))"

text \<open>The part after the first argument (spaces, second argument), after the command, and the whole.\<close>

definition parse_arg2 ::
  "nat \<Rightarrow> u8 list \<Rightarrow> u8 list \<Rightarrow> u8 list \<Rightarrow> u8 list \<Rightarrow> (nat \<times> u8 list \<times> u8 list \<times> u8 list) option" where
  "parse_arg2 arg_count cmd arg1 arg2 command = do {
     r \<leftarrow> skip_spaces command;
     if hd r \<noteq> 0 then do {
       (arg2, r) \<leftarrow> copy_token 0 arg2 r;
       Some (if arg2 ! 0 \<noteq> 0 then 3 else arg_count, cmd, arg1, arg2)
     }
     else Some (arg_count, cmd, arg1, arg2)
   }"

definition parse_arg1 ::
  "u8 list \<Rightarrow> u8 list \<Rightarrow> u8 list \<Rightarrow> u8 list \<Rightarrow> (nat \<times> u8 list \<times> u8 list \<times> u8 list) option" where
  "parse_arg1 cmd arg1 arg2 command = do {
     r \<leftarrow> skip_spaces command;
     if hd r \<noteq> 0 then do {
       (arg1, r) \<leftarrow> copy_token 0 arg1 r;
       parse_arg2 (if arg1 ! 0 \<noteq> 0 then 2 else 1) cmd arg1 arg2 r
     }
     else Some (1, cmd, arg1, arg2)
   }"

definition parse_arguments ::
  "u8 list \<Rightarrow> u8 list \<Rightarrow> u8 list \<Rightarrow> u8 list \<Rightarrow> (nat \<times> u8 list \<times> u8 list \<times> u8 list) option" where
  "parse_arguments command cmd arg1 arg2 =
     (if cmd = [] \<or> arg1 = [] \<or> arg2 = [] then None
      else do {
        let arg1 = arg1[0 := 0];
        let arg2 = arg2[0 := 0];
        r \<leftarrow> skip_spaces command;
        (cmd, r) \<leftarrow> copy_token 0 (cmd[0 := 0]) r;
        if cmd ! 0 = 0 then Some (0, cmd, arg1, arg2) else parse_arg1 cmd arg1 arg2 r
      })"

section \<open>The loops against the string contents\<close>

lemma strlen_terminated [cstr_simps]: "terminated s \<Longrightarrow> strlen s = Some (length (cstr s))"
  by (induction s) auto

lemma string_length_terminated [cstr_simps]:
  "terminated s \<Longrightarrow> string_length s = Some (length (cstr s))"
  by (induction s) auto

lemma string_length_None: "string_length s = None \<longleftrightarrow> \<not> terminated s"
  by (induction s) auto

lemma string_compare_terminated [cstr_simps]:
  "terminated s \<Longrightarrow> terminated t \<Longrightarrow> string_compare s t = Some (cstr s = cstr t)"
proof (induction s t rule: string_compare.induct)
  case (1 a str1 b str2)
  then show ?case by (cases "a = 0"; cases "b = 0") auto
qed auto

lemma string_starts_with_terminated [cstr_simps]:
  "terminated s \<Longrightarrow> terminated p \<Longrightarrow>
   string_starts_with s p = Some (take (length (cstr p)) (cstr s) = cstr p)"
  by (induction s p rule: string_starts_with.induct) (auto split: list.splits)

lemma string_copy_fits [cstr_simps]:
  "terminated src \<Longrightarrow> length (cstr src) < length dest \<Longrightarrow>
   string_copy dest src = Some (cstr src @ 0 # drop (Suc (length (cstr src))) dest)"
  by (induction dest src rule: string_copy.induct) auto

lemma string_copy_overflow:
  "length dest \<le> length (cstr src) \<Longrightarrow> string_copy dest src = None"
  by (induction dest src rule: string_copy.induct) (auto split: if_splits)

lemma memset_bytes_fits: "n \<le> length p \<Longrightarrow> memset_bytes p v n = Some (replicate n v @ drop n p)"
  by (induction p v n rule: memset_bytes.induct) auto

lemma memcpy_fits:
  "n \<le> length d \<Longrightarrow> n \<le> length s \<Longrightarrow> memcpy d s n = Some (take n s @ drop n d)"
  by (induction d s n rule: memcpy.induct) auto

lemma strcmp_terminated:
  assumes "terminated s" and "terminated t"
  shows "\<exists>d. strcmp s t = Some d \<and> (d = 0 \<longleftrightarrow> cstr s = cstr t) \<and>
             (d < 0 \<longleftrightarrow> ord_class.lexordp (cstr s) (cstr t))"
  using assms
proof (induction s t rule: strcmp.induct)
  case (1 a str1 b str2)
  consider "a \<noteq> 0 \<and> a = b" | "a = 0" | "a \<noteq> 0 \<and> a \<noteq> b" by blast
  then show ?case
  proof cases
    case 3
    then show ?thesis by (auto simp: word_less_def word_uint_eq_iff)
  next
    case 2
    then show ?thesis
      by (auto simp: word_uint_eq_iff order_less_le)
  qed (use 1 in auto)
qed auto

lemma strncmp_prefix:
  assumes "terminated s" and "terminated t"
  shows "\<exists>d. strncmp s t n = Some d \<and> (d = 0 \<longleftrightarrow> take n (cstr s) = take n (cstr t))"
  using assms
proof (induction s t n rule: strncmp.induct)
  case (2 a str1 b str2 n)
  then show ?case by (cases "a \<noteq> 0 \<and> a = b") (auto simp: word_uint_eq_iff)
qed auto

section \<open>Numbers\<close>

text \<open>The digits of the decimal format, the number they denote, and the inverse.\<close>

definition is_digit :: "u8 \<Rightarrow> bool" where
  "is_digit c \<longleftrightarrow> 48 \<le> c \<and> c \<le> 57"

definition dec_value :: "u8 list \<Rightarrow> nat" where
  "dec_value cs = foldl (\<lambda>v c. v * 10 + (unat c - 48)) 0 cs"

fun decimal :: "nat \<Rightarrow> u8 list" where
  "decimal n = (if n < 10 then [of_nat (48 + n)] else decimal (n div 10) @ [of_nat (48 + n mod 10)])"

declare decimal.simps [simp del]

lemma signed_digit_test:
  "\<not> (sint c < sint (chr8 CHR ''0'') \<or> sint c > sint (chr8 CHR ''9'')) \<longleftrightarrow> is_digit c"
proof -
  obtain x where x: "uint c = x" "0 \<le> x" "x < 256"
    using unsigned_less [of c, where 'a = int] unsigned_greater_eq [of c, where 'a = int] by auto
  have "sint c = (x + 128) mod 256 - 128"
    by (simp add: sint_uint signed_take_bit_eq_take_bit_shift take_bit_eq_mod x)
  moreover have "(x + 128) mod 256 = (if x < 128 then x + 128 else x - 128)"
    using x(2,3) minus_mod_self2 [of "x + 128" 256] by (auto simp: mod_pos_pos_trivial)
  ultimately have "sint c = (if x < 128 then x else x - 256)" by simp
  then show ?thesis
    using x by (auto simp: is_digit_def word_le_def)
qed

lemma digit_value: "is_digit c \<Longrightarrow> (ucast c - ucast (chr8 CHR ''0'') :: u32) = of_nat (unat c - 48)"
proof -
  assume "is_digit c"
  then have "48 \<le> unat c" by (simp add: is_digit_def word_le_nat_alt)
  moreover have "(ucast c :: u32) = of_nat (unat c)" by simp
  ultimately show ?thesis by (simp add: of_nat_diff)
qed

lemma string_to_uint32_loop_digits:
  "terminated s \<Longrightarrow> list_all is_digit (cstr s) \<Longrightarrow>
   string_to_uint32_loop s (of_nat v) i =
     Some (0 < i + length (cstr s),
           Some (of_nat (foldl (\<lambda>v c. v * 10 + (unat c - 48)) v (cstr s))))"
proof (induction s arbitrary: v i)
  case (Cons c s)
  show ?case
  proof (cases "c = 0")
    case False
    with Cons.prems have d: "is_digit c" and t: "terminated s" "list_all is_digit (cstr s)" by auto
    have "(of_nat v * 10 + (ucast c - ucast (chr8 CHR ''0'')) :: u32) =
        of_nat (v * 10 + (unat c - 48))"
      by (simp only: digit_value [OF d] of_nat_add of_nat_mult of_nat_numeral)
    then have "string_to_uint32_loop (c # s) (of_nat v) i =
        string_to_uint32_loop s (of_nat (v * 10 + (unat c - 48))) (Suc i)"
      using False d signed_digit_test [of c] by (simp only: string_to_uint32_loop.simps if_True if_False not_False_eq_True simp_thms)
    then show ?thesis
      using False by (simp only: Cons.IH [OF t]) simp
  qed simp
qed simp

lemma string_to_uint32_loop_junk:
  "terminated s \<Longrightarrow> \<not> list_all is_digit (cstr s) \<Longrightarrow>
   string_to_uint32_loop s r i = Some (False, None)"
proof (induction s arbitrary: r i)
  case (Cons c s)
  then show ?case
    using signed_digit_test [of c] by (cases "c = 0"; cases "is_digit c") auto
qed simp

lemma string_to_uint32_terminated [cstr_simps]:
  assumes "terminated s"
  shows "string_to_uint32 (Some s) True =
    (if list_all is_digit (cstr s)
     then Some (cstr s \<noteq> [], Some (of_nat (dec_value (cstr s)))) else Some (False, None))"
  using assms string_to_uint32_loop_digits [of s 0 0] string_to_uint32_loop_junk [of s 0 0]
  by (simp add: string_to_uint32_def dec_value_def)

lemma unat_digit: "n < 10 \<Longrightarrow> unat (of_nat (48 + n) :: u8) = 48 + n"
  by (simp only: unat_of_nat take_bit_nat_eq_self)
     (simp add: take_bit_nat_eq_self)

lemma is_digit_digit: "n < 10 \<Longrightarrow> is_digit (of_nat (48 + n))"
  using unat_digit [of n] unfolding is_digit_def word_le_nat_alt by simp

lemma decimal_digits: "list_all is_digit (decimal n)"
proof (induction n rule: decimal.induct)
  case (1 n)
  then show ?case
    by (subst decimal.simps) (simp add: is_digit_digit del: of_nat_add)
qed

lemma dec_value_snoc: "dec_value (cs @ [c]) = dec_value cs * 10 + (unat c - 48)"
  by (simp add: dec_value_def)

lemma dec_value_decimal: "dec_value (decimal n) = n"
proof (induction n rule: decimal.induct)
  case (1 n)
  show ?case
  proof (cases "n < 10")
    case True
    then show ?thesis
      by (subst decimal.simps) (simp add: dec_value_def unat_digit del: of_nat_add)
  next
    case False
    then have "dec_value (decimal (n div 10)) = n div 10" using 1 by simp
    with False show ?thesis
      by (subst decimal.simps) (simp add: dec_value_snoc unat_digit del: of_nat_add)
  qed
qed

lemma decimal_nonempty: "decimal n \<noteq> []"
  by (subst decimal.simps) simp

lemma digit_not_zero: "is_digit c \<Longrightarrow> c \<noteq> 0"
  by (auto simp: is_digit_def)

lemma digits_no_nul: "list_all is_digit cs \<Longrightarrow> 0 \<notin> set cs"
  by (auto simp: list_all_iff dest: digit_not_zero)

section \<open>The argument parser\<close>

text \<open>
  The specification: the line is split at runs of spaces. \<open>arg_at\<close> is the \<open>i\<close>-th token, the
  empty string when there are fewer.
\<close>

definition is_space :: "u8 \<Rightarrow> bool" where
  "is_space c \<longleftrightarrow> c = chr8 CHR '' ''"

function tokens :: "u8 list \<Rightarrow> u8 list list" where
  "tokens cs =
     (let r = dropWhile is_space cs in
      if r = [] then [] else takeWhile (\<lambda>c. \<not> is_space c) r # tokens (dropWhile (\<lambda>c. \<not> is_space c) r))"
  by pat_completeness auto
termination
proof (relation "measure length")
  fix cs r :: "u8 list"
  assume r: "r = dropWhile is_space cs" "r \<noteq> []"
  then obtain c r' where c: "r = c # r'" "\<not> is_space c"
    by (metis hd_dropWhile list.collapse)
  then have "length (dropWhile (\<lambda>c. \<not> is_space c) r) < length r"
    by (simp add: length_dropWhile_le less_Suc_eq_le)
  also have "length r \<le> length cs" using r(1) by (simp add: length_dropWhile_le)
  finally show "(dropWhile (\<lambda>c. \<not> is_space c) r, cs) \<in> measure length" by simp
qed simp

declare tokens.simps [simp del]

definition arg_at :: "u8 list list \<Rightarrow> nat \<Rightarrow> u8 list" where
  "arg_at ts i = (if i < length ts then ts ! i else [])"

lemma skip_spaces_terminated:
  assumes "terminated s"
  shows "\<exists>r. skip_spaces s = Some r \<and> terminated r \<and> cstr r = dropWhile is_space (cstr s) \<and>
             r \<noteq> [] \<and> (hd r = 0 \<longleftrightarrow> cstr r = [])"
  using assms
proof (induction s)
  case (Cons c s)
  then show ?case by (cases "c = chr8 CHR '' ''") (auto simp: is_space_def)
qed simp

lemma copy_token_terminated:
  assumes "terminated s" and "t = takeWhile (\<lambda>c. \<not> is_space c) (cstr s)" and "j \<le> length buf"
  shows "if j + length t < length buf
         then \<exists>r. copy_token j buf s = Some (take j buf @ t @ 0 # drop (Suc (j + length t)) buf, r) \<and>
                  terminated r \<and> cstr r = dropWhile (\<lambda>c. \<not> is_space c) (cstr s)
         else copy_token j buf s = None"
  using assms
proof (induction s arbitrary: j buf t)
  case (Cons c s)
  show ?case
  proof (cases "c \<noteq> 0 \<and> \<not> is_space c \<and> j < length buf")
    case True
    with Cons.prems obtain t' where t': "t = c # t'" "t' = takeWhile (\<lambda>c. \<not> is_space c) (cstr s)"
      by auto
    have "terminated s" using Cons.prems True by simp
    from Cons.IH [OF this t'(2), of "Suc j" "buf[j := c]"] True show ?thesis
      by (auto simp: t'(1) is_space_def take_Suc_conv_app_nth nth_list_update)
  next
    case False
    then show ?thesis
      using Cons.prems by (auto simp: is_space_def list_update_append upd_conv_take_nth_drop)
  qed
qed simp

text \<open>One round of the parser, in terms of the tokens still to come.\<close>

lemma tokens_nonempty: "t \<in> set (tokens cs) \<Longrightarrow> t \<noteq> []"
proof (induction cs rule: tokens.induct)
  case (1 cs)
  let ?r = "dropWhile is_space cs"
  show ?case
  proof (cases "?r = []")
    case True
    with 1 show ?thesis by (simp add: tokens.simps [of cs])
  next
    case False
    then obtain c r' where c: "?r = c # r'" "\<not> is_space c"
      by (metis hd_dropWhile list.collapse)
    then have "t = takeWhile (\<lambda>c. \<not> is_space c) ?r \<or>
        t \<in> set (tokens (dropWhile (\<lambda>c. \<not> is_space c) ?r))"
      using "1.prems" by (simp add: tokens.simps [of cs] Let_def)
    then show ?thesis using "1.IH" [OF refl False] c by auto
  qed
qed

lemma skip_spaces_tokens:
  assumes "terminated s"
  obtains r where "skip_spaces s = Some r" "terminated r" "hd r = 0 \<longleftrightarrow> tokens (cstr s) = []"
    "takeWhile (\<lambda>c. \<not> is_space c) (cstr r) = arg_at (tokens (cstr s)) 0"
    "tokens (dropWhile (\<lambda>c. \<not> is_space c) (cstr r)) = tl (tokens (cstr s))"
proof -
  obtain r where r: "skip_spaces s = Some r" "terminated r"
      "cstr r = dropWhile is_space (cstr s)" "hd r = 0 \<longleftrightarrow> cstr r = []"
    using skip_spaces_terminated [OF assms] by blast
  show thesis
    by (rule that [OF r(1,2)])
       (use r(3,4) in \<open>auto simp: tokens.simps [of "cstr s"] tokens.simps [of "[]"] Let_def arg_at_def
          dropWhile_eq_Nil_conv [THEN iffD2] simp del: dropWhile_eq_Nil_conv\<close>)
qed

lemma copy_token_tokens:
  assumes "terminated s" and "t = takeWhile (\<lambda>c. \<not> is_space c) (cstr s)" and "length t < length buf"
  obtains buf' r where "copy_token 0 buf s = Some (buf', r)" "terminated r" "terminated buf'"
    "cstr r = dropWhile (\<lambda>c. \<not> is_space c) (cstr s)" "cstr buf' = t" "buf' ! 0 = 0 \<longleftrightarrow> t = []"
proof -
  have z: "0 \<notin> set t"
    using assms(2) set_takeWhileD zero_notin_cstr by fastforce
  obtain r where r: "copy_token 0 buf s = Some (t @ 0 # drop (Suc (length t)) buf, r)"
      "terminated r" "cstr r = dropWhile (\<lambda>c. \<not> is_space c) (cstr s)"
    using copy_token_terminated [OF assms(1,2), of 0 buf] assms(3) by auto
  show thesis
    by (rule that [OF r(1,2) _ r(3)]) (use z in \<open>cases t; auto\<close>)+
qed

lemma copy_token_too_long:
  "terminated s \<Longrightarrow> length buf \<le> length (takeWhile (\<lambda>c. \<not> is_space c) (cstr s)) \<Longrightarrow>
   copy_token 0 buf s = None"
  using copy_token_terminated [of s _ 0 buf] by auto

lemma next_argument:
  assumes "terminated s" and "buf \<noteq> []"
  obtains r where "skip_spaces s = Some r" "hd r = 0 \<longleftrightarrow> tokens (cstr s) = []"
    "if length (arg_at (tokens (cstr s)) 0) < length buf
     then \<exists>buf' r'. copy_token 0 buf r = Some (buf', r') \<and> terminated r' \<and> terminated buf' \<and>
            tokens (cstr r') = tl (tokens (cstr s)) \<and> cstr buf' = arg_at (tokens (cstr s)) 0 \<and>
            (buf' ! 0 = 0 \<longleftrightarrow> tokens (cstr s) = [])
     else copy_token 0 buf r = None"
proof -
  obtain r where r: "skip_spaces s = Some r" "terminated r" "hd r = 0 \<longleftrightarrow> tokens (cstr s) = []"
      "takeWhile (\<lambda>c. \<not> is_space c) (cstr r) = arg_at (tokens (cstr s)) 0"
      "tokens (dropWhile (\<lambda>c. \<not> is_space c) (cstr r)) = tl (tokens (cstr s))"
    by (rule skip_spaces_tokens [OF assms(1)])
  have e: "arg_at (tokens (cstr s)) 0 = [] \<longleftrightarrow> tokens (cstr s) = []"
    using tokens_nonempty [of _ "cstr s"] by (cases "tokens (cstr s)") (auto simp: arg_at_def)
  show thesis
  proof (rule that [OF r(1,3)], split if_split, intro conjI impI)
    assume "length (arg_at (tokens (cstr s)) 0) < length buf"
    then show "\<exists>buf' r'. copy_token 0 buf r = Some (buf', r') \<and> terminated r' \<and> terminated buf' \<and>
            tokens (cstr r') = tl (tokens (cstr s)) \<and> cstr buf' = arg_at (tokens (cstr s)) 0 \<and>
            (buf' ! 0 = 0 \<longleftrightarrow> tokens (cstr s) = [])"
      using copy_token_tokens [OF r(2) r(4) [symmetric], of buf] r(5) e by metis
  qed (use r in \<open>simp add: copy_token_too_long\<close>)
qed

lemma parse_arg2_tokens:
  assumes s: "terminated s" and ts: "ts = tokens (cstr s)" and b: "arg2 \<noteq> []"
    and z: "terminated arg2" "cstr arg2 = []"
  shows "if length (arg_at ts 0) < length arg2
    then \<exists>b. parse_arg2 argc cmd arg1 arg2 s = Some (if ts = [] then argc else 3, cmd, arg1, b) \<and>
           terminated b \<and> cstr b = arg_at ts 0
    else parse_arg2 argc cmd arg1 arg2 s = None"
  by (rule next_argument [OF s b]; cases ts)
     (use ts z b in \<open>auto simp: parse_arg2_def arg_at_def split: if_splits\<close>)

lemma parse_arg1_tokens:
  assumes s: "terminated s" and ts: "ts = tokens (cstr s)" and b: "arg1 \<noteq> []" "arg2 \<noteq> []"
    and z: "terminated arg1" "cstr arg1 = []" "terminated arg2" "cstr arg2 = []"
    and n: "length arg1 = n" "length arg2 = n"
  shows "if length (arg_at ts 0) < n \<and> length (arg_at ts 1) < n
    then \<exists>a b. parse_arg1 cmd arg1 arg2 s = Some (Suc (min 2 (length ts)), cmd, a, b) \<and>
           terminated a \<and> terminated b \<and> cstr a = arg_at ts 0 \<and> cstr b = arg_at ts 1
    else parse_arg1 cmd arg1 arg2 s = None"
proof -
  obtain r where r: "skip_spaces s = Some r" "hd r = 0 \<longleftrightarrow> ts = []"
    "if length (arg_at ts 0) < n
     then \<exists>a r'. copy_token 0 arg1 r = Some (a, r') \<and> terminated r' \<and> terminated a \<and>
            tokens (cstr r') = tl ts \<and> cstr a = arg_at ts 0 \<and> (a ! 0 = 0 \<longleftrightarrow> ts = [])
     else copy_token 0 arg1 r = None"
    by (rule next_argument [OF s b(1)]) (use ts n in simp)
  show ?thesis
  proof (cases "ts = [] \<or> \<not> length (arg_at ts 0) < n")
    case True
    then show ?thesis using r z b n by (auto simp: parse_arg1_def arg_at_def split: if_splits)
  next
    case False
    then obtain a r' where a: "copy_token 0 arg1 r = Some (a, r')" "terminated r'" "terminated a"
        "tl ts = tokens (cstr r')" "cstr a = arg_at ts 0" "a ! 0 \<noteq> 0"
      using r(3) by auto
    from parse_arg2_tokens [OF a(2,4) b(2) z(3,4), where argc = 2 and cmd = cmd and ?arg1.0 = a]
    show ?thesis
      using False a r n by (cases ts; cases "tl ts")
        (auto simp: parse_arg1_def arg_at_def split: if_splits)
  qed
qed

text \<open>
  The whole parser: it succeeds exactly when the first three tokens fit their buffers, and then
  returns how many of them there are and their texts.
\<close>

lemma parse_arguments_tokens:
  assumes cmd: "terminated command" and ts: "ts = tokens (cstr command)"
    and len: "length cmd = n" "length arg1 = n" "length arg2 = n" "0 < n"
  shows "if \<forall>t \<in> set (take 3 ts). length t < n
    then \<exists>c a1 a2. parse_arguments command cmd arg1 arg2 = Some (min 3 (length ts), c, a1, a2) \<and>
           terminated c \<and> terminated a1 \<and> terminated a2 \<and>
           cstr c = arg_at ts 0 \<and> cstr a1 = arg_at ts 1 \<and> cstr a2 = arg_at ts 2
    else parse_arguments command cmd arg1 arg2 = None"
proof -
  have ne: "cmd \<noteq> []" "arg1 \<noteq> []" "arg2 \<noteq> []" using len by auto
  have z: "cstr (buf[0 := 0]) = []" "terminated (buf[0 := 0])" if "buf \<noteq> []" for buf
    using that by (cases buf; simp)+
  obtain r1 where r1: "skip_spaces command = Some r1"
      "if length (arg_at ts 0) < n
       then \<exists>c r'. copy_token 0 (cmd[0 := 0]) r1 = Some (c, r') \<and> terminated r' \<and> terminated c \<and>
              tokens (cstr r') = tl ts \<and> cstr c = arg_at ts 0 \<and> (c ! 0 = 0 \<longleftrightarrow> ts = [])
       else copy_token 0 (cmd[0 := 0]) r1 = None"
    using next_argument [OF cmd, of "cmd[0 := 0]"] ne len ts
    by (metis length_list_update list_update_nonempty)
  show ?thesis
  proof (cases "ts = [] \<or> \<not> length (arg_at ts 0) < n")
    case True
    then show ?thesis
      using r1 len ne z by (cases ts) (auto simp: parse_arguments_def arg_at_def)
  next
    case False
    then obtain c r where c: "copy_token 0 (cmd[0 := 0]) r1 = Some (c, r)" "terminated r"
        "terminated c" "tl ts = tokens (cstr r)" "cstr c = arg_at ts 0" "c ! 0 \<noteq> 0"
      using r1(2) by auto
    have m: "(\<forall>t \<in> set (take 3 ts). length t < n) \<longleftrightarrow>
        length (arg_at (tl ts) 0) < n \<and> length (arg_at (tl ts) 1) < n"
      using False len(4) by (cases ts; cases "tl ts"; cases "tl (tl ts)") (auto simp: arg_at_def)
    have "arg_at (tl ts) 0 = arg_at ts 1" "arg_at (tl ts) 1 = arg_at ts 2"
        "Suc (min 2 (length (tl ts))) = min 3 (length ts)"
      using False by (cases ts; auto simp: arg_at_def)+
    moreover have "parse_arguments command cmd arg1 arg2 = parse_arg1 c (arg1[0 := 0]) (arg2[0 := 0]) r"
      using ne c(1,6) r1(1) by (simp add: parse_arguments_def)
    ultimately show ?thesis
      using parse_arg1_tokens [OF c(2,4), of "arg1[0 := 0]" "arg2[0 := 0]" n c] z ne len c(3,5)
      unfolding m by (auto split: if_splits)
  qed
qed

section \<open>Properties\<close>

text \<open>
  C18. The argument parser with its three buffers of 64 bytes: a terminated line is split at its runs of
  spaces; when the first three tokens have fewer than 64 characters the call returns how many of them
  there are and their texts as terminated strings, otherwise it writes past a buffer.
\<close>

theorem parse_arguments_correct:
  assumes "terminated command" and "length cmd = 64" and "length arg1 = 64" and "length arg2 = 64"
  shows "if \<forall>t \<in> set (take 3 (tokens (cstr command))). length t < 64
    then \<exists>c a1 a2. parse_arguments command cmd arg1 arg2 = Some (min 3 (length (tokens (cstr command))), c, a1, a2) \<and>
           terminated c \<and> terminated a1 \<and> terminated a2 \<and> cstr c = arg_at (tokens (cstr command)) 0 \<and>
           cstr a1 = arg_at (tokens (cstr command)) 1 \<and> cstr a2 = arg_at (tokens (cstr command)) 2
    else parse_arguments command cmd arg1 arg2 = None"
  by (rule parse_arguments_tokens [OF assms(1) refl assms(2-4)]) simp

theorem parse_arguments_correct_witness:
  "\<exists>c a1 a2. parse_arguments (c_literal ''spawn  a b c'') (replicate 64 0) (replicate 64 0) (replicate 64 0) =
     Some (3, c, a1, a2) \<and> cstr c = c_chars ''spawn'' \<and> cstr a1 = c_chars ''a'' \<and> cstr a2 = c_chars ''b''"
proof -
  have "tokens (cstr (c_literal ''spawn  a b c'')) = [c_chars ''spawn'', c_chars ''a'', c_chars ''b'', c_chars ''c'']"
    by (simp add: tokens.simps is_space_def)
  then show ?thesis
    using parse_arguments_correct [OF terminated_c_literal, of "replicate 64 0" "replicate 64 0" "replicate 64 0"
        "''spawn  a b c''"] by (auto simp: arg_at_def numeral_2_eq_2 numeral_3_eq_3)
qed

text \<open>
  C39. Reading numbers: on a string of digits \<open>string_to_uint32\<close> stores the number they denote modulo 2 ^ 32
  and succeeds unless there are none; any other character makes it fail without storing. So it reads
  back the decimal digits of every number.
\<close>

theorem string_to_uint32_roundtrip:
  assumes "0 \<notin> set cs"
  shows "string_to_uint32 (Some (cs @ [0])) True =
      (if list_all is_digit cs then Some (cs \<noteq> [], Some (of_nat (dec_value cs))) else Some (False, None)) \<and>
    string_to_uint32 (Some (decimal n @ [0])) True = Some (True, Some (of_nat n))"
proof -
  have t: "cstr (xs @ [0]) = xs" "terminated (xs @ [0])" if "0 \<notin> set xs" for xs :: "u8 list"
    using that by (auto simp: cstr_def terminated_def takeWhile_append)
  have "0 \<notin> set (decimal n)" using decimal_digits digits_no_nul by blast
  then show ?thesis
    using t [of "decimal n"] t [OF assms] decimal_digits [of n] decimal_nonempty [of n]
    by (simp add: string_to_uint32_terminated dec_value_decimal)
qed

theorem string_to_uint32_roundtrip_witness:
  "string_to_uint32 (Some (c_chars ''4294967298'' @ [0])) True = Some (True, Some 2) \<and>
   string_to_uint32 (Some (decimal 7 @ [0])) True = Some (True, Some 7)"
proof -
  have "0 \<notin> set (c_chars ''4294967298'')" by simp
  from string_to_uint32_roundtrip [OF this, of 7] show ?thesis by (simp add: is_digit_def dec_value_def)
qed

text \<open>
  C40. The two comparison routines agree: on terminated strings \<open>string_compare\<close> is 1 exactly when \<open>strcmp\<close> is
  0, exactly when the texts are equal, and the sign of \<open>strcmp\<close> is their lexicographic order on unsigned
  characters.
\<close>

theorem string_comparison_agrees:
  assumes "terminated s" and "terminated t"
  shows "\<exists>d e. strcmp s t = Some d \<and> string_compare s t = Some e \<and> (e \<longleftrightarrow> d = 0) \<and> (e \<longleftrightarrow> cstr s = cstr t) \<and>
    (d < 0 \<longleftrightarrow> ord_class.lexordp (cstr s) (cstr t))"
  using strcmp_terminated [OF assms] string_compare_terminated [OF assms] by auto

theorem string_comparison_agrees_witness:
  "\<exists>d. strcmp (c_literal ''calc'') (c_literal ''clear'') = Some d \<and> d < 0"
  using string_comparison_agrees [OF terminated_c_literal terminated_c_literal, of "''calc''" "''clear''"] by auto

end
