(* ===== verification/Vga.thy ===== *)
theory Vga
  imports Cstring
begin

text \<open>
  The VGA text driver, \<open>kernel/drivers/vga.c\<close>. The state is the driver's four static variables
  and the video memory they address, a map from byte addresses to 16 bit cells. Every store of
  the driver goes through \<open>vga_store\<close> at \<open>vga_buffer + 2 * index\<close>, so "no store outside the
  80x25 page" is a property of the model and not built into it.
  The lemmas show that the cursor stays on the page, that only page cells are written, what
  scrolling and each control character do, and that \<open>vga_print_hex\<close> prints eight digits.
\<close>

section \<open>State\<close>

record vga_state =
  vga_row :: u32
  vga_column :: u32
  vga_color :: u8
  vga_buffer :: u32
  vga_mem :: "u32 \<Rightarrow> u16"

definition VGA_WIDTH :: u32 where "VGA_WIDTH = 80"
definition VGA_HEIGHT :: u32 where "VGA_HEIGHT = 25"
definition VGA_MEMORY :: u32 where "VGA_MEMORY = 0xB8000"

lemmas vga_consts [simp] = VGA_WIDTH_def VGA_HEIGHT_def VGA_MEMORY_def

text \<open>The sixteen colours of \<open>kernel.h\<close>.\<close>

definition VGA_COLOR_BLACK :: u8 where "VGA_COLOR_BLACK = 0"
definition VGA_COLOR_BLUE :: u8 where "VGA_COLOR_BLUE = 1"
definition VGA_COLOR_GREEN :: u8 where "VGA_COLOR_GREEN = 2"
definition VGA_COLOR_CYAN :: u8 where "VGA_COLOR_CYAN = 3"
definition VGA_COLOR_RED :: u8 where "VGA_COLOR_RED = 4"
definition VGA_COLOR_MAGENTA :: u8 where "VGA_COLOR_MAGENTA = 5"
definition VGA_COLOR_BROWN :: u8 where "VGA_COLOR_BROWN = 6"
definition VGA_COLOR_LIGHT_GREY :: u8 where "VGA_COLOR_LIGHT_GREY = 7"
definition VGA_COLOR_DARK_GREY :: u8 where "VGA_COLOR_DARK_GREY = 8"
definition VGA_COLOR_LIGHT_BLUE :: u8 where "VGA_COLOR_LIGHT_BLUE = 9"
definition VGA_COLOR_LIGHT_GREEN :: u8 where "VGA_COLOR_LIGHT_GREEN = 10"
definition VGA_COLOR_LIGHT_CYAN :: u8 where "VGA_COLOR_LIGHT_CYAN = 11"
definition VGA_COLOR_LIGHT_RED :: u8 where "VGA_COLOR_LIGHT_RED = 12"
definition VGA_COLOR_LIGHT_MAGENTA :: u8 where "VGA_COLOR_LIGHT_MAGENTA = 13"
definition VGA_COLOR_LIGHT_BROWN :: u8 where "VGA_COLOR_LIGHT_BROWN = 14"
definition VGA_COLOR_WHITE :: u8 where "VGA_COLOR_WHITE = 15"

lemmas vga_colours =
  VGA_COLOR_BLACK_def VGA_COLOR_BLUE_def VGA_COLOR_GREEN_def VGA_COLOR_CYAN_def
  VGA_COLOR_RED_def VGA_COLOR_MAGENTA_def VGA_COLOR_BROWN_def VGA_COLOR_LIGHT_GREY_def
  VGA_COLOR_DARK_GREY_def VGA_COLOR_LIGHT_BLUE_def VGA_COLOR_LIGHT_GREEN_def VGA_COLOR_LIGHT_CYAN_def
  VGA_COLOR_LIGHT_RED_def VGA_COLOR_LIGHT_MAGENTA_def VGA_COLOR_LIGHT_BROWN_def VGA_COLOR_WHITE_def

section \<open>Operations\<close>

definition vga_entry_color :: "u8 \<Rightarrow> u8 \<Rightarrow> u8" where
  "vga_entry_color fg bg = fg OR push_bit 4 bg"

definition vga_entry :: "u8 \<Rightarrow> u8 \<Rightarrow> u16" where
  "vga_entry uc color = ucast uc OR push_bit 8 (ucast color)"

text \<open>The address of \<open>vga_buffer[index]\<close>, and a store to it.\<close>

definition vga_addr :: "vga_state \<Rightarrow> u32 \<Rightarrow> u32" where
  "vga_addr v index = vga_buffer v + 2 * index"

definition vga_store :: "u32 \<Rightarrow> u16 \<Rightarrow> vga_state \<Rightarrow> vga_state" where
  "vga_store index e v = v\<lparr>vga_mem := (vga_mem v)(vga_addr v index := e)\<rparr>"

definition vga_init :: "vga_state \<Rightarrow> vga_state" where
  "vga_init v =
     (let v = v\<lparr>vga_row := 0, vga_column := 0,
                vga_color := vga_entry_color VGA_COLOR_LIGHT_GREY VGA_COLOR_BLACK,
                vga_buffer := VGA_MEMORY\<rparr>
      in vga_store 0 (vga_entry (chr8 CHR ''T'') (vga_color v)) v)"

definition vga_set_color :: "u8 \<Rightarrow> u8 \<Rightarrow> vga_state \<Rightarrow> vga_state" where
  "vga_set_color foreground background v =
     v\<lparr>vga_color := vga_entry_color foreground background\<rparr>"

definition vga_putentryat :: "u8 \<Rightarrow> u8 \<Rightarrow> u32 \<Rightarrow> u32 \<Rightarrow> vga_state \<Rightarrow> vga_state" where
  "vga_putentryat c color x y v = vga_store (y * VGA_WIDTH + x) (vga_entry c color) v"

text \<open>The body of the copy loop of \<open>vga_scroll\<close>, and the function.\<close>

definition vga_move_up :: "u32 \<Rightarrow> u32 \<Rightarrow> vga_state \<Rightarrow> vga_state" where
  "vga_move_up y x v =
     vga_store (y * VGA_WIDTH + x) (vga_mem v (vga_addr v ((y + 1) * VGA_WIDTH + x))) v"

definition vga_scroll :: "vga_state \<Rightarrow> vga_state" where
  "vga_scroll v =
     (let v = for_loop 0 24 (\<lambda>y. for_loop 0 80 (\<lambda>x. vga_move_up (of_nat y) (of_nat x))) v;
          v = for_loop 0 80 (\<lambda>x v. vga_putentryat (chr8 CHR '' '') (vga_color v) (of_nat x) (VGA_HEIGHT - 1) v) v
      in v\<lparr>vga_row := VGA_HEIGHT - 1, vga_column := 0\<rparr>)"

text \<open>\<open>if (++vga_row >= VGA_HEIGHT) { vga_row = VGA_HEIGHT - 1; vga_scroll(); }\<close>\<close>

definition vga_next_row :: "vga_state \<Rightarrow> vga_state" where
  "vga_next_row v =
     (let v = v\<lparr>vga_row := vga_row v + 1\<rparr>
      in if vga_row v \<ge> VGA_HEIGHT then vga_scroll (v\<lparr>vga_row := VGA_HEIGHT - 1\<rparr>) else v)"

definition vga_putchar :: "u8 \<Rightarrow> vga_state \<Rightarrow> vga_state" where
  "vga_putchar c v =
     (if vga_buffer v = 0 then v
      else if c = chr8 (CHR 0x0A) then vga_next_row (v\<lparr>vga_column := 0\<rparr>)
      else if c = chr8 (CHR 0x0D) then v\<lparr>vga_column := 0\<rparr>
      else if c = chr8 (CHR 0x09) then
        (let v = v\<lparr>vga_column := (vga_column v + 8) AND NOT (8 - 1)\<rparr>
         in if vga_column v \<ge> VGA_WIDTH then vga_next_row (v\<lparr>vga_column := 0\<rparr>) else v)
      else
        (let v = vga_putentryat c (vga_color v) (vga_column v) (vga_row v) v;
             v = v\<lparr>vga_column := vga_column v + 1\<rparr>
         in if vga_column v \<ge> VGA_WIDTH then vga_next_row (v\<lparr>vga_column := 0\<rparr>) else v))"

text \<open>The loop body of \<open>vga_print\<close>: a backspace is handled there, not in \<open>vga_putchar\<close>.\<close>

definition vga_print_char :: "u8 \<Rightarrow> vga_state \<Rightarrow> vga_state" where
  "vga_print_char c v =
     (if c = chr8 (CHR 0x08) then
        (if vga_column v > 0 then
           (let v = v\<lparr>vga_column := vga_column v - 1\<rparr>
            in vga_putentryat (chr8 CHR '' '') (vga_color v) (vga_column v) (vga_row v) v)
         else if vga_row v > 0 then
           (let v = v\<lparr>vga_row := vga_row v - 1, vga_column := VGA_WIDTH - 1\<rparr>
            in vga_putentryat (chr8 CHR '' '') (vga_color v) (vga_column v) (vga_row v) v)
         else v)
      else vga_putchar c v)"

fun vga_print :: "u8 list \<Rightarrow> vga_state \<Rightarrow> vga_state option" where
  "vga_print [] v = None"
| "vga_print (c # data) v = (if c \<noteq> 0 then vga_print data (vga_print_char c v) else Some v)"

text \<open>\<open>vga_print\<close> of a literal, which is always terminated.\<close>

definition vga_puts :: "string \<Rightarrow> vga_state \<Rightarrow> vga_state" where
  "vga_puts s v = fold vga_print_char (c_chars s) v"

definition vga_clear :: "vga_state \<Rightarrow> vga_state" where
  "vga_clear v =
     (let v = for_loop 0 25 (\<lambda>y. for_loop 0 80 (\<lambda>x v.
                vga_store (of_nat y * VGA_WIDTH + of_nat x) (vga_entry (chr8 CHR '' '') (vga_color v)) v)) v
      in v\<lparr>vga_row := 0, vga_column := 0\<rparr>)"

text \<open>\<open>hex_chars[(value >> (i * 4)) & 0xF]\<close> and the buffer \<open>vga_print_hex\<close> builds.\<close>

definition hex_chars :: string where
  "hex_chars = ''0123456789ABCDEF''"

definition hex_digit :: "u32 \<Rightarrow> nat \<Rightarrow> u8" where
  "hex_digit value i = c_chars hex_chars ! unat (drop_bit (i * 4) value AND 0xF)"

definition hex_buffer :: "u32 \<Rightarrow> u8 list" where
  "hex_buffer value =
     (let buffer = replicate 11 0;
          buffer = buffer[0 := chr8 CHR ''0'', 1 := chr8 CHR ''x''];
          buffer = for_loop 0 8 (\<lambda>k b. let i = 7 - k in b[2 + (7 - i) := hex_digit value i]) buffer
      in buffer[10 := 0])"

definition vga_print_hex :: "u32 \<Rightarrow> vga_state \<Rightarrow> vga_state" where
  "vga_print_hex value v = fold vga_print_char (cstr (hex_buffer value)) v"

section \<open>The cursor and the page\<close>

definition vga_ok :: "vga_state \<Rightarrow> bool" where
  "vga_ok v \<longleftrightarrow> vga_row v < VGA_HEIGHT \<and> vga_column v < VGA_WIDTH \<and> vga_buffer v = VGA_MEMORY"

text \<open>
  What every output operation guarantees: from a good cursor it ends in a good cursor, and it
  leaves the colour and all memory outside the 4000 bytes of the text page alone.
\<close>

definition on_page :: "u32 \<Rightarrow> bool" where
  "on_page a \<longleftrightarrow> VGA_MEMORY \<le> a \<and> a < VGA_MEMORY + 4000"

definition vga_within :: "vga_state \<Rightarrow> vga_state \<Rightarrow> bool" where
  "vga_within v v' \<longleftrightarrow> vga_ok v \<longrightarrow>
     vga_ok v' \<and> vga_color v' = vga_color v \<and> (\<forall>a. \<not> on_page a \<longrightarrow> vga_mem v' a = vga_mem v a)"

lemma vga_within_refl [simp]: "vga_within v v"
  by (simp add: vga_within_def)

lemma vga_within_trans [trans]: "vga_within u v \<Longrightarrow> vga_within v w \<Longrightarrow> vga_within u w"
  by (auto simp: vga_within_def)

text \<open>Cells are numbered row by row; the cursor is the number of the next cell to be written.\<close>

definition vga_cell :: "vga_state \<Rightarrow> nat \<Rightarrow> u16" where
  "vga_cell v n = vga_mem v (vga_addr v (of_nat n))"

definition cursor :: "vga_state \<Rightarrow> nat" where
  "cursor v = unat (vga_row v) * 80 + unat (vga_column v)"

lemma vga_addr_of_nat:
  "vga_buffer v = VGA_MEMORY \<Longrightarrow> n < 2000 \<Longrightarrow> unat (vga_addr v (of_nat n)) = 753664 + 2 * n"
  by (simp add: vga_addr_def unat_word_ariths)

lemma on_page_unat: "on_page a \<longleftrightarrow> 753664 \<le> unat a \<and> unat a < 757664"
  by (simp add: on_page_def word_le_nat_alt word_less_nat_alt)

lemma on_page_addr: "vga_buffer v = VGA_MEMORY \<Longrightarrow> n < 2000 \<Longrightarrow> on_page (vga_addr v (of_nat n))"
  by (simp add: on_page_unat vga_addr_of_nat)

lemma vga_addr_inject:
  "vga_buffer v = VGA_MEMORY \<Longrightarrow> m < 2000 \<Longrightarrow> n < 2000 \<Longrightarrow>
   vga_addr v (of_nat m) = vga_addr v (of_nat n) \<longleftrightarrow> m = n"
  by (auto simp: word_unat_eq_iff vga_addr_of_nat)

lemma vga_store_fields [simp]:
  "vga_row (vga_store i e v) = vga_row v" "vga_column (vga_store i e v) = vga_column v"
  "vga_color (vga_store i e v) = vga_color v" "vga_buffer (vga_store i e v) = vga_buffer v"
  "vga_addr (vga_store i e v) = vga_addr v"
  by (simp_all add: vga_store_def vga_addr_def fun_eq_iff)

lemma vga_cell_store:
  "vga_buffer v = VGA_MEMORY \<Longrightarrow> m < 2000 \<Longrightarrow> n < 2000 \<Longrightarrow>
   vga_cell (vga_store (of_nat m) e v) n = (if n = m then e else vga_cell v n)"
  by (simp add: vga_cell_def vga_addr_inject) (simp add: vga_store_def vga_addr_inject)

lemma vga_within_store:
  "n < 2000 \<Longrightarrow> vga_within v (vga_store (of_nat n) e v)"
  by (auto simp: vga_within_def vga_ok_def vga_store_def on_page_addr)

lemma index_of_nat: "(of_nat y * VGA_WIDTH + of_nat x :: u32) = of_nat (y * 80 + x)"
  by simp

lemma vga_cell_update [simp]:
  "vga_cell (v\<lparr>vga_row := r\<rparr>) = vga_cell v"
  "vga_cell (v\<lparr>vga_column := c\<rparr>) = vga_cell v"
  "vga_cell (v\<lparr>vga_color := k\<rparr>) = vga_cell v"
  by (simp_all add: fun_eq_iff vga_cell_def vga_addr_def)

section \<open>Nested loops over the page\<close>

lemma for_loop_shift: "for_loop 0 k (\<lambda>x. f (a + x)) s = fold f [a..<a + k] s"
  by (induction k) (simp_all add: for_loop_Suc)

lemma nested_for_loop:
  "for_loop 0 m (\<lambda>y. for_loop 0 k (\<lambda>x. f (y * k + x))) s = for_loop 0 (m * k) f s"
proof (induction m)
  case (Suc m)
  have "[0..<Suc m * k] = [0..<m * k] @ [m * k..<m * k + k]"
    by (metis add.commute mult_Suc upt_add_eq_append zero_le)
  then show ?case
    using Suc by (simp only: for_loop_Suc zero_le for_loop_shift) (simp add: for_loop_def)
qed simp

lemma vga_move_up_of_nat:
  "vga_move_up (of_nat y) (of_nat x) v = vga_store (of_nat (y * 80 + x)) (vga_cell v (y * 80 + x + 80)) v"
  by (simp add: vga_move_up_def vga_cell_def algebra_simps)

lemma vga_putentryat_of_nat:
  "vga_putentryat c k (of_nat x) (of_nat y) v = vga_store (of_nat (y * 80 + x)) (vga_entry c k) v"
  by (simp add: vga_putentryat_def)

definition blank :: "u8 \<Rightarrow> u16" where
  "blank color = vga_entry (chr8 CHR '' '') color"

text \<open>The two loops of \<open>vga_scroll\<close>, and the loop of \<open>vga_clear\<close>, as loops over cell numbers.\<close>

lemma scroll_copy_loop:
  "for_loop 0 24 (\<lambda>y. for_loop 0 80 (\<lambda>x. vga_move_up (of_nat y) (of_nat x))) v =
   for_loop 0 1920 (\<lambda>n v. vga_store (of_nat n) (vga_cell v (n + 80)) v) v"
  using nested_for_loop [where m = 24 and k = 80 and s = v and
      f = "\<lambda>n v. vga_store (of_nat n) (vga_cell v (n + 80)) v"]
  by (simp add: vga_move_up_of_nat [abs_def])

lemma scroll_blank_loop:
  "for_loop 0 80 (\<lambda>x v. vga_putentryat (chr8 CHR '' '') (vga_color v) (of_nat x) (VGA_HEIGHT - 1) v) v =
   for_loop 0 80 (\<lambda>n v. vga_store (of_nat (1920 + n)) (blank (vga_color v)) v) v"
  using vga_putentryat_of_nat [where y = 24] by (simp add: blank_def)

lemma clear_loop:
  "for_loop 0 25 (\<lambda>y. for_loop 0 80 (\<lambda>x v.
     vga_store (of_nat y * VGA_WIDTH + of_nat x) (vga_entry (chr8 CHR '' '') (vga_color v)) v)) v =
   for_loop 0 2000 (\<lambda>n v. vga_store (of_nat n) (blank (vga_color v)) v) v"
  using nested_for_loop [where m = 25 and k = 80 and s = v and
      f = "\<lambda>n v. vga_store (of_nat n) (blank (vga_color v)) v"]
  by (simp only: index_of_nat blank_def) simp

text \<open>A loop of stores to cells below 2000 changes nothing but these cells.\<close>

definition stores_only :: "vga_state \<Rightarrow> vga_state \<Rightarrow> bool" where
  "stores_only v v' \<longleftrightarrow> vga_row v' = vga_row v \<and> vga_column v' = vga_column v \<and>
     vga_color v' = vga_color v \<and> vga_buffer v' = vga_buffer v \<and>
     (vga_buffer v = VGA_MEMORY \<longrightarrow> (\<forall>a. \<not> on_page a \<longrightarrow> vga_mem v' a = vga_mem v a))"

lemma stores_only_store:
  "n < 2000 \<Longrightarrow> stores_only u v \<Longrightarrow> stores_only u (vga_store (of_nat n) e v)"
  by (auto simp: stores_only_def) (auto simp: vga_store_def on_page_addr)

lemma scroll_copied:
  assumes "vga_buffer v = VGA_MEMORY" and "k \<le> 1920"
  defines "w \<equiv> for_loop 0 k (\<lambda>n v. vga_store (of_nat n) (vga_cell v (n + 80)) v) v"
  shows "stores_only v w \<and>
    (\<forall>n < 2000. vga_cell w n = (if n < k then vga_cell v (n + 80) else vga_cell v n))"
  unfolding w_def
proof (rule for_loop_invar [where I = "\<lambda>i t. stores_only v t \<and>
    (\<forall>n < 2000. vga_cell t n = (if n < i then vga_cell v (n + 80) else vga_cell v n))"])
  fix i t
  assume i: "i < k" and "stores_only v t \<and>
    (\<forall>n < 2000. vga_cell t n = (if n < i then vga_cell v (n + 80) else vga_cell v n))"
  moreover from this have "vga_buffer t = VGA_MEMORY"
    using assms(1) by (simp add: stores_only_def)
  ultimately show "stores_only v (vga_store (of_nat i) (vga_cell t (i + 80)) t) \<and>
    (\<forall>n < 2000. vga_cell (vga_store (of_nat i) (vga_cell t (i + 80)) t) n =
       (if n < Suc i then vga_cell v (n + 80) else vga_cell v n))"
    using assms(2) by (auto simp: stores_only_store vga_cell_store)
qed (simp_all add: stores_only_def)

lemma blanked:
  assumes "vga_buffer v = VGA_MEMORY" and "a + k \<le> 2000"
  defines "w \<equiv> for_loop 0 k (\<lambda>n v. vga_store (of_nat (a + n)) (blank (vga_color v)) v) v"
  shows "stores_only v w \<and>
    (\<forall>n < 2000. vga_cell w n = (if a \<le> n \<and> n < a + k then blank (vga_color v) else vga_cell v n))"
  unfolding w_def
proof (rule for_loop_invar [where I = "\<lambda>i t. stores_only v t \<and> (\<forall>n < 2000. vga_cell t n =
    (if a \<le> n \<and> n < a + i then blank (vga_color v) else vga_cell v n))"])
  fix i t
  assume i: "i < k" and "stores_only v t \<and>
    (\<forall>n < 2000. vga_cell t n = (if a \<le> n \<and> n < a + i then blank (vga_color v) else vga_cell v n))"
  moreover from this have "vga_buffer t = VGA_MEMORY" and "vga_color t = vga_color v"
    using assms(1) by (simp_all add: stores_only_def)
  moreover have "a + i < 2000" using i assms(2) by simp
  ultimately show "stores_only v (vga_store (of_nat (a + i)) (blank (vga_color t)) t) \<and>
    (\<forall>n < 2000. vga_cell (vga_store (of_nat (a + i)) (blank (vga_color t)) t) n =
       (if a \<le> n \<and> n < a + Suc i then blank (vga_color v) else vga_cell v n))"
    by (auto simp: stores_only_store vga_cell_store simp del: of_nat_add)
qed (auto simp: stores_only_def)

lemma vga_scroll_spec:
  assumes "vga_buffer v = VGA_MEMORY"
  shows "vga_row (vga_scroll v) = 24" "vga_column (vga_scroll v) = 0"
    "vga_color (vga_scroll v) = vga_color v" "vga_buffer (vga_scroll v) = vga_buffer v"
    "n < 2000 \<Longrightarrow> vga_cell (vga_scroll v) n =
       (if n < 1920 then vga_cell v (n + 80) else blank (vga_color v))"
    "\<not> on_page a \<Longrightarrow> vga_mem (vga_scroll v) a = vga_mem v a"
proof -
  define w where "w = for_loop 0 1920 (\<lambda>n v. vga_store (of_nat n) (vga_cell v (n + 80)) v) v"
  have w: "stores_only v w" "vga_color w = vga_color v" "vga_buffer w = VGA_MEMORY"
    "n < 2000 \<Longrightarrow> vga_cell w n = (if n < 1920 then vga_cell v (n + 80) else vga_cell v n)" for n
    using scroll_copied [OF assms, of 1920] assms by (simp_all add: w_def stores_only_def)
  define u where "u = for_loop 0 80 (\<lambda>n v. vga_store (of_nat (1920 + n)) (blank (vga_color v)) v) w"
  have u: "stores_only w u"
    "n < 2000 \<Longrightarrow> vga_cell u n = (if 1920 \<le> n then blank (vga_color v) else vga_cell w n)" for n
    using blanked [OF w(3), of 1920 80] w(2) by (simp_all add: u_def)
  have s: "vga_scroll v = u\<lparr>vga_row := VGA_HEIGHT - 1, vga_column := 0\<rparr>"
    unfolding vga_scroll_def Let_def scroll_copy_loop scroll_blank_loop w_def u_def ..
  show "vga_row (vga_scroll v) = 24" "vga_column (vga_scroll v) = 0" by (simp_all add: s)
  show "vga_color (vga_scroll v) = vga_color v" "vga_buffer (vga_scroll v) = vga_buffer v"
    using w(1) u(1) by (simp_all add: s stores_only_def)
  show "n < 2000 \<Longrightarrow> vga_cell (vga_scroll v) n =
       (if n < 1920 then vga_cell v (n + 80) else blank (vga_color v))"
    by (simp add: s u(2) w(4))
  show "\<not> on_page a \<Longrightarrow> vga_mem (vga_scroll v) a = vga_mem v a"
    using w(1,3) u(1) assms by (simp add: s stores_only_def)
qed

lemma vga_clear_spec:
  assumes "vga_buffer v = VGA_MEMORY"
  shows "vga_ok (vga_clear v)" "cursor (vga_clear v) = 0" "vga_color (vga_clear v) = vga_color v"
    "n < 2000 \<Longrightarrow> vga_cell (vga_clear v) n = blank (vga_color v)"
    "\<not> on_page a \<Longrightarrow> vga_mem (vga_clear v) a = vga_mem v a"
  using blanked [OF assms, of 0 2000] assms
  unfolding vga_clear_def clear_loop Let_def
  by (simp_all add: stores_only_def vga_ok_def cursor_def)

section \<open>The driver refines a terminal\<close>

text \<open>
  The abstract terminal is a list of 2000 cells, the number of the next cell, and a colour.
  Moving to cell 2000 drops the first line, adds a blank one and steps back to its start.
\<close>

record terminal =
  t_cells :: "u16 list"
  t_pos :: nat
  t_color :: u8

definition term_goto :: "nat \<Rightarrow> terminal \<Rightarrow> terminal" where
  "term_goto p t =
     (if p < 2000 then t\<lparr>t_pos := p\<rparr>
      else t\<lparr>t_cells := drop 80 (t_cells t) @ replicate 80 (blank (t_color t)), t_pos := p - 80\<rparr>)"

definition term_set :: "nat \<Rightarrow> u16 \<Rightarrow> terminal \<Rightarrow> terminal" where
  "term_set p e t = t\<lparr>t_cells := (t_cells t)[p := e]\<rparr>"

definition term_putchar :: "u8 \<Rightarrow> terminal \<Rightarrow> terminal" where
  "term_putchar c t =
     (if c = 10 then term_goto ((t_pos t div 80 + 1) * 80) t
      else if c = 13 then term_goto (t_pos t div 80 * 80) t
      else if c = 9 then term_goto ((t_pos t div 8 + 1) * 8) t
      else term_goto (t_pos t + 1) (term_set (t_pos t) (vga_entry c (t_color t)) t))"

definition term_print_char :: "u8 \<Rightarrow> terminal \<Rightarrow> terminal" where
  "term_print_char c t =
     (if c = 8 then
        (if t_pos t = 0 then t
         else term_set (t_pos t - 1) (blank (t_color t)) (term_goto (t_pos t - 1) t))
      else term_putchar c t)"

definition vga_abs :: "vga_state \<Rightarrow> terminal" where
  "vga_abs v = \<lparr>t_cells = map (vga_cell v) [0..<2000], t_pos = cursor v, t_color = vga_color v\<rparr>"

lemma cursor_bound: "vga_ok v \<Longrightarrow> cursor v < 2000"
  by (simp add: vga_ok_def cursor_def word_less_nat_alt)

lemma vga_abs_store:
  assumes "vga_buffer v = VGA_MEMORY" and "n < 2000"
  shows "vga_abs (vga_store (of_nat n) e v) = term_set n e (vga_abs v)"
proof -
  have "map (vga_cell (vga_store (of_nat n) e v)) [0..<2000] = (map (vga_cell v) [0..<2000])[n := e]"
    using assms by (intro nth_equalityI) (auto simp: vga_cell_store nth_list_update)
  then show ?thesis by (simp add: vga_abs_def term_set_def cursor_def)
qed

lemma vga_abs_scroll:
  assumes "vga_buffer v = VGA_MEMORY"
  shows "vga_abs (vga_scroll v) = term_goto 2000 (vga_abs v)"
proof -
  have "map (vga_cell (vga_scroll v)) [0..<2000] =
      drop 80 (map (vga_cell v) [0..<2000]) @ replicate 80 (blank (vga_color v))"
    using vga_scroll_spec(5) [OF assms]
    by (intro nth_equalityI) (auto simp: nth_append add.commute)
  then show ?thesis
    using vga_scroll_spec [OF assms] by (simp add: vga_abs_def term_goto_def cursor_def)
qed

text \<open>One operation refines its abstract counterpart and stays within the page.\<close>

definition refines_to :: "vga_state \<Rightarrow> vga_state \<Rightarrow> terminal \<Rightarrow> bool" where
  "refines_to v v' t' \<longleftrightarrow> vga_within v v' \<and> vga_abs v' = t'"

lemma unat_Suc_row: "vga_row v < VGA_HEIGHT \<Longrightarrow> unat (vga_row v + 1) = Suc (unat (vga_row v))"
  by (simp add: word_less_nat_alt unat_word_ariths)

lemma unat_Suc_column: "vga_column v < VGA_WIDTH \<Longrightarrow> unat (vga_column v + 1) = Suc (unat (vga_column v))"
  by (simp add: word_less_nat_alt unat_word_ariths)

lemma cursor_row: "vga_ok v \<Longrightarrow> cursor v div 80 = unat (vga_row v)"
  by (simp add: cursor_def vga_ok_def word_less_nat_alt)

lemma vga_next_row_refines:
  assumes "vga_ok v"
  shows "refines_to v (vga_next_row (v\<lparr>vga_column := 0\<rparr>)) (term_goto ((cursor v div 80 + 1) * 80) (vga_abs v))"
proof (cases "vga_row v = 24")
  case False
  then have r: "vga_row v + 1 < VGA_HEIGHT"
    using assms unat_Suc_row [of v]
    by (simp add: vga_ok_def word_less_nat_alt word_unat_eq_iff)
  then have "vga_next_row (v\<lparr>vga_column := 0\<rparr>) = v\<lparr>vga_column := 0, vga_row := vga_row v + 1\<rparr>"
    by (simp add: vga_next_row_def Let_def not_le [symmetric])
  with r assms show ?thesis
    using unat_Suc_row [of v] cursor_row [OF assms]
    by (simp add: refines_to_def vga_within_def vga_ok_def vga_abs_def term_goto_def cursor_def
        word_less_nat_alt)
next
  case True
  let ?u = "v\<lparr>vga_column := 0, vga_row := VGA_HEIGHT - 1\<rparr>"
  have "vga_next_row (v\<lparr>vga_column := 0\<rparr>) = vga_scroll ?u"
    using True by (simp add: vga_next_row_def Let_def)
  moreover have b: "vga_buffer ?u = VGA_MEMORY" using assms by (simp add: vga_ok_def)
  moreover have "vga_abs ?u = vga_abs v\<lparr>t_pos := 1920\<rparr>"
    by (simp add: vga_abs_def cursor_def)
  moreover have "cursor v div 80 = 24" using True cursor_row [OF assms] by simp
  ultimately show ?thesis
    using vga_scroll_spec [OF b] vga_abs_scroll [OF b]
    by (simp add: refines_to_def vga_within_def vga_ok_def term_goto_def)
qed

lemma tab_column:
  assumes "vga_column v < VGA_WIDTH"
  shows "unat ((vga_column v + 8) AND NOT (8 - 1)) = (unat (vga_column v) div 8 + 1) * 8"
proof -
  have "unat ((vga_column v + 8) AND NOT (mask 3)) = 8 * (unat (vga_column v + 8) div 8)"
    by (subst unat_and_not_mask) simp
  moreover have "unat (vga_column v + 8) = unat (vga_column v) + 8"
    using assms by (simp add: word_less_nat_alt unat_word_ariths)
  moreover have "(8 - 1 :: u32) = mask 3" by (simp add: mask_eq_exp_minus_1)
  moreover have "8 * ((n + 8) div 8) = (n div 8 + 1) * 8" for n :: nat by presburger
  ultimately show ?thesis by simp
qed

lemma vga_putchar_tab_refines:
  assumes ok: "vga_ok v"
  shows "refines_to v (vga_putchar 9 v) (term_goto ((cursor v div 8 + 1) * 8) (vga_abs v))"
proof -
  let ?c = "(vga_column v + 8) AND NOT (8 - 1)"
  have c: "vga_column v < VGA_WIDTH" using ok by (simp add: vga_ok_def)
  have p: "cursor v div 8 = unat (vga_row v) * 10 + unat (vga_column v) div 8"
    by (simp add: cursor_def)
  show ?thesis
  proof (cases "?c \<ge> VGA_WIDTH")
    case True
    then have "unat (vga_column v) div 8 = 9"
      using tab_column [OF c] c by (simp add: word_le_nat_alt word_less_nat_alt)
    then have "(cursor v div 8 + 1) * 8 = (cursor v div 80 + 1) * 80"
      using p cursor_row [OF ok] by simp
    moreover have "vga_putchar 9 v = vga_next_row (v\<lparr>vga_column := 0\<rparr>)"
      using True ok by (simp add: vga_putchar_def vga_ok_def Let_def)
    ultimately show ?thesis using vga_next_row_refines [OF ok] by simp
  next
    case False
    then have "vga_putchar 9 v = v\<lparr>vga_column := ?c\<rparr>"
      using ok by (simp add: vga_putchar_def vga_ok_def Let_def)
    moreover have "(cursor v div 8 + 1) * 8 = unat (vga_row v) * 80 + unat ?c"
      unfolding tab_column [OF c] p by simp
    moreover have "unat ?c < 80" "unat (vga_row v) < 25"
      using False ok by (simp_all add: word_le_nat_alt vga_ok_def word_less_nat_alt)
    ultimately show ?thesis
      using ok by (simp add: refines_to_def vga_within_def vga_ok_def vga_abs_def term_goto_def
          cursor_def word_less_nat_alt word_le_nat_alt)
  qed
qed

lemma vga_put_refines:
  assumes ok: "vga_ok v" and c: "c \<noteq> 9" "c \<noteq> 10" "c \<noteq> 13"
  shows "refines_to v (vga_putchar c v)
    (term_goto (cursor v + 1) (term_set (cursor v) (vga_entry c (vga_color v)) (vga_abs v)))"
proof -
  define u where "u = vga_store (of_nat (cursor v)) (vga_entry c (vga_color v)) v"
  have b: "vga_row v < VGA_HEIGHT" "vga_column v < VGA_WIDTH" "vga_buffer v = VGA_MEMORY"
    using ok by (simp_all add: vga_ok_def)
  have "vga_putentryat c (vga_color v) (vga_column v) (vga_row v) v = u"
    using vga_putentryat_of_nat [of c "vga_color v" "unat (vga_column v)" "unat (vga_row v)" v]
    by (simp add: u_def cursor_def)
  then have p: "vga_putchar c v = (let v = u\<lparr>vga_column := vga_column u + 1\<rparr> in
      if vga_column v \<ge> VGA_WIDTH then vga_next_row (v\<lparr>vga_column := 0\<rparr>) else v)"
    using c b(3) by (simp add: vga_putchar_def)
  have w: "vga_within v u" and a: "vga_abs u = term_set (cursor v) (vga_entry c (vga_color v)) (vga_abs v)"
    using vga_within_store vga_abs_store [OF b(3)] cursor_bound [OF ok] by (simp_all add: u_def)
  have u: "vga_ok u" "cursor u = cursor v" "vga_column u = vga_column v" "vga_row u = vga_row v"
    using w ok by (simp_all add: vga_within_def u_def cursor_def)
  show ?thesis
  proof (cases "vga_column v = 79")
    case True
    then have "cursor v + 1 = (cursor v div 80 + 1) * 80"
      using cursor_row [OF ok] by (simp add: cursor_def)
    moreover have "vga_putchar c v = vga_next_row (u\<lparr>vga_column := 0\<rparr>)"
      using True p u(3) by (simp add: Let_def)
    ultimately show ?thesis
      using vga_next_row_refines [OF u(1)] w vga_within_trans unfolding refines_to_def a u(2) by metis
  next
    case False
    then have "vga_column v + 1 < VGA_WIDTH"
      using b(2) unat_Suc_column [of v] by (simp add: word_less_nat_alt word_unat_eq_iff)
    then have "vga_putchar c v = u\<lparr>vga_column := vga_column v + 1\<rparr>"
      and "vga_ok (u\<lparr>vga_column := vga_column v + 1\<rparr>)"
      and "cursor (u\<lparr>vga_column := vga_column v + 1\<rparr>) = cursor v + 1"
      using p u unat_Suc_column [OF b(2)]
      by (simp_all add: Let_def not_le [symmetric] vga_ok_def cursor_def)
    then show ?thesis
      using w a ok cursor_bound [of "u\<lparr>vga_column := vga_column v + 1\<rparr>"]
      by (auto simp: refines_to_def vga_within_def vga_abs_def term_goto_def term_set_def)
  qed
qed

lemma vga_cr_refines:
  assumes "vga_ok v"
  shows "refines_to v (v\<lparr>vga_column := 0\<rparr>) (term_goto (cursor v div 80 * 80) (vga_abs v))"
  using assms cursor_row [OF assms]
  by (simp add: refines_to_def vga_within_def vga_ok_def vga_abs_def term_goto_def cursor_def
      word_less_nat_alt)

lemma vga_putchar_refines:
  assumes "vga_ok v"
  shows "refines_to v (vga_putchar c v) (term_putchar c (vga_abs v))"
proof -
  have f: "t_pos (vga_abs v) = cursor v" "t_color (vga_abs v) = vga_color v"
    by (simp_all add: vga_abs_def)
  have b: "vga_buffer v \<noteq> 0" using assms by (simp add: vga_ok_def)
  consider "c = 10" | "c = 13" | "c = 9" | "c \<noteq> 9" "c \<noteq> 10" "c \<noteq> 13" by blast
  then show ?thesis
  proof cases
    case 1
    with b vga_next_row_refines [OF assms] f show ?thesis
      by (simp add: vga_putchar_def term_putchar_def)
  next
    case 2
    with b vga_cr_refines [OF assms] f show ?thesis
      by (simp add: vga_putchar_def term_putchar_def)
  next
    case 3
    with vga_putchar_tab_refines [OF assms] f show ?thesis by (simp add: term_putchar_def)
  next
    case 4
    with vga_put_refines [OF assms] f show ?thesis by (simp add: term_putchar_def)
  qed
qed

lemma vga_backspace_refines:
  assumes ok: "vga_ok v" and pos: "cursor v > 0"
    and u: "u = v\<lparr>vga_row := r, vga_column := c\<rparr>" "vga_ok u" "cursor u = cursor v - 1"
  shows "refines_to v (vga_putentryat (chr8 CHR '' '') (vga_color u) c r u)
    (term_set (cursor v - 1) (blank (vga_color v)) (term_goto (cursor v - 1) (vga_abs v)))"
proof -
  have "vga_putentryat (chr8 CHR '' '') (vga_color u) c r u =
      vga_store (of_nat (cursor v - 1)) (blank (vga_color v)) u"
  proof -
    have "unat r * 80 + unat c = cursor v - 1" using u by (simp add: cursor_def)
    with vga_putentryat_of_nat [of "chr8 CHR '' ''" "vga_color u" "unat c" "unat r" u] u(1)
    show ?thesis by (simp only: of_nat_unat_id blank_def) simp
  qed
  moreover have "vga_abs u = term_goto (cursor v - 1) (vga_abs v)"
    using u cursor_bound [OF ok] by (simp add: vga_abs_def term_goto_def)
  moreover have "vga_within v u" using u by (simp add: vga_within_def)
  ultimately show ?thesis
    using vga_abs_store [of u "cursor v - 1"] vga_within_store [of "cursor v - 1" u] u(2)
      cursor_bound [OF ok] vga_within_trans
    by (auto simp: refines_to_def vga_ok_def)
qed

lemma vga_print_char_refines:
  assumes ok: "vga_ok v"
  shows "refines_to v (vga_print_char c v) (term_print_char c (vga_abs v))"
proof (cases "c = 8")
  case False
  with vga_putchar_refines [OF ok] show ?thesis
    by (simp add: vga_print_char_def term_print_char_def)
next
  case True
  have f: "t_pos (vga_abs v) = cursor v" "t_color (vga_abs v) = vga_color v"
    by (simp_all add: vga_abs_def)
  consider "vga_column v > 0" | "vga_column v = 0" "vga_row v > 0" | "vga_column v = 0" "vga_row v = 0"
    by (auto simp: word_gt_0)
  then show ?thesis
  proof cases
    case 1
    then have "unat (vga_column v - 1) = unat (vga_column v) - 1" "unat (vga_column v) > 0"
      by (simp_all add: unat_minus_one word_gt_0 unat_gt_0)
    with 1 True f ok vga_backspace_refines [OF ok, where
        u = "v\<lparr>vga_column := vga_column v - 1\<rparr>" and r = "vga_row v" and c = "vga_column v - 1"]
    show ?thesis
      by (simp add: vga_print_char_def term_print_char_def Let_def cursor_def vga_ok_def
          word_less_nat_alt unat_gt_0 unat_eq_zero less_imp_diff_less)
  next
    case 2
    then have "unat (vga_row v - 1) = unat (vga_row v) - 1" "unat (vga_row v) > 0"
      by (simp_all add: unat_minus_one word_gt_0 unat_gt_0)
    with 2 True f ok vga_backspace_refines [OF ok, where
        u = "v\<lparr>vga_row := vga_row v - 1, vga_column := 79\<rparr>" and r = "vga_row v - 1" and c = 79]
    show ?thesis
      by (simp add: vga_print_char_def term_print_char_def Let_def cursor_def vga_ok_def
          word_less_nat_alt diff_mult_distrib less_imp_diff_less)
  next
    case 3
    with True f show ?thesis
      by (simp add: vga_print_char_def term_print_char_def cursor_def refines_to_def)
  qed
qed

section \<open>Devices that print one character at a time\<close>

text \<open>
  The interface the printing loops rely on: one character refines one step of the abstract
  device and stays within the device's bounds. Whole strings then do the same.
\<close>

locale text_device =
  fixes put :: "u8 \<Rightarrow> 's \<Rightarrow> 's"
    and good :: "'s \<Rightarrow> bool"
    and within :: "'s \<Rightarrow> 's \<Rightarrow> bool"
    and view :: "'s \<Rightarrow> 't"
    and put_view :: "u8 \<Rightarrow> 't \<Rightarrow> 't"
  assumes within_refl: "within v v"
    and within_trans: "within u v \<Longrightarrow> within v w \<Longrightarrow> within u w"
    and within_good: "good v \<Longrightarrow> within v w \<Longrightarrow> good w"
    and put_within: "good v \<Longrightarrow> within v (put c v)"
    and put_refines: "good v \<Longrightarrow> view (put c v) = put_view c (view v)"
begin

lemma puts_within: "good v \<Longrightarrow> within v (fold put cs v)"
proof (induction cs arbitrary: v)
  case (Cons c cs)
  then show ?case
    using put_within [of v c] within_good within_trans by (metis fold_simps(2))
qed (simp add: within_refl)

lemma puts_good: "good v \<Longrightarrow> good (fold put cs v)"
  using puts_within within_good by blast

lemma puts_refines: "good v \<Longrightarrow> view (fold put cs v) = fold put_view cs (view v)"
proof (induction cs arbitrary: v)
  case (Cons c cs)
  then show ?case
    using put_within [of v c] within_good put_refines [of v c] by (metis fold_simps(2))
qed simp

end

interpretation vga_dev: text_device vga_print_char vga_ok vga_within vga_abs term_print_char
  using vga_print_char_refines
  by unfold_locales (auto simp: refines_to_def vga_within_def)

interpretation vga_raw: text_device vga_putchar vga_ok vga_within vga_abs term_putchar
  using vga_putchar_refines
  by unfold_locales (auto simp: refines_to_def vga_within_def)

lemma vga_print_fold: "terminated data \<Longrightarrow> vga_print data v = Some (fold vga_print_char (cstr data) v)"
  by (induction data arbitrary: v) auto

lemma vga_print_None: "vga_print data v = None \<longleftrightarrow> \<not> terminated data"
  by (induction data arbitrary: v) auto

lemma vga_print_literal: "nul_free s \<Longrightarrow> vga_print (c_literal s) v = Some (vga_puts s v)"
  by (simp add: vga_print_fold vga_puts_def)

lemma vga_puts_within: "vga_ok v \<Longrightarrow> vga_within v (vga_puts s v)"
  unfolding vga_puts_def by (rule vga_dev.puts_within)

lemma vga_set_color_ok [simp]: "vga_ok (vga_set_color f b v) = vga_ok v"
  by (simp add: vga_set_color_def vga_ok_def)

section \<open>Hexadecimal output\<close>

definition hex_val :: "u8 \<Rightarrow> nat" where
  "hex_val c = (if c < 65 then unat c - 48 else unat c - 55)"

definition hex_value :: "u8 list \<Rightarrow> nat" where
  "hex_value cs = foldl (\<lambda>v c. v * 16 + hex_val c) 0 cs"

lemma hex_buffer_eq:
  "hex_buffer value = c_chars ''0x'' @ map (hex_digit value) [7, 6, 5, 4, 3, 2, 1, 0] @ [0]"
  by (simp add: hex_buffer_def for_loop_step numeral_eq_Suc)

lemma hex_char_cases:
  assumes "d < 16"
  shows "hex_val (c_chars hex_chars ! d) = d" and "c_chars hex_chars ! d \<noteq> 0"
proof -
  have "d = 0 \<or> d = 1 \<or> d = 2 \<or> d = 3 \<or> d = 4 \<or> d = 5 \<or> d = 6 \<or> d = 7 \<or>
      d = 8 \<or> d = 9 \<or> d = 10 \<or> d = 11 \<or> d = 12 \<or> d = 13 \<or> d = 14 \<or> d = 15"
    using assms by presburger
  then show "hex_val (c_chars hex_chars ! d) = d" and "c_chars hex_chars ! d \<noteq> 0"
    by (auto simp: hex_val_def hex_chars_def)
qed

lemma hex_nibble: "unat (drop_bit (i * 4) value AND 0xF) = unat value div 16 ^ i mod 16"
proof -
  have "drop_bit (i * 4) value AND 0xF = take_bit 4 (drop_bit (i * 4) value)"
    by (simp add: take_bit_eq_mask mask_eq_exp_minus_1)
  then have "unat (drop_bit (i * 4) value AND 0xF) = take_bit 4 (drop_bit (i * 4) (unat value))"
    by (simp only: unsigned_take_bit_eq unsigned_drop_bit_eq) (simp add: take_bit_nat_eq_self)
  then show ?thesis
    by (simp add: take_bit_eq_mod drop_bit_eq_div power_mult mult.commute [of i])
qed

lemma hex_digit_val: "hex_val (hex_digit value i) = unat value div 16 ^ i mod 16"
  unfolding hex_digit_def hex_nibble by (rule hex_char_cases(1)) simp

lemma hex_digit_nonzero: "hex_digit value i \<noteq> 0"
  unfolding hex_digit_def hex_nibble by (rule hex_char_cases(2)) simp

lemma hex_positional:
  "foldl (\<lambda>v c. v * 16 + hex_val c) a (map (hex_digit value) (rev [0..<k])) =
   a * 16 ^ k + unat value mod 16 ^ k"
proof (induction k arbitrary: a)
  case (Suc k)
  have "unat value mod 16 ^ Suc k = 16 ^ k * (unat value div 16 ^ k mod 16) + unat value mod 16 ^ k"
    using mod_mult2_eq [of "unat value" "16 ^ k" 16] by (simp add: mult.commute)
  with Suc show ?case by (simp add: hex_digit_val algebra_simps)
qed simp

lemma vga_print_hex_buffer: "vga_print (hex_buffer value) v = Some (vga_print_hex value v)"
  by (simp add: vga_print_hex_def vga_print_fold hex_buffer_eq)

section \<open>Properties\<close>

text \<open>The state after \<open>vga_init\<close> and \<open>vga_clear\<close> over zeroed memory, used in the witnesses.\<close>

definition boot_vga :: vga_state where
  "boot_vga = vga_clear (vga_init
     \<lparr>vga_row = 0, vga_column = 0, vga_color = 0, vga_buffer = 0, vga_mem = (\<lambda>_. 0)\<rparr>)"

lemma vga_ok_boot: "vga_ok boot_vga"
  unfolding boot_vga_def by (rule vga_clear_spec) (simp add: vga_init_def Let_def)

text \<open>
  C15. Printing a terminated string always succeeds; the cursor stays on the 80x25 page, no byte
  outside the page is written, and the screen is what the abstract terminal shows after the same
  characters (wrapping, tabs, newlines, backspaces and scrolling included).
\<close>

theorem vga_print_correct:
  assumes "terminated data" and "vga_ok v"
  shows "\<exists>v'. vga_print data v = Some v' \<and> vga_ok v' \<and> vga_within v v' \<and>
              vga_abs v' = fold term_print_char (cstr data) (vga_abs v)"
  using assms vga_dev.puts_good vga_dev.puts_within vga_dev.puts_refines
  by (auto simp: vga_print_fold)

theorem vga_print_correct_witness:
  "\<exists>v'. vga_print (c_literal ''Hi'') boot_vga = Some v' \<and> vga_ok v' \<and> vga_within boot_vga v' \<and>
        vga_abs v' = fold term_print_char (cstr (c_literal ''Hi'')) (vga_abs boot_vga)"
  by (rule vga_print_correct) (simp_all add: vga_ok_boot)

text \<open>
  Scrolling moves every line up by one, blanks the last line in the current colour, puts the
  cursor at its start and writes nothing outside the page; clearing blanks all 2000 cells and
  puts the cursor at the top.
\<close>

theorem vga_scroll_clear_correct:
  assumes "vga_ok v"
  shows "vga_abs (vga_scroll v) =
           \<lparr>t_cells = drop 80 (t_cells (vga_abs v)) @ replicate 80 (blank (vga_color v)),
            t_pos = 1920, t_color = vga_color v\<rparr> \<and>
         vga_within v (vga_scroll v) \<and>
         vga_abs (vga_clear v) =
           \<lparr>t_cells = replicate 2000 (blank (vga_color v)), t_pos = 0, t_color = vga_color v\<rparr> \<and>
         vga_within v (vga_clear v)"
proof -
  have b: "vga_buffer v = VGA_MEMORY" using assms by (simp add: vga_ok_def)
  have "map (vga_cell (vga_clear v)) [0..<2000] = replicate 2000 (blank (vga_color v))"
    by (intro nth_equalityI) (simp_all add: vga_clear_spec(4) [OF b])
  then show ?thesis
    using vga_clear_spec [OF b] vga_abs_scroll [OF b] vga_scroll_spec [OF b] b
    by (simp add: term_goto_def vga_within_def vga_ok_def vga_abs_def)
qed

theorem vga_scroll_clear_correct_witness:
  "t_pos (vga_abs (vga_scroll boot_vga)) = 1920 \<and>
   t_cells (vga_abs (vga_clear boot_vga)) = replicate 2000 (blank (vga_color boot_vga))"
  using vga_scroll_clear_correct [OF vga_ok_boot] by simp

text \<open>
  \<open>vga_print_hex\<close> prints \<open>0x\<close> and exactly eight digits, and reading these digits back as a
  hexadecimal number gives the value that was printed.
\<close>

theorem vga_print_hex_roundtrip:
  "\<exists>ds. vga_print (hex_buffer value) v = Some (fold vga_print_char (c_chars ''0x'' @ ds) v) \<and>
        length ds = 8 \<and> hex_value ds = unat value"
proof -
  let ?ds = "map (hex_digit value) (rev [0..<8])"
  have r: "rev [0..<8] = [7, 6, 5, 4, 3, 2, 1, 0]" by (simp add: upt_conv_Cons)
  have c: "cstr (hex_buffer value) = c_chars ''0x'' @ ?ds" and t: "terminated (hex_buffer value)"
    by (simp_all add: hex_buffer_eq r hex_digit_nonzero)
  have h: "hex_value ?ds = unat value"
    using hex_positional [of 0 "value" 8] unsigned_less [of "value", where 'a = nat]
    by (simp add: hex_value_def)
  show ?thesis
    by (rule exI [of _ ?ds]) (simp only: vga_print_fold [OF t] c h length_map length_rev length_upt, simp)
qed

end
