(* ===== verification/Memory.thy ===== *)
theory Memory
  imports Kernel_Prelude
begin

text \<open>
  The kernel heap, \<open>kernel/mem/memory.c\<close>: a bump allocator over the megabyte at
  \<open>HEAP_START\<close> whose blocks carry a four byte size header, and a \<open>kfree\<close> that overwrites a block
  with \<open>0xDE\<close> and reclaims nothing. The addresses the linker chooses are a parameter, the
  \<open>layout\<close>. The byte memory of the model is the heap and the array \<open>static_stacks\<close> of
  \<open>process.c\<close>; an access that leaves both is \<open>None\<close>.
  The lemmas give the result of every branch of \<open>kmalloc\<close> and \<open>kfree\<close>, the disjointness of
  blocks, and the sizes at which the size computation wraps.
\<close>

section \<open>Linker layout\<close>

text \<open>The functions whose address the kernel takes: process entry points and interrupt handlers.\<close>

datatype code_symbol =
    Exec_hello_program | Demo_counter_process | Demo_calc_process | Demo_monitor_process
  | Process_idle_task | Exception_handler | Timer_interrupt_wrapper

record layout =
  code_addr :: "code_symbol \<Rightarrow> u32"
  stacks_addr :: u32
  create_pcbs_addr :: u32
  test_pcbs_addr :: u32
  idt_entries_addr :: u32
  idt_p_addr :: u32

text \<open>No function is linked at address 0, and the stack array does not wrap around.\<close>

definition layout_ok :: "layout \<Rightarrow> bool" where
  "layout_ok L \<longleftrightarrow> (\<forall>f. code_addr L f \<noteq> 0) \<and> 0 < unat (stacks_addr L) \<and>
     unat (stacks_addr L) + 40960 \<le> 4294967295"

section \<open>State and accesses\<close>

record heap_state =
  heap_start :: u32
  heap_current :: u32
  heap_end :: u32
  ram :: "u32 \<Rightarrow> u8"

definition HEAP_START :: u32 where "HEAP_START = 0x100000"
definition HEAP_SIZE :: u32 where "HEAP_SIZE = 0x100000"

text \<open>The address \<open>kernel/linker.ld\<close> places the kernel image at.\<close>

definition IMAGE_START :: u32 where "IMAGE_START = 0x100000"

lemmas heap_consts [simp] = HEAP_START_def HEAP_SIZE_def

definition inside :: "u32 \<Rightarrow> nat \<Rightarrow> nat \<Rightarrow> nat \<Rightarrow> bool" where
  "inside a n lo len \<longleftrightarrow> lo \<le> unat a \<and> unat a + n \<le> lo + len"

definition accessible :: "layout \<Rightarrow> u32 \<Rightarrow> nat \<Rightarrow> bool" where
  "accessible L a n \<longleftrightarrow>
     inside a n (unat HEAP_START) (unat HEAP_SIZE) \<or> inside a n (unat (stacks_addr L)) 40960"

text \<open>A \<open>size_t\<close> in memory, little endian.\<close>

definition read32 :: "(u32 \<Rightarrow> u8) \<Rightarrow> u32 \<Rightarrow> u32" where
  "read32 m a = ucast (m a) OR push_bit 8 (ucast (m (a + 1))) OR
     push_bit 16 (ucast (m (a + 2))) OR push_bit 24 (ucast (m (a + 3)))"

definition write32 :: "u32 \<Rightarrow> u32 \<Rightarrow> (u32 \<Rightarrow> u8) \<Rightarrow> (u32 \<Rightarrow> u8)" where
  "write32 a w m = m(a := ucast w, a + 1 := ucast (drop_bit 8 w),
     a + 2 := ucast (drop_bit 16 w), a + 3 := ucast (drop_bit 24 w))"

text \<open>\<open>for (size_t i = 0; i < n; i++) ((char *)p)[i] = c\<close>.\<close>

definition fill_bytes :: "u32 \<Rightarrow> u8 \<Rightarrow> nat \<Rightarrow> (u32 \<Rightarrow> u8) \<Rightarrow> (u32 \<Rightarrow> u8)" where
  "fill_bytes p c n m = for_loop 0 n (\<lambda>i m. m(p + of_nat i := c)) m"

section \<open>Operations\<close>

definition memory_init :: "heap_state \<Rightarrow> heap_state" where
  "memory_init h = h\<lparr>heap_current := heap_start h\<rparr>"

text \<open>\<open>(size + 3) & ~3\<close>.\<close>

definition align4 :: "u32 \<Rightarrow> u32" where
  "align4 n = (n + 3) AND NOT 3"

text \<open>
  The heap after the call and the returned pointer, 0 for \<open>NULL\<close>. The comparison with
  \<open>heap_end\<close> is on the wrapped sum, as on the machine.
\<close>

definition kmalloc :: "layout \<Rightarrow> u32 \<Rightarrow> heap_state \<Rightarrow> (heap_state \<times> u32) option" where
  "kmalloc L n h =
     (let n = align4 n;
          total_size = n + 4
      in if heap_current h + total_size > heap_end h then Some (h, 0)
         else
           (let ptr = heap_current h;
                user_ptr = ptr + 4
            in if \<not> accessible L ptr 4 \<or> \<not> accessible L user_ptr (unat n) then None
               else Some (h\<lparr>heap_current := heap_current h + total_size,
                            ram := fill_bytes user_ptr 0 (unat n) (write32 ptr n (ram h))\<rparr>, user_ptr)))"

definition kfree :: "layout \<Rightarrow> u32 \<Rightarrow> heap_state \<Rightarrow> heap_state option" where
  "kfree L ptr h =
     (if ptr = 0 then Some h
      else
        (let header_ptr = ptr - 4
         in if \<not> accessible L header_ptr 4 then None
            else
              (let n = read32 (ram h) header_ptr
               in if \<not> accessible L ptr (unat n) then None
                  else Some (h\<lparr>ram := fill_bytes ptr 0xDE (unat n) (ram h)\<rparr>))))"

section \<open>Memory lemmas\<close>

lemma fill_bytes_apply:
  "n \<le> 4294967296 \<Longrightarrow> fill_bytes p c n m x = (if unat (x - p) < n then c else m x)"
proof (induction n)
  case (Suc n)
  have "x = p + of_nat n \<longleftrightarrow> unat (x - p) = n"
    using Suc.prems by (auto simp: algebra_simps)
  with Suc show ?case by (auto simp: fill_bytes_def for_loop_Suc)
qed (simp add: fill_bytes_def)

lemma read32_write32: "read32 (write32 a w m) a = w"
proof -
  have "(a + 1 :: u32) \<noteq> a" "a + 2 \<noteq> a" "a + 3 \<noteq> a" "a + 1 \<noteq> a + 2" "a + 1 \<noteq> a + 3" "a + 2 \<noteq> a + 3"
    by simp_all
  then show ?thesis
    by (intro bit_word_eqI) (auto simp: read32_def write32_def bit_simps, rule ccontr, simp)
qed

lemma read32_cong:
  "m a = m' a \<Longrightarrow> m (a + 1) = m' (a + 1) \<Longrightarrow> m (a + 2) = m' (a + 2) \<Longrightarrow> m (a + 3) = m' (a + 3) \<Longrightarrow>
   read32 m a = read32 m' a"
  by (simp add: read32_def)

lemma write32_other: "4 \<le> unat (x - a) \<Longrightarrow> write32 a w m x = m x"
proof -
  assume "4 \<le> unat (x - a)"
  then have "x - a \<noteq> 0" "x - a \<noteq> 1" "x - a \<noteq> 2" "x - a \<noteq> 3" by auto
  then have "x \<noteq> a" "x \<noteq> a + 1" "x \<noteq> a + 2" "x \<noteq> a + 3" by auto
  then show ?thesis by (simp add: write32_def)
qed

section \<open>The allocator\<close>

definition heap_ok :: "heap_state \<Rightarrow> bool" where
  "heap_ok h \<longleftrightarrow> heap_start h = HEAP_START \<and> heap_end h = HEAP_START + HEAP_SIZE \<and>
     unat HEAP_START \<le> unat (heap_current h) \<and> unat (heap_current h) \<le> unat HEAP_START + unat HEAP_SIZE \<and>
     unat (heap_current h) mod 4 = 0"

text \<open>The size of a block for a request of \<open>n\<close> bytes, without wrap-around.\<close>

definition block_size :: "u32 \<Rightarrow> nat" where
  "block_size n = 4 * ((unat n + 3) div 4)"

lemma unat_align4: "unat n + 3 < 4294967296 \<Longrightarrow> unat (align4 n) = block_size n"
proof -
  assume "unat n + 3 < 4294967296"
  then have "unat (n + 3) = unat n + 3" by (simp add: unat_plus_u32)
  moreover have "align4 n = (n + 3) AND NOT (mask 2)"
    by (simp add: align4_def mask_eq_exp_minus_1)
  ultimately show ?thesis by (simp only: unat_and_not_mask block_size_def) simp
qed

lemma align4_wraps: "unat n + 3 \<ge> 4294967296 \<Longrightarrow> align4 n = 0"
proof -
  assume n: "unat n + 3 \<ge> 4294967296"
  then have "unat (n + 3) = unat n + 3 - 4294967296"
    using unat_lt_u32 [of n] by (simp add: unat_word_ariths le_mod_geq)
  then have "unat (n + 3) < 3"
    using n unat_lt_u32 [of n] by linarith
  moreover have "align4 n = (n + 3) AND NOT (mask 2)"
    by (simp add: align4_def mask_eq_exp_minus_1)
  ultimately have "unat (align4 n) = 0" by (simp only: unat_and_not_mask) simp
  then show ?thesis by (simp add: unat_eq_zero)
qed

text \<open>A request below this bound keeps all sums of \<open>kmalloc\<close> below \<open>2^32\<close>.\<close>

definition request_ok :: "u32 \<Rightarrow> bool" where
  "request_ok n \<longleftrightarrow> unat n \<le> 4000000000"

lemma block_size_bounds: "unat n \<le> block_size n" "block_size n < unat n + 4"
  by (simp_all add: block_size_def)

definition fits :: "u32 \<Rightarrow> heap_state \<Rightarrow> bool" where
  "fits n h \<longleftrightarrow> unat (heap_current h) + block_size n + 4 \<le> 2097152"

definition take_block :: "u32 \<Rightarrow> heap_state \<Rightarrow> heap_state" where
  "take_block n h = h\<lparr>heap_current := heap_current h + of_nat (block_size n + 4),
     ram := fill_bytes (heap_current h + 4) 0 (block_size n)
              (write32 (heap_current h) (of_nat (block_size n)) (ram h))\<rparr>"

lemma kmalloc_small:
  assumes h: "heap_ok h" and n: "unat (heap_current h) + block_size n + 4 < 4294967296"
  shows "kmalloc L n h = (if fits n h then Some (take_block n h, heap_current h + 4) else Some (h, 0))"
proof -
  have c: "1048576 \<le> unat (heap_current h)" "unat (heap_current h) \<le> 2097152"
    using h by (simp_all add: heap_ok_def)
  have a: "unat (align4 n) = block_size n"
    using n c block_size_bounds(1) [of n] by (intro unat_align4) linarith
  have t: "unat (heap_current h + (align4 n + 4)) = unat (heap_current h) + block_size n + 4"
    using a n by (simp add: unat_word_ariths)
  have w: "align4 n = of_nat (block_size n)" using a by (metis of_nat_unat_id)
  have fit: "heap_current h + (align4 n + 4) > heap_end h \<longleftrightarrow> \<not> fits n h"
    using h t by (simp add: heap_ok_def word_less_nat_alt fits_def not_le)
  show ?thesis
  proof (cases "fits n h")
    case True
    then have "unat (heap_current h + 4) = unat (heap_current h) + 4"
      using c by (simp add: fits_def unat_word_ariths)
    then have "accessible L (heap_current h) 4" "accessible L (heap_current h + 4) (unat (align4 n))"
      using True c a by (simp_all add: accessible_def inside_def fits_def)
    then show ?thesis
      using True fit a w by (simp add: kmalloc_def Let_def take_block_def ac_simps)
  next
    case False
    then show ?thesis using fit by (simp add: kmalloc_def Let_def)
  qed
qed

lemma kmalloc_cases:
  assumes "heap_ok h" and "request_ok n"
  shows "kmalloc L n h = (if fits n h then Some (take_block n h, heap_current h + 4) else Some (h, 0))"
  using assms block_size_bounds(2) [of n]
  by (intro kmalloc_small) (auto simp: heap_ok_def request_ok_def)

text \<open>The sum of the current pointer and the size wraps: the block is accepted, and runs out of the heap.\<close>

lemma kmalloc_sum_wraps:
  assumes h: "heap_ok h" and n: "4294967296 \<le> unat (heap_current h) + block_size n + 4" and b: "block_size n < 4294967296"
  shows "kmalloc L n h = None"
proof -
  have c: "1048576 \<le> unat (heap_current h)" "unat (heap_current h) \<le> 2097152"
    using h by (simp_all add: heap_ok_def)
  have q: "(unat n + 3) div 4 < 1073741824" using b by (simp add: block_size_def)
  then have b4: "block_size n \<le> 4294967292" by (simp add: block_size_def)
  have "unat n + 3 < 4294967296" using q by (simp add: div_less_iff_less_mult)
  then have a: "unat (align4 n) = block_size n" by (rule unat_align4)
  have u: "unat (heap_current h + 4) = unat (heap_current h) + 4" using c by (simp add: unat_word_ariths)
  have "\<not> accessible L (heap_current h + 4) (unat (align4 n))"
    using c n a u by (auto simp: accessible_def inside_def)
  moreover have "unat (heap_current h + (align4 n + 4)) = (unat (heap_current h) + (block_size n + 4)) mod 4294967296"
    using a by (simp add: unat_word_ariths mod_simps)
  then have "unat (heap_current h + (align4 n + 4)) = unat (heap_current h) + (block_size n + 4) - 4294967296"
    using n b4 c by (simp add: le_mod_geq)
  then have "unat (heap_current h + (align4 n + 4)) \<le> unat (heap_current h)"
    using b4 by linarith
  then have "\<not> heap_current h + (align4 n + 4) > heap_end h"
    using h by (simp add: heap_ok_def word_less_nat_alt)
  ultimately show ?thesis by (simp add: kmalloc_def Let_def)
qed

text \<open>
  The rounding \<open>(size + 3) & ~3\<close> wraps for the three largest sizes: a request for almost
  4 GiB is handled as one for no bytes.
\<close>

lemma kmalloc_size_wraps:
  assumes "heap_ok h" and "4294967296 \<le> block_size n"
  shows "kmalloc L n h = (if fits 0 h then Some (take_block 0 h, heap_current h + 4) else Some (h, 0))"
proof -
  have "unat n + 3 \<ge> 4294967296"
    using assms(2) div_less_iff_less_mult [of 4 "unat n + 3" 1073741824] by (simp add: block_size_def not_less)
  then have "align4 n = align4 0" by (simp add: align4_wraps) (simp add: align4_def)
  then have "kmalloc L n h = kmalloc L 0 h" by (simp only: kmalloc_def)
  then show ?thesis using kmalloc_cases [OF assms(1), of 0 L] by (simp add: request_ok_def)
qed

lemma take_block_ok:
  assumes "heap_ok h" and "fits n h"
  shows "heap_ok (take_block n h)"
    and "unat (heap_current (take_block n h)) = unat (heap_current h) + block_size n + 4"
proof -
  show u: "unat (heap_current (take_block n h)) = unat (heap_current h) + block_size n + 4"
    using assms by (simp add: take_block_def fits_def unat_word_ariths del: of_nat_add)
  have "block_size n mod 4 = 0" by (simp add: block_size_def)
  with u assms show "heap_ok (take_block n h)"
    by (auto simp: heap_ok_def fits_def mod_add_eq [symmetric, of _ "block_size n"]) (simp_all add: take_block_def)
qed

text \<open>What a fresh block holds, and that the rest of memory is untouched.\<close>

lemma take_block_memory:
  assumes h: "heap_ok h" and f: "fits n h"
  shows "i < block_size n \<Longrightarrow> ram (take_block n h) (heap_current h + 4 + of_nat i) = 0"
    and "read32 (ram (take_block n h)) (heap_current h) = of_nat (block_size n)"
    and "block_size n + 4 \<le> unat (x - heap_current h) \<Longrightarrow> ram (take_block n h) x = ram h x"
proof -
  have b: "block_size n + 4 \<le> 2097152" using f by (simp add: fits_def)
  show "i < block_size n \<Longrightarrow> ram (take_block n h) (heap_current h + 4 + of_nat i) = 0"
    using b by (simp add: take_block_def fill_bytes_apply)
  have o: "fill_bytes (heap_current h + 4) 0 (block_size n) m x = m x"
    if "unat (x - heap_current h) < 4 \<or> block_size n + 4 \<le> unat (x - heap_current h)" for m x
  proof -
    have e: "x - (heap_current h + 4) = x - heap_current h - 4" by simp
    have "unat ((x - heap_current h) - 4) = unat (x - heap_current h) - 4"
      if "4 \<le> unat (x - heap_current h)"
      using that by (subst unat_sub) (simp_all add: word_le_nat_alt)
    moreover have "4294967292 \<le> unat ((x - heap_current h) - 4)" if "unat (x - heap_current h) < 4"
      using that by (simp add: unat_sub_if_size word_size)
    ultimately have "\<not> unat (x - (heap_current h + 4)) < block_size n"
      using that b unfolding e by linarith
    then show ?thesis using b by (simp add: fill_bytes_apply)
  qed
  show "read32 (ram (take_block n h)) (heap_current h) = of_nat (block_size n)"
    by (subst read32_write32 [of "heap_current h" _ "ram h", symmetric], rule read32_cong)
       (simp_all add: take_block_def o)
  show "block_size n + 4 \<le> unat (x - heap_current h) \<Longrightarrow> ram (take_block n h) x = ram h x"
    by (simp add: take_block_def o write32_other)
qed

section \<open>Allocators that only move up\<close>

text \<open>
  A run of allocations: the blocks (pointer, requested size) that were handed out, in order;
  failed requests, which return \<open>NULL\<close>, hand out none.
\<close>

fun alloc_all :: "(u32 \<Rightarrow> 's \<Rightarrow> ('s \<times> u32) option) \<Rightarrow> u32 list \<Rightarrow> 's \<Rightarrow> ('s \<times> (u32 \<times> u32) list) option" where
  "alloc_all alloc [] s = Some (s, [])"
| "alloc_all alloc (n # ns) s = do {
     (s, p) \<leftarrow> alloc n s;
     (s, bs) \<leftarrow> alloc_all alloc ns s;
     Some (s, if p = 0 then bs else (p, n) # bs)
   }"

text \<open>\<open>b\<close> starts after the end of \<open>a\<close>.\<close>

definition block_before :: "u32 \<times> u32 \<Rightarrow> u32 \<times> u32 \<Rightarrow> bool" where
  "block_before a b \<longleftrightarrow> unat (fst a) + unat (snd a) \<le> unat (fst b)"

locale bump_allocator =
  fixes alloc :: "u32 \<Rightarrow> 's \<Rightarrow> ('s \<times> u32) option"
    and good :: "'s \<Rightarrow> bool"
    and top :: "'s \<Rightarrow> nat"
    and limit :: nat
    and admissible :: "u32 \<Rightarrow> bool"
  assumes alloc_returns: "good s \<Longrightarrow> admissible n \<Longrightarrow> \<exists>s' p. alloc n s = Some (s', p)"
    and alloc_good: "good s \<Longrightarrow> admissible n \<Longrightarrow> alloc n s = Some (s', p) \<Longrightarrow> good s'"
    and alloc_top: "good s \<Longrightarrow> admissible n \<Longrightarrow> alloc n s = Some (s', p) \<Longrightarrow> top s \<le> top s'"
    and alloc_block: "good s \<Longrightarrow> admissible n \<Longrightarrow> alloc n s = Some (s', p) \<Longrightarrow> p \<noteq> 0 \<Longrightarrow>
      top s \<le> unat p \<and> unat p + unat n \<le> top s'"
    and top_limit: "good s \<Longrightarrow> top s \<le> limit"
begin

lemma alloc_all_returns:
  "good s \<Longrightarrow> list_all admissible ns \<Longrightarrow> \<exists>s' bs. alloc_all alloc ns s = Some (s', bs)"
proof (induction ns arbitrary: s)
  case (Cons n ns)
  then obtain s1 p where s1: "alloc n s = Some (s1, p)" using alloc_returns by fastforce
  moreover have "good s1" using Cons.prems s1 by (auto intro: alloc_good)
  ultimately show ?case using Cons by fastforce
qed simp

lemma alloc_all_blocks:
  "good s \<Longrightarrow> list_all admissible ns \<Longrightarrow> alloc_all alloc ns s = Some (s', bs) \<Longrightarrow>
   sorted_wrt block_before bs \<and> top s \<le> top s' \<and> good s' \<and>
   (\<forall>b \<in> set bs. top s \<le> unat (fst b) \<and> unat (fst b) + unat (snd b) \<le> top s')"
proof (induction ns arbitrary: s bs)
  case (Cons n ns)
  then obtain s1 p bs1 where s1: "alloc n s = Some (s1, p)" and r: "alloc_all alloc ns s1 = Some (s', bs1)"
    and bs: "bs = (if p = 0 then bs1 else (p, n) # bs1)"
    by (auto split: prod.splits if_splits)
  have g: "good s1" "top s \<le> top s1" using Cons.prems s1 by (auto intro: alloc_good alloc_top)
  have ih: "sorted_wrt block_before bs1 \<and> top s1 \<le> top s' \<and> good s' \<and>
      (\<forall>b \<in> set bs1. top s1 \<le> unat (fst b) \<and> unat (fst b) + unat (snd b) \<le> top s')"
    using Cons.IH [OF g(1) _ r] Cons.prems(2) by simp
  show ?case
  proof (cases "p = 0")
    case False
    then have "top s \<le> unat p \<and> unat p + unat n \<le> top s1"
      using Cons.prems s1 by (auto dest: alloc_block)
    moreover have "block_before (p, n) b \<and> top s \<le> unat (fst b)" if "b \<in> set bs1" for b
    proof -
      have "top s1 \<le> unat (fst b)" using ih that by blast
      with calculation g show ?thesis by (simp add: block_before_def)
    qed
    ultimately show ?thesis using ih g bs False by auto
  next
    case True
    have "top s \<le> unat (fst b)" if "b \<in> set bs1" for b
      using ih g that by (meson order_trans)
    then show ?thesis using ih g bs True by auto
  qed
qed simp

end

interpretation kheap: bump_allocator "kmalloc L" heap_ok "\<lambda>h. unat (heap_current h)" 2097152 request_ok
proof unfold_locales
  fix s s' n p
  assume s: "heap_ok s" and n: "request_ok n" and a: "kmalloc L n s = Some (s', p)"
  have c: "s' = take_block n s \<and> p = heap_current s + 4 \<and> fits n s \<or> s' = s \<and> p = 0"
    using a kmalloc_cases [OF s n, of L] by (auto split: if_splits)
  then show "heap_ok s'" "unat (heap_current s) \<le> unat (heap_current s')"
    using s take_block_ok [OF s] by auto
  show "unat (heap_current s) \<le> unat p \<and> unat p + unat n \<le> unat (heap_current s')" if "p \<noteq> 0"
    using that c take_block_ok(2) [OF s, of n] block_size_bounds(1) [of n]
    by (auto simp: fits_def unat_word_ariths)
qed (auto simp: kmalloc_cases, auto simp: heap_ok_def)

section \<open>Properties\<close>

text \<open>The initialisers of the three heap pointers, over zeroed memory.\<close>

definition boot_heap :: heap_state where
  "boot_heap = \<lparr>heap_start = HEAP_START, heap_current = HEAP_START,
                heap_end = HEAP_START + HEAP_SIZE, ram = (\<lambda>_. 0)\<rparr>"

text \<open>A layout for the witnesses: code above the heap, then the arrays of \<open>process.c\<close>.\<close>

fun sample_code :: "code_symbol \<Rightarrow> u32" where
  "sample_code Exec_hello_program = 0x200100"
| "sample_code Demo_counter_process = 0x200200"
| "sample_code Demo_calc_process = 0x200300"
| "sample_code Demo_monitor_process = 0x200400"
| "sample_code Process_idle_task = 0x200500"
| "sample_code Exception_handler = 0x200600"
| "sample_code Timer_interrupt_wrapper = 0x200700"

definition sample_layout :: layout where
  "sample_layout = \<lparr>code_addr = sample_code, stacks_addr = 0x300000,
     create_pcbs_addr = 0x400000, test_pcbs_addr = 0x401000,
     idt_entries_addr = 0x402000, idt_p_addr = 0x403000\<rparr>"

lemma sample_layout_ok: "layout_ok sample_layout"
proof -
  have "sample_code f \<noteq> 0" for f by (cases f) simp_all
  then show ?thesis by (simp add: layout_ok_def sample_layout_def)
qed

lemma heap_ok_boot: "heap_ok boot_heap"
  by (simp add: heap_ok_def boot_heap_def)

text \<open>
  C10. \<open>kmalloc\<close> on every size. When the rounded block and its header fit below \<open>heap_end\<close> it
  returns the four byte aligned address after the header, the block is zeroed, its header holds the
  rounded size, and no byte outside header and block changes. When they do not fit, and the end of
  the block does not exceed \<open>2^32\<close>, it returns \<open>NULL\<close> and changes nothing. Beyond that the check wraps:
  the sum with \<open>heap_current\<close> does, the request is accepted, and clearing the block runs out of the heap;
  for the three largest sizes already the rounding does, and a pointer to an empty block is returned
  while there is room for a header.
\<close>

theorem kmalloc_correct:
  assumes "heap_ok h"
  shows "(let end_of_block = unat (heap_current h) + 4 + block_size n in
     if fits n h
     then \<exists>h' p. kmalloc L n h = Some (h', p) \<and>
          p = heap_current h + 4 \<and> unat p mod 4 = 0 \<and> heap_ok h' \<and>
          unat (heap_current h') = end_of_block \<and>
          (\<forall>i < block_size n. ram h' (p + of_nat i) = 0) \<and>
          read32 (ram h') (p - 4) = of_nat (block_size n) \<and>
          (\<forall>x. 4 + block_size n \<le> unat (x - heap_current h) \<longrightarrow> ram h' x = ram h x)
     else if end_of_block < 4294967296 then kmalloc L n h = Some (h, 0)
     else if block_size n < 4294967296 then kmalloc L n h = None
     else if fits 0 h then kmalloc L n h = Some (take_block 0 h, heap_current h + 4)
     else kmalloc L n h = Some (h, 0))"
proof (cases "fits n h")
  case True
  have "unat (heap_current h + 4) = unat (heap_current h) + 4"
    using True by (simp add: fits_def unat_word_ariths)
  then have "unat (heap_current h + 4) mod 4 = 0"
    using assms(1) by (simp add: heap_ok_def)
  moreover have "unat (heap_current h) + block_size n + 4 < 4294967296" using True by (simp add: fits_def)
  ultimately show ?thesis
    using True kmalloc_small [OF assms, of n L] take_block_ok [OF assms True] take_block_memory [OF assms True]
    by (simp add: add.commute [of 4])
next
  case False
  then show ?thesis
    using kmalloc_small [OF assms, of n L] kmalloc_sum_wraps [OF assms, of n L] kmalloc_size_wraps [OF assms, of n L]
    by (simp add: Let_def not_less ac_simps)
qed

theorem kmalloc_correct_witness:
  "(\<exists>h' p. kmalloc sample_layout 10 boot_heap = Some (h', p) \<and> p = 0x100004 \<and> read32 (ram h') (p - 4) = 12) \<and>
   kmalloc sample_layout 0x200000 boot_heap = Some (boot_heap, 0) \<and>
   kmalloc sample_layout 0xFFF00000 boot_heap = None \<and>
   kmalloc sample_layout 0xFFFFFFFE boot_heap = Some (take_block 0 boot_heap, 0x100004)"
proof -
  have "fits 10 boot_heap" "\<not> fits 0x200000 boot_heap" "\<not> fits 0xFFF00000 boot_heap" "\<not> fits 0xFFFFFFFE boot_heap"
    "fits 0 boot_heap" "block_size 10 = 12" "block_size 0x200000 = 0x200000" "block_size 0xFFF00000 = 0xFFF00000"
    "block_size 0xFFFFFFFE = 0x100000000" "heap_current boot_heap = 0x100000"
    by (simp_all add: fits_def boot_heap_def block_size_def)
  then show ?thesis
    using kmalloc_correct [OF heap_ok_boot, of 10 sample_layout]
      kmalloc_correct [OF heap_ok_boot, of "0x200000" sample_layout]
      kmalloc_correct [OF heap_ok_boot, of "0xFFF00000" sample_layout]
      kmalloc_correct [OF heap_ok_boot, of "0xFFFFFFFE" sample_layout]
    by (simp add: Let_def) (elim exE conjE, simp)
qed

text \<open>
  C25. Any sequence of requests of at most 4000000000 bytes each succeeds (each with a block or with
  \<open>NULL\<close>), the blocks handed out never overlap, and all of them lie inside the heap. (For the wrapping
  sizes near \<open>2^32\<close> that is not so: \<open>kmalloc\<close> then leaves the heap or hands out an empty block.)
\<close>

theorem kmalloc_blocks_disjoint:
  assumes "heap_ok h" and "list_all request_ok ns"
  shows "\<exists>h' bs. alloc_all (kmalloc L) ns h = Some (h', bs) \<and> sorted_wrt block_before bs \<and>
    list_all (\<lambda>(p, n). unat (heap_current h) \<le> unat p \<and> unat p + unat n \<le> 2097152) bs \<and> heap_ok h'"
proof -
  obtain h' bs where r: "alloc_all (kmalloc L) ns h = Some (h', bs)"
    using kheap.alloc_all_returns [OF assms, of L] by blast
  moreover have "unat (heap_current h') \<le> 2097152" if "heap_ok h'"
    using that by (simp add: heap_ok_def)
  ultimately show ?thesis
    using kheap.alloc_all_blocks [OF assms r] by (fastforce simp: list_all_iff)
qed

theorem kmalloc_blocks_disjoint_witness:
  "\<exists>h' bs. alloc_all (kmalloc sample_layout) [10, 4096] boot_heap = Some (h', bs) \<and>
     sorted_wrt block_before bs"
proof -
  have "list_all request_ok [10, 4096]" by (simp add: request_ok_def)
  from kmalloc_blocks_disjoint [OF heap_ok_boot this, where L = sample_layout] show ?thesis by blast
qed

text \<open>
  Freeing a block just returned by \<open>kmalloc\<close> succeeds and fills it with \<open>0xDE\<close>, but the
  allocation pointer stays where it was: no freed byte is ever handed out again.
\<close>

theorem kfree_reclaims_nothing:
  assumes "heap_ok h" and "request_ok n" and "fits n h" and "kmalloc L n h = Some (h', p)"
  shows "\<exists>h''. kfree L p h' = Some h'' \<and> heap_current h'' = heap_current h' \<and>
    (\<forall>i < block_size n. ram h'' (p + of_nat i) = 0xDE)"
proof -
  have e: "h' = take_block n h" "p = heap_current h + 4"
    using assms kmalloc_cases [OF assms(1,2), of L] by simp_all
  have b: "block_size n + 4 \<le> 2097152" and u: "unat (heap_current h + 4) = unat (heap_current h) + 4"
    and nz: "heap_current h + 4 \<noteq> 0" and lo: "1048576 \<le> unat (heap_current h)"
    using assms(1,3) by (auto simp: fits_def unat_word_ariths heap_ok_def word_unat_eq_iff)
  have hd: "read32 (ram h') (p - 4) = of_nat (block_size n)"
    using take_block_memory(2) [OF assms(1,3)] e by simp
  have acc: "accessible L (p - 4) 4" "accessible L p (unat (read32 (ram h') (p - 4)))"
    using b u lo assms(3) e hd by (simp_all add: accessible_def inside_def fits_def)
  then have "kfree L p h' = Some (h'\<lparr>ram := fill_bytes p 0xDE (block_size n) (ram h')\<rparr>)"
    using nz e hd b by (simp add: kfree_def Let_def)
  then show ?thesis using b by (simp add: fill_bytes_apply)
qed

theorem kfree_reclaims_nothing_witness:
  "\<exists>h' p h''. kmalloc sample_layout 10 boot_heap = Some (h', p) \<and> kfree sample_layout p h' = Some h'' \<and>
     heap_current h'' = heap_current h'"
proof -
  have f: "fits 10 boot_heap" "request_ok 10"
    by (simp_all add: fits_def boot_heap_def block_size_def request_ok_def)
  then obtain h' p where "kmalloc sample_layout 10 boot_heap = Some (h', p)"
    using kmalloc_cases [OF heap_ok_boot] by simp
  then show ?thesis
    using kfree_reclaims_nothing [OF heap_ok_boot f(2,1)] by blast
qed

end
