(* ===== verification/Process.thy ===== *)
theory Process
  imports Vga Memory
begin

text \<open>
  The data of the process manager: the process control block of \<open>kernel/proc/process.h\<close>, the
  kernel state (the globals and function statics of \<open>kernel/proc/process.c\<close> together with the
  screen, the heap and the tick counter it uses), the output helpers every later theory prints
  with, and the operations that only touch the process table.
  A \<open>process_t *\<close> is a \<open>pcb_ref option\<close>: all control blocks are elements of the two static
  arrays inside \<open>process_create\<close> and \<open>process_create_test\<close>.
\<close>

section \<open>process.h\<close>

text \<open>
  The enumerations have one extra constructor for a value that is none of the enumerators: the
  variables are plain machine words, and the code has \<open>default\<close> branches for them.
\<close>

datatype process_state =
    PROCESS_READY | PROCESS_RUNNING | PROCESS_BLOCKED | PROCESS_TERMINATED
  | PROCESS_STATE_OTHER u32

datatype process_priority = PRIORITY_HIGH | PRIORITY_NORMAL | PRIORITY_LOW | PRIORITY_OTHER u32

record cpu_state =
  r_eax :: u32
  r_ebx :: u32
  r_ecx :: u32
  r_edx :: u32
  r_esi :: u32
  r_edi :: u32
  r_esp :: u32
  r_ebp :: u32
  r_eip :: u32
  r_eflags :: u32
  r_cs :: u32
  r_ds :: u32
  r_es :: u32
  r_fs :: u32
  r_gs :: u32
  r_ss :: u32

text \<open>Element \<open>i\<close> of \<open>static_processes\<close> in \<open>process_create\<close>, in \<open>process_create_test\<close>.\<close>

datatype pcb_ref = Create_pcb nat | Test_pcb nat

record process =
  p_pid :: u32
  p_parent_pid :: u32
  p_name :: "u8 list"
  p_state :: process_state
  p_priority :: process_priority
  p_exit_code :: int
  p_cpu_state :: cpu_state
  p_page_directory :: u32
  p_stack_base :: u32
  p_stack_size :: u32
  p_heap_base :: u32
  p_heap_size :: u32
  p_memory_used :: u32
  p_time_slice :: u32
  p_total_runtime :: u32
  p_sleep_until :: u32
  p_file_descriptors :: "u32 list"
  p_parent :: "pcb_ref option"
  p_children :: "pcb_ref option"
  p_next_child :: "pcb_ref option"
  p_next :: "pcb_ref option"
  p_prev :: "pcb_ref option"

definition MAX_PROCESSES :: u32 where "MAX_PROCESSES = 256"
definition DEFAULT_TIME_SLICE :: u32 where "DEFAULT_TIME_SLICE = 10"
definition STACK_SIZE :: u32 where "STACK_SIZE = 4096"

definition PROCESS_SUCCESS :: int where "PROCESS_SUCCESS = 1"
definition PROCESS_NOT_FOUND :: int where "PROCESS_NOT_FOUND = 0"
definition PROCESS_PROTECTED :: int where "PROCESS_PROTECTED = -1"
definition PROCESS_ERROR :: int where "PROCESS_ERROR = -2"

lemmas process_consts [simp] = MAX_PROCESSES_def DEFAULT_TIME_SLICE_def STACK_SIZE_def

lemmas return_codes = PROCESS_SUCCESS_def PROCESS_NOT_FOUND_def PROCESS_PROTECTED_def PROCESS_ERROR_def

text \<open>An all-zero control block: what the static arrays hold at boot and \<open>memset\<close> restores.\<close>

definition zero_cpu :: cpu_state where
  "zero_cpu = \<lparr>r_eax = 0, r_ebx = 0, r_ecx = 0, r_edx = 0, r_esi = 0, r_edi = 0, r_esp = 0, r_ebp = 0,
     r_eip = 0, r_eflags = 0, r_cs = 0, r_ds = 0, r_es = 0, r_fs = 0, r_gs = 0, r_ss = 0\<rparr>"

definition zero_process :: process where
  "zero_process = \<lparr>p_pid = 0, p_parent_pid = 0, p_name = replicate 64 0, p_state = PROCESS_READY,
     p_priority = PRIORITY_HIGH, p_exit_code = 0, p_cpu_state = zero_cpu, p_page_directory = 0,
     p_stack_base = 0, p_stack_size = 0, p_heap_base = 0, p_heap_size = 0, p_memory_used = 0,
     p_time_slice = 0, p_total_runtime = 0, p_sleep_until = 0, p_file_descriptors = replicate 16 0,
     p_parent = None, p_children = None, p_next_child = None, p_next = None, p_prev = None\<rparr>"

section \<open>The kernel state\<close>

record kstate =
  vga :: vga_state
  heap :: heap_state
  process_table :: "u32 \<Rightarrow> pcb_ref option"
  next_pid :: u32
  ready_queue_head :: "pcb_ref option"
  ready_queue_tail :: "pcb_ref option"
  current_process :: "pcb_ref option"
  kernel_process :: "pcb_ref option"
  pcb :: "pcb_ref \<Rightarrow> process"
  create_count :: nat
  test_count :: nat
  timer_ticks :: u32

text \<open>\<open>p->field = ...\<close> through a pointer: the update \<open>f\<close> of the block \<open>r\<close>.\<close>

definition upd_pcb :: "pcb_ref \<Rightarrow> (process \<Rightarrow> process) \<Rightarrow> kstate \<Rightarrow> kstate" where
  "upd_pcb r f k = k\<lparr>pcb := (pcb k)(r := f (pcb k r))\<rparr>"

definition set_table :: "u32 \<Rightarrow> pcb_ref option \<Rightarrow> kstate \<Rightarrow> kstate" where
  "set_table i p k = k\<lparr>process_table := (process_table k)(i := p)\<rparr>"

section \<open>Output\<close>

definition kputs :: "string \<Rightarrow> kstate \<Rightarrow> kstate" where
  "kputs s k = k\<lparr>vga := vga_puts s (vga k)\<rparr>"

definition kputchar :: "u8 \<Rightarrow> kstate \<Rightarrow> kstate" where
  "kputchar c k = k\<lparr>vga := vga_putchar c (vga k)\<rparr>"

definition kprint_hex :: "u32 \<Rightarrow> kstate \<Rightarrow> kstate" where
  "kprint_hex w k = k\<lparr>vga := vga_print_hex w (vga k)\<rparr>"

definition kset_color :: "u8 \<Rightarrow> u8 \<Rightarrow> kstate \<Rightarrow> kstate" where
  "kset_color f b k = k\<lparr>vga := vga_set_color f b (vga k)\<rparr>"

text \<open>\<open>vga_print\<close> of a buffer that need not be terminated.\<close>

definition kprint :: "u8 list \<Rightarrow> kstate \<Rightarrow> kstate option" where
  "kprint buf k = map_option (\<lambda>v. k\<lparr>vga := v\<rparr>) (vga_print buf (vga k))"

text \<open>\<open>'0' + n\<close> passed as a \<open>char\<close>, and the one or two digits the listings print.\<close>

definition kput_digit :: "u32 \<Rightarrow> kstate \<Rightarrow> kstate" where
  "kput_digit n = kputchar (ucast (48 + n))"

definition kput_dec2 :: "u32 \<Rightarrow> kstate \<Rightarrow> kstate" where
  "kput_dec2 n k = (if n < 10 then kput_digit n k else kput_digit (n mod 10) (kput_digit (n div 10) k))"

text \<open>Output changes the screen only.\<close>

lemma kputs_fields [simp]:
  "heap (kputs s k) = heap k"
  "process_table (kputs s k) = process_table k"
  "next_pid (kputs s k) = next_pid k"
  "ready_queue_head (kputs s k) = ready_queue_head k"
  "ready_queue_tail (kputs s k) = ready_queue_tail k"
  "current_process (kputs s k) = current_process k"
  "kernel_process (kputs s k) = kernel_process k"
  "pcb (kputs s k) = pcb k"
  "create_count (kputs s k) = create_count k"
  "test_count (kputs s k) = test_count k"
  "timer_ticks (kputs s k) = timer_ticks k"
  by (simp_all add: kputs_def)

lemma kputchar_fields [simp]:
  "heap (kputchar c k) = heap k"
  "process_table (kputchar c k) = process_table k"
  "next_pid (kputchar c k) = next_pid k"
  "ready_queue_head (kputchar c k) = ready_queue_head k"
  "ready_queue_tail (kputchar c k) = ready_queue_tail k"
  "current_process (kputchar c k) = current_process k"
  "kernel_process (kputchar c k) = kernel_process k"
  "pcb (kputchar c k) = pcb k"
  "create_count (kputchar c k) = create_count k"
  "test_count (kputchar c k) = test_count k"
  "timer_ticks (kputchar c k) = timer_ticks k"
  by (simp_all add: kputchar_def)

lemma kprint_hex_fields [simp]:
  "heap (kprint_hex w k) = heap k"
  "process_table (kprint_hex w k) = process_table k"
  "next_pid (kprint_hex w k) = next_pid k"
  "ready_queue_head (kprint_hex w k) = ready_queue_head k"
  "ready_queue_tail (kprint_hex w k) = ready_queue_tail k"
  "current_process (kprint_hex w k) = current_process k"
  "kernel_process (kprint_hex w k) = kernel_process k"
  "pcb (kprint_hex w k) = pcb k"
  "create_count (kprint_hex w k) = create_count k"
  "test_count (kprint_hex w k) = test_count k"
  "timer_ticks (kprint_hex w k) = timer_ticks k"
  by (simp_all add: kprint_hex_def)

lemma kset_color_fields [simp]:
  "heap (kset_color f b k) = heap k"
  "process_table (kset_color f b k) = process_table k"
  "next_pid (kset_color f b k) = next_pid k"
  "ready_queue_head (kset_color f b k) = ready_queue_head k"
  "ready_queue_tail (kset_color f b k) = ready_queue_tail k"
  "current_process (kset_color f b k) = current_process k"
  "kernel_process (kset_color f b k) = kernel_process k"
  "pcb (kset_color f b k) = pcb k"
  "create_count (kset_color f b k) = create_count k"
  "test_count (kset_color f b k) = test_count k"
  "timer_ticks (kset_color f b k) = timer_ticks k"
  by (simp_all add: kset_color_def)

lemma kput_digit_fields [simp]:
  "heap (kput_digit n k) = heap k"
  "process_table (kput_digit n k) = process_table k"
  "next_pid (kput_digit n k) = next_pid k"
  "ready_queue_head (kput_digit n k) = ready_queue_head k"
  "ready_queue_tail (kput_digit n k) = ready_queue_tail k"
  "current_process (kput_digit n k) = current_process k"
  "kernel_process (kput_digit n k) = kernel_process k"
  "pcb (kput_digit n k) = pcb k"
  "create_count (kput_digit n k) = create_count k"
  "test_count (kput_digit n k) = test_count k"
  "timer_ticks (kput_digit n k) = timer_ticks k"
  by (simp_all add: kput_digit_def)

lemma kput_dec2_fields [simp]:
  "heap (kput_dec2 n k) = heap k"
  "process_table (kput_dec2 n k) = process_table k"
  "next_pid (kput_dec2 n k) = next_pid k"
  "ready_queue_head (kput_dec2 n k) = ready_queue_head k"
  "ready_queue_tail (kput_dec2 n k) = ready_queue_tail k"
  "current_process (kput_dec2 n k) = current_process k"
  "kernel_process (kput_dec2 n k) = kernel_process k"
  "pcb (kput_dec2 n k) = pcb k"
  "create_count (kput_dec2 n k) = create_count k"
  "test_count (kput_dec2 n k) = test_count k"
  "timer_ticks (kput_dec2 n k) = timer_ticks k"
  by (simp_all add: kput_dec2_def)

lemma upd_pcb_fields [simp]:
  "heap (upd_pcb r f k) = heap k"
  "process_table (upd_pcb r f k) = process_table k"
  "next_pid (upd_pcb r f k) = next_pid k"
  "ready_queue_head (upd_pcb r f k) = ready_queue_head k"
  "ready_queue_tail (upd_pcb r f k) = ready_queue_tail k"
  "current_process (upd_pcb r f k) = current_process k"
  "kernel_process (upd_pcb r f k) = kernel_process k"
  "create_count (upd_pcb r f k) = create_count k"
  "test_count (upd_pcb r f k) = test_count k"
  "timer_ticks (upd_pcb r f k) = timer_ticks k"
  "vga (upd_pcb r f k) = vga k"
  "pcb (upd_pcb r f k) = (pcb k)(r := f (pcb k r))"
  by (simp_all add: upd_pcb_def)

lemma set_table_fields [simp]:
  "heap (set_table i p k) = heap k"
  "next_pid (set_table i p k) = next_pid k"
  "ready_queue_head (set_table i p k) = ready_queue_head k"
  "ready_queue_tail (set_table i p k) = ready_queue_tail k"
  "current_process (set_table i p k) = current_process k"
  "kernel_process (set_table i p k) = kernel_process k"
  "pcb (set_table i p k) = pcb k"
  "create_count (set_table i p k) = create_count k"
  "test_count (set_table i p k) = test_count k"
  "timer_ticks (set_table i p k) = timer_ticks k"
  "vga (set_table i p k) = vga k"
  "process_table (set_table i p k) = (process_table k)(i := p)"
  by (simp_all add: set_table_def)

text \<open>
  Two states that differ in the screen only; every output operation relates its result to its
  argument by it.
\<close>

definition same_core :: "kstate \<Rightarrow> kstate \<Rightarrow> bool" where
  "same_core k k' \<longleftrightarrow>
     heap k = heap k' \<and>
     process_table k = process_table k' \<and>
     next_pid k = next_pid k' \<and>
     ready_queue_head k = ready_queue_head k' \<and>
     ready_queue_tail k = ready_queue_tail k' \<and>
     current_process k = current_process k' \<and>
     kernel_process k = kernel_process k' \<and>
     pcb k = pcb k' \<and>
     create_count k = create_count k' \<and>
     test_count k = test_count k' \<and>
     timer_ticks k = timer_ticks k'"

lemma same_core_refl [simp]: "same_core k k"
  by (simp add: same_core_def)

lemma same_core_trans [trans]: "same_core k k' \<Longrightarrow> same_core k' k'' \<Longrightarrow> same_core k k''"
  by (simp add: same_core_def)

lemma kprint_terminated:
  "terminated buf \<Longrightarrow> \<exists>k'. kprint buf k = Some k' \<and> same_core k' k"
  by (simp add: kprint_def vga_print_fold same_core_def)

lemma kprint_same_core: "kprint buf k = Some k' \<Longrightarrow> same_core k' k"
  by (auto simp: kprint_def same_core_def)

section \<open>Operations on the process table\<close>

definition process_init :: "kstate \<Rightarrow> kstate" where
  "process_init k =
     (let k = kputs ''  Initializing process table...\<newline>'' k;
          k = for_loop 0 256 (\<lambda>i. set_table (of_nat i) None) k;
          k = kputs ''  Process table initialized...\<newline>'' k;
          k = k\<lparr>current_process := None, kernel_process := None, next_pid := 1,
                ready_queue_head := None, ready_queue_tail := None\<rparr>
      in kputs ''  Process management ready\<newline>'' k)"

definition process_allocate_pid :: "kstate \<Rightarrow> u32 \<times> kstate" where
  "process_allocate_pid k =
     (if next_pid k < MAX_PROCESSES \<and> process_table k (next_pid k) = None
      then (let pid = next_pid k in (pid, k\<lparr>next_pid := next_pid k + 1\<rparr>))
      else (case find (\<lambda>pid. process_table k (of_nat pid) = None) [1..<256] of
              Some pid \<Rightarrow> (of_nat pid, k\<lparr>next_pid := of_nat pid + 1\<rparr>)
            | None \<Rightarrow> (0, k)))"

definition process_find_by_pid :: "u32 \<Rightarrow> kstate \<Rightarrow> pcb_ref option" where
  "process_find_by_pid pid k = (if pid \<ge> MAX_PROCESSES then None else process_table k pid)"

definition process_set_status :: "u32 \<Rightarrow> process_state \<Rightarrow> kstate \<Rightarrow> int \<times> kstate" where
  "process_set_status pid status k =
     (case process_find_by_pid pid k of
        None \<Rightarrow> (0, k)
      | Some process \<Rightarrow>
          if status \<noteq> PROCESS_READY \<and> status \<noteq> PROCESS_BLOCKED \<and> status \<noteq> PROCESS_TERMINATED
          then (0, k)
          else (1, upd_pcb process (\<lambda>p. p\<lparr>p_state := status\<rparr>) k))"

text \<open>\<open>process_exit\<close> ignores its argument and never leaves the caller.\<close>

definition process_exit :: "int \<Rightarrow> kstate \<Rightarrow> kstate" where
  "process_exit exit_code k =
     (case current_process k of
        None \<Rightarrow> k
      | Some c \<Rightarrow> if current_process k \<noteq> kernel_process k
                  then upd_pcb c (\<lambda>p. p\<lparr>p_state := PROCESS_TERMINATED\<rparr>) k else k)"

end
