(* ===== verification/Ready_Queue.thy ===== *)
theory Ready_Queue
  imports Process
begin

text \<open>
  The ready queue of \<open>kernel/proc/process.c\<close>: a doubly linked list threaded through the control
  blocks (\<open>add_to_ready_queue\<close>, \<open>remove_from_ready_queue\<close>, \<open>scheduler_init\<close>,
  \<open>scheduler_get_next\<close>). The assignments are modelled one by one, so a block that is its own
  neighbour is handled as the code does. \<open>queue_rep k xs\<close> says that the links form exactly the
  list \<open>xs\<close>; the locale \<open>fifo_queue\<close> is the contract of a queue with removal, and the two
  operations are shown to satisfy it.
\<close>

section \<open>Operations\<close>

definition scheduler_init :: "kstate \<Rightarrow> kstate" where
  "scheduler_init k =
     (let k = kputs ''  Initializing scheduler...\<newline>'' k;
          k = k\<lparr>ready_queue_head := None, ready_queue_tail := None\<rparr>
      in kputs ''  Scheduler ready\<newline>'' k)"

definition add_to_ready_queue :: "pcb_ref option \<Rightarrow> kstate \<Rightarrow> kstate" where
  "add_to_ready_queue process k =
     (case process of
        None \<Rightarrow> k
      | Some r \<Rightarrow>
          if p_state (pcb k r) \<noteq> PROCESS_READY then k
          else
            (let k = upd_pcb r (\<lambda>p. p\<lparr>p_next := None\<rparr>) k;
                 k = upd_pcb r (\<lambda>p. p\<lparr>p_prev := ready_queue_tail k\<rparr>) k;
                 k = (case ready_queue_tail k of
                        Some t \<Rightarrow> upd_pcb t (\<lambda>p. p\<lparr>p_next := Some r\<rparr>) k
                      | None \<Rightarrow> k\<lparr>ready_queue_head := Some r\<rparr>)
             in k\<lparr>ready_queue_tail := Some r\<rparr>))"

definition remove_from_ready_queue :: "pcb_ref option \<Rightarrow> kstate \<Rightarrow> kstate" where
  "remove_from_ready_queue process k =
     (case process of
        None \<Rightarrow> k
      | Some r \<Rightarrow>
          (let k = (case p_prev (pcb k r) of
                      Some q \<Rightarrow> upd_pcb q (\<lambda>p. p\<lparr>p_next := p_next (pcb k r)\<rparr>) k
                    | None \<Rightarrow> k\<lparr>ready_queue_head := p_next (pcb k r)\<rparr>);
               k = (case p_next (pcb k r) of
                      Some q \<Rightarrow> upd_pcb q (\<lambda>p. p\<lparr>p_prev := p_prev (pcb k r)\<rparr>) k
                    | None \<Rightarrow> k\<lparr>ready_queue_tail := p_prev (pcb k r)\<rparr>);
               k = upd_pcb r (\<lambda>p. p\<lparr>p_next := None\<rparr>) k
           in upd_pcb r (\<lambda>p. p\<lparr>p_prev := None\<rparr>) k))"

definition scheduler_get_next :: "kstate \<Rightarrow> pcb_ref option" where
  "scheduler_get_next k = ready_queue_head k"

definition scheduler_get_current :: "kstate \<Rightarrow> pcb_ref option" where
  "scheduler_get_current k = current_process k"

section \<open>Doubly linked segments\<close>

text \<open>
  \<open>dll h p f xs l n\<close>: from first pointer \<open>f\<close> the next links of \<open>h\<close> run through \<open>xs\<close> to \<open>n\<close>, the
  previous links run back to \<open>p\<close>, and \<open>l\<close> is the last element (\<open>p\<close> for the empty segment).
\<close>

fun dll :: "(pcb_ref \<Rightarrow> process) \<Rightarrow> pcb_ref option \<Rightarrow> pcb_ref option \<Rightarrow> pcb_ref list \<Rightarrow>
    pcb_ref option \<Rightarrow> pcb_ref option \<Rightarrow> bool" where
  "dll h p f [] l n \<longleftrightarrow> f = n \<and> l = p"
| "dll h p f (x # xs) l n \<longleftrightarrow> f = Some x \<and> p_prev (h x) = p \<and> dll h (Some x) (p_next (h x)) xs l n"

definition queue_rep :: "kstate \<Rightarrow> pcb_ref list \<Rightarrow> bool" where
  "queue_rep k xs \<longleftrightarrow> dll (pcb k) None (ready_queue_head k) xs (ready_queue_tail k) None \<and> distinct xs"

text \<open>A block that is in no list.\<close>

definition unlinked :: "kstate \<Rightarrow> pcb_ref \<Rightarrow> bool" where
  "unlinked k r \<longleftrightarrow> p_next (pcb k r) = None \<and> p_prev (pcb k r) = None"

lemma dll_append:
  "dll h p f (xs @ ys) l n \<longleftrightarrow> (\<exists>m f'. dll h p f xs m f' \<and> dll h m f' ys l n)"
  by (induction xs arbitrary: p f) auto

lemma dll_cong:
  "(\<And>x. x \<in> set xs \<Longrightarrow> p_next (h' x) = p_next (h x) \<and> p_prev (h' x) = p_prev (h x)) \<Longrightarrow>
   dll h' p f xs l n = dll h p f xs l n"
  by (induction xs arbitrary: p f) auto

lemma dll_last: "dll h p f xs l n \<Longrightarrow> l = (if xs = [] then p else Some (last xs))"
  by (induction xs arbitrary: p f) auto

lemma dll_first: "dll h p f xs l n \<Longrightarrow> f = (if xs = [] then n else Some (hd xs))"
  by (cases xs) auto

lemma dll_unique: "dll h p f xs l None \<Longrightarrow> dll h p f ys l' None \<Longrightarrow> xs = ys"
proof (induction xs arbitrary: p f ys)
  case (Cons x xs)
  then show ?case by (cases ys) auto
qed (auto elim: dll.elims)

lemma dll_set_next:
  assumes "dll h p f (xs @ [t]) l n" and "t \<notin> set xs"
  shows "dll (h(t := (h t)\<lparr>p_next := n'\<rparr>)) p f (xs @ [t]) l n'"
proof -
  have "dll (h(t := (h t)\<lparr>p_next := n'\<rparr>)) p f xs m f' = dll h p f xs m f'" for m f'
    using assms(2) by (intro dll_cong) auto
  with assms(1) show ?thesis by (auto simp: dll_append)
qed

lemma dll_set_prev:
  assumes "dll h p f (x # xs) l n" and "x \<notin> set xs"
  shows "dll (h(x := (h x)\<lparr>p_prev := p'\<rparr>)) p' f (x # xs) l n"
proof -
  have "dll (h(x := (h x)\<lparr>p_prev := p'\<rparr>)) q g xs l n = dll h q g xs l n" for q g
    using assms(2) by (intro dll_cong) auto
  with assms(1) show ?thesis by auto
qed

lemma dll_upd_other [simp]: "r \<notin> set xs \<Longrightarrow> dll (h(r := v)) p f xs l n = dll h p f xs l n"
  by (intro dll_cong) auto

lemma queue_rep_Nil: "queue_rep k [] \<longleftrightarrow> ready_queue_head k = None \<and> ready_queue_tail k = None"
  by (auto simp: queue_rep_def)

lemma queue_rep_head: "queue_rep k xs \<Longrightarrow> ready_queue_head k = (if xs = [] then None else Some (hd xs))"
  using dll_first by (fastforce simp: queue_rep_def)

lemma queue_rep_tail: "queue_rep k xs \<Longrightarrow> ready_queue_tail k = (if xs = [] then None else Some (last xs))"
  using dll_last by (fastforce simp: queue_rep_def)

lemma queue_rep_distinct: "queue_rep k xs \<Longrightarrow> distinct xs"
  by (simp add: queue_rep_def)

lemma queue_rep_unique: "queue_rep k xs \<Longrightarrow> queue_rep k ys \<Longrightarrow> xs = ys"
  using dll_unique by (auto simp: queue_rep_def)

lemma queue_rep_cong:
  "ready_queue_head k' = ready_queue_head k \<Longrightarrow> ready_queue_tail k' = ready_queue_tail k \<Longrightarrow>
   (\<And>x. x \<in> set xs \<Longrightarrow> p_next (pcb k' x) = p_next (pcb k x) \<and> p_prev (pcb k' x) = p_prev (pcb k x)) \<Longrightarrow>
   queue_rep k' xs = queue_rep k xs"
  using dll_cong [of xs "pcb k'" "pcb k"] by (simp add: queue_rep_def)

lemma queue_rep_same_core: "same_core k' k \<Longrightarrow> queue_rep k' xs = queue_rep k xs"
  by (rule queue_rep_cong) (auto simp: same_core_def)

section \<open>Adding\<close>

lemma add_to_ready_queue_rep:
  assumes q: "queue_rep k xs" and r: "r \<notin> set xs" and s: "p_state (pcb k r) = PROCESS_READY"
  shows "queue_rep (add_to_ready_queue (Some r) k) (xs @ [r])"
proof (cases xs rule: rev_cases)
  case Nil
  then show ?thesis
    using q s by (simp add: queue_rep_def add_to_ready_queue_def Let_def)
next
  case (snoc ys t)
  then have d: "dll (pcb k) None (ready_queue_head k) (ys @ [t]) (Some t) None"
    and t: "ready_queue_tail k = Some t" "t \<notin> set ys" "t \<noteq> r" "r \<notin> set ys" "distinct ys"
    using q r queue_rep_tail [OF q] by (auto simp: queue_rep_def)
  let ?h = "(pcb k)(t := (pcb k t)\<lparr>p_next := Some r\<rparr>)"
  have "dll ?h None (ready_queue_head k) (ys @ [t]) (Some t) (Some r)"
    by (rule dll_set_next [OF d t(2)])
  then have "dll (?h(r := (pcb k r)\<lparr>p_next := None, p_prev := Some t\<rparr>)) None (ready_queue_head k)
      (ys @ [t]) (Some t) (Some r)"
    using t by (subst dll_upd_other) auto
  then show ?thesis
    using t s snoc unfolding queue_rep_def
    by (simp add: add_to_ready_queue_def Let_def dll_append fun_upd_twist)
qed

text \<open>The links of everything else, and all other fields, survive an insertion.\<close>

lemma add_to_ready_queue_fields [simp]:
  "vga (add_to_ready_queue p k) = vga k" "heap (add_to_ready_queue p k) = heap k"
  "process_table (add_to_ready_queue p k) = process_table k"
  "next_pid (add_to_ready_queue p k) = next_pid k"
  "current_process (add_to_ready_queue p k) = current_process k"
  "kernel_process (add_to_ready_queue p k) = kernel_process k"
  "create_count (add_to_ready_queue p k) = create_count k"
  "test_count (add_to_ready_queue p k) = test_count k"
  "timer_ticks (add_to_ready_queue p k) = timer_ticks k"
  by (simp_all add: add_to_ready_queue_def Let_def split: option.splits)

text \<open>The part of a control block that is not its queue links.\<close>

definition unlink :: "process \<Rightarrow> process" where
  "unlink p = p\<lparr>p_next := None, p_prev := None\<rparr>"

lemma unlink_update [simp]:
  "unlink (p\<lparr>p_next := a\<rparr>) = unlink p" "unlink (p\<lparr>p_prev := a\<rparr>) = unlink p"
  by (simp_all add: unlink_def)

lemma unlink_eqD:
  "unlink p = unlink q \<Longrightarrow> p_pid p = p_pid q \<and> p_parent_pid p = p_parent_pid q \<and> p_name p = p_name q \<and>
   p_state p = p_state q \<and> p_priority p = p_priority q \<and> p_exit_code p = p_exit_code q \<and>
   p_cpu_state p = p_cpu_state q \<and> p_stack_base p = p_stack_base q \<and> p_stack_size p = p_stack_size q \<and>
   p_file_descriptors p = p_file_descriptors q"
  by (cases p; cases q) (simp add: unlink_def)

lemma add_to_ready_queue_unlink [simp]: "unlink (pcb (add_to_ready_queue p k) r) = unlink (pcb k r)"
  by (simp add: add_to_ready_queue_def Let_def split: option.splits)

lemma remove_from_ready_queue_unlink [simp]:
  "unlink (pcb (remove_from_ready_queue p k) r) = unlink (pcb k r)"
  by (simp add: remove_from_ready_queue_def Let_def split: option.splits)

lemma queue_ops_state [simp]:
  "p_state (pcb (add_to_ready_queue p k) r) = p_state (pcb k r)"
  "p_state (pcb (remove_from_ready_queue p k) r) = p_state (pcb k r)"
  using unlink_eqD [OF add_to_ready_queue_unlink] unlink_eqD [OF remove_from_ready_queue_unlink]
  by simp_all

lemma queue_ops_pid [simp]:
  "p_pid (pcb (add_to_ready_queue p k) r) = p_pid (pcb k r)"
  "p_pid (pcb (remove_from_ready_queue p k) r) = p_pid (pcb k r)"
  using unlink_eqD [OF add_to_ready_queue_unlink] unlink_eqD [OF remove_from_ready_queue_unlink]
  by simp_all

lemma remove_from_ready_queue_fields [simp]:
  "vga (remove_from_ready_queue p k) = vga k" "heap (remove_from_ready_queue p k) = heap k"
  "process_table (remove_from_ready_queue p k) = process_table k"
  "next_pid (remove_from_ready_queue p k) = next_pid k"
  "current_process (remove_from_ready_queue p k) = current_process k"
  "kernel_process (remove_from_ready_queue p k) = kernel_process k"
  "create_count (remove_from_ready_queue p k) = create_count k"
  "test_count (remove_from_ready_queue p k) = test_count k"
  "timer_ticks (remove_from_ready_queue p k) = timer_ticks k"
  by (simp_all add: remove_from_ready_queue_def Let_def split: option.splits)

section \<open>Removing\<close>

text \<open>Writing the next link of the block before the gap, and the previous link of the one after it.\<close>

definition link_next ::
  "pcb_ref option \<Rightarrow> pcb_ref option \<Rightarrow> (pcb_ref \<Rightarrow> process) \<Rightarrow> (pcb_ref \<Rightarrow> process)" where
  "link_next q n h = (case q of None \<Rightarrow> h | Some y \<Rightarrow> h(y := (h y)\<lparr>p_next := n\<rparr>))"

definition link_prev ::
  "pcb_ref option \<Rightarrow> pcb_ref option \<Rightarrow> (pcb_ref \<Rightarrow> process) \<Rightarrow> (pcb_ref \<Rightarrow> process)" where
  "link_prev q m h = (case q of None \<Rightarrow> h | Some y \<Rightarrow> h(y := (h y)\<lparr>p_prev := m\<rparr>))"

lemma link_next_simps [simp]:
  "link_next None n h = h" "link_next (Some y) n h = h(y := (h y)\<lparr>p_next := n\<rparr>)"
  by (simp_all add: link_next_def)

lemma link_prev_simps [simp]:
  "link_prev None n h = h" "link_prev (Some y) n h = h(y := (h y)\<lparr>p_prev := n\<rparr>)"
  by (simp_all add: link_prev_def)

lemma dll_link_other:
  "q \<notin> Some ` set xs \<Longrightarrow> dll (link_next q a h) p f xs l g = dll h p f xs l g"
  "q \<notin> Some ` set xs \<Longrightarrow> dll (link_prev q a h) p f xs l g = dll h p f xs l g"
  by (cases q; simp add: image_iff)+

lemma dll_link_next:
  assumes "dll h None f ys m g" and "distinct ys"
  shows "dll (link_next m n h) None (if m = None then n else f) ys m n"
proof (cases ys rule: rev_cases)
  case (snoc ys' y)
  with assms show ?thesis using dll_last [OF assms(1)] dll_set_next by simp
qed (use assms in simp)

lemma dll_link_prev:
  assumes "dll h p f zs l None" and "distinct zs"
  shows "dll (link_prev f m h) m f zs (if f = None then m else l) None"
proof (cases zs)
  case (Cons z zs')
  with assms have "f = Some z" "z \<notin> set zs'" by auto
  with assms Cons dll_set_prev [of h p f z zs' l None m] show ?thesis by simp
qed (use assms in simp)

text \<open>What removal does to a block that is not its own neighbour.\<close>

lemma remove_from_ready_queue_links:
  assumes "p_prev (pcb k r) = m" and "p_next (pcb k r) = n" and "m \<noteq> Some r" and "n \<noteq> Some r"
  shows "pcb (remove_from_ready_queue (Some r) k) =
           (link_prev n m (link_next m n (pcb k)))(r := (pcb k r)\<lparr>p_next := None, p_prev := None\<rparr>)"
    and "ready_queue_head (remove_from_ready_queue (Some r) k) = (if m = None then n else ready_queue_head k)"
    and "ready_queue_tail (remove_from_ready_queue (Some r) k) = (if n = None then m else ready_queue_tail k)"
  using assms by (cases m; cases n; simp add: remove_from_ready_queue_def Let_def)+

lemma remove_from_ready_queue_rep:
  assumes q: "queue_rep k xs" and r: "r \<in> set xs"
  shows "queue_rep (remove_from_ready_queue (Some r) k) (remove1 r xs)"
proof -
  obtain ys zs where xs: "xs = ys @ r # zs" "r \<notin> set ys"
    using r by (meson split_list_first)
  have d: "distinct (ys @ r # zs)" using q xs by (simp add: queue_rep_def)
  obtain m f where ys: "dll (pcb k) None (ready_queue_head k) ys m f"
    and rz: "dll (pcb k) m f (r # zs) (ready_queue_tail k) None"
    using q xs by (auto simp: queue_rep_def dll_append)
  define n where "n = p_next (pcb k r)"
  have p: "p_prev (pcb k r) = m" and zs: "dll (pcb k) (Some r) n zs (ready_queue_tail k) None"
    using rz by (auto simp: n_def)
  have m: "m = (if ys = [] then None else Some (last ys))"
    and n: "n = (if zs = [] then None else Some (hd zs))"
    using dll_last [OF ys] dll_first [OF zs] by auto
  have out: "m \<notin> Some ` set zs" "n \<notin> Some ` set ys"
    using d m n by (auto split: if_splits simp: disjoint_iff)
  have "dll (link_next m n (pcb k)) None (if m = None then n else ready_queue_head k) ys m n"
    using ys d by (intro dll_link_next) auto
  then have "dll (link_prev n m (link_next m n (pcb k))) None (if m = None then n else ready_queue_head k) ys m n"
    using out(2) by (simp only: dll_link_other(2) not_False_eq_True)
  moreover have "dll (link_next m n (pcb k)) (Some r) n zs (ready_queue_tail k) None"
    using zs out by (simp add: dll_link_other)
  then have "dll (link_prev n m (link_next m n (pcb k))) m n zs (if n = None then m else ready_queue_tail k) None"
    using d by (intro dll_link_prev) auto
  ultimately have "dll (link_prev n m (link_next m n (pcb k))) None (if m = None then n else ready_queue_head k)
      (ys @ zs) (if n = None then m else ready_queue_tail k) None"
    unfolding dll_append by blast
  moreover have "m \<noteq> Some r" "n \<noteq> Some r"
    using d m n by auto
  ultimately show ?thesis
    using d xs remove_from_ready_queue_links [OF p n_def [symmetric]]
    by (auto simp: queue_rep_def remove1_append)
qed

section \<open>The queue contract\<close>

locale fifo_queue =
  fixes enq :: "'p \<Rightarrow> 's \<Rightarrow> 's"
    and remove :: "'p \<Rightarrow> 's \<Rightarrow> 's"
    and rep :: "'s \<Rightarrow> 'p list \<Rightarrow> bool"
    and ready :: "'s \<Rightarrow> 'p \<Rightarrow> bool"
  assumes rep_distinct: "rep s xs \<Longrightarrow> distinct xs"
    and rep_unique: "rep s xs \<Longrightarrow> rep s ys \<Longrightarrow> xs = ys"
    and enq_rep: "rep s xs \<Longrightarrow> ready s p \<Longrightarrow> p \<notin> set xs \<Longrightarrow> rep (enq p s) (xs @ [p])"
    and remove_rep: "rep s xs \<Longrightarrow> p \<in> set xs \<Longrightarrow> rep (remove p s) (remove1 p xs)"
    and enq_ready: "ready (enq p s) q = ready s q"
    and remove_ready: "ready (remove p s) q = ready s q"
begin

lemma deq_rep: "rep s (x # xs) \<Longrightarrow> rep (remove x s) xs"
  using remove_rep [of s "x # xs" x] by simp

lemma enq_all_rep:
  "rep s xs \<Longrightarrow> list_all (ready s) ps \<Longrightarrow> distinct (xs @ ps) \<Longrightarrow> rep (fold enq ps s) (xs @ ps)"
proof (induction ps arbitrary: s xs)
  case (Cons p ps)
  then have "rep (enq p s) (xs @ [p])" by (intro enq_rep) auto
  moreover have "list_all (ready (enq p s)) ps"
    using Cons.prems(2) by (simp add: enq_ready [abs_def])
  ultimately show ?case using Cons.IH [of "enq p s" "xs @ [p]"] Cons.prems(3) by simp
qed simp

lemma drain_rep: "rep s (xs @ ys) \<Longrightarrow> rep (fold remove xs s) ys"
  by (induction xs arbitrary: s) (auto dest: deq_rep)

lemma rotate_rep: "rep s xs \<Longrightarrow> p \<in> set xs \<Longrightarrow> ready s p \<Longrightarrow> rep (enq p (remove p s)) (remove1 p xs @ [p])"
  using rep_distinct [of s xs] by (intro enq_rep remove_rep) (auto simp: remove_ready)

end

definition is_ready :: "kstate \<Rightarrow> pcb_ref \<Rightarrow> bool" where
  "is_ready k r \<longleftrightarrow> p_state (pcb k r) = PROCESS_READY"

interpretation rq: fifo_queue "\<lambda>r. add_to_ready_queue (Some r)" "\<lambda>r. remove_from_ready_queue (Some r)"
  queue_rep is_ready
  by unfold_locales
     (auto simp: is_ready_def add_to_ready_queue_rep remove_from_ready_queue_rep
       queue_rep_distinct dest: queue_rep_unique)

section \<open>Removing a block that is not in the queue\<close>

text \<open>
  A block outside the queue has no neighbours, so the code takes it for the only element:
  both ends of the queue become \<open>NULL\<close>.
\<close>

lemma remove_unlinked:
  assumes "unlinked k r"
  shows "remove_from_ready_queue (Some r) k = k\<lparr>ready_queue_head := None, ready_queue_tail := None\<rparr>"
proof -
  have e: "(pcb k)(r := pcb k r\<lparr>p_next := None, p_prev := None\<rparr>) = pcb k"
    using assms by (intro fun_upd_idem, cases "pcb k r") (simp add: unlinked_def)
  show ?thesis
    using assms by (intro kstate.equality)
      (simp_all add: remove_from_ready_queue_def unlinked_def Let_def e)
qed

section \<open>Properties\<close>

text \<open>A kernel state at boot: zeroed memory, screen cleared, nothing created.\<close>

definition zero_kstate :: kstate where
  "zero_kstate = \<lparr>vga = boot_vga, heap = boot_heap, process_table = (\<lambda>_. None), next_pid = 1,
     ready_queue_head = None, ready_queue_tail = None, current_process = None, kernel_process = None,
     pcb = (\<lambda>_. zero_process), create_count = 0, test_count = 0, timer_ticks = 0\<rparr>"

lemma zero_kstate_queue: "queue_rep zero_kstate []"
  by (simp add: queue_rep_Nil zero_kstate_def)

lemma remove_from_ready_queue_unlinked [simp]: "unlinked (remove_from_ready_queue (Some r) k) r"
  by (simp add: unlinked_def remove_from_ready_queue_def Let_def)

lemma zero_kstate_ready: "is_ready zero_kstate r"
  by (simp add: is_ready_def zero_kstate_def zero_process_def)

text \<open>
  \<open>add_to_ready_queue\<close> of a READY block that is not in the queue appends it: the doubly
  linked list for \<open>xs\<close> becomes the one for \<open>xs @ [r]\<close>, and no control block changes in
  anything but its queue links.
\<close>

theorem add_to_ready_queue_correct:
  assumes "queue_rep k xs" and "is_ready k r" and "r \<notin> set xs"
  shows "queue_rep (add_to_ready_queue (Some r) k) (xs @ [r]) \<and>
         unlink \<circ> pcb (add_to_ready_queue (Some r) k) = unlink \<circ> pcb k"
  using rq.enq_rep [OF assms] by (simp add: fun_eq_iff)

theorem add_to_ready_queue_correct_witness:
  "queue_rep (add_to_ready_queue (Some (Test_pcb 1)) zero_kstate) ([] @ [Test_pcb 1])"
  using add_to_ready_queue_correct [OF zero_kstate_queue zero_kstate_ready, of "Test_pcb 1"] by simp

text \<open>
  C11. \<open>remove_from_ready_queue\<close> of a queued block, wherever it stands, unlinks exactly that block
  and keeps the order of the others; the removed block ends with no neighbours.
\<close>

theorem remove_from_ready_queue_correct:
  assumes "queue_rep k xs" and "r \<in> set xs"
  shows "queue_rep (remove_from_ready_queue (Some r) k) (remove1 r xs) \<and>
         unlinked (remove_from_ready_queue (Some r) k) r \<and>
         unlink \<circ> pcb (remove_from_ready_queue (Some r) k) = unlink \<circ> pcb k"
  using rq.remove_rep [OF assms] remove_from_ready_queue_unlinked by (simp add: fun_eq_iff)

theorem remove_from_ready_queue_correct_witness:
  "queue_rep (remove_from_ready_queue (Some (Test_pcb 1))
     (fold (\<lambda>r. add_to_ready_queue (Some r)) [Test_pcb 0, Test_pcb 1, Test_pcb 2] zero_kstate))
     [Test_pcb 0, Test_pcb 2]"
proof -
  have "queue_rep (fold (\<lambda>r. add_to_ready_queue (Some r)) [Test_pcb 0, Test_pcb 1, Test_pcb 2] zero_kstate)
      [Test_pcb 0, Test_pcb 1, Test_pcb 2]"
    using rq.enq_all_rep [OF zero_kstate_queue, of "[Test_pcb 0, Test_pcb 1, Test_pcb 2]"]
    by (simp add: zero_kstate_ready)
  from remove_from_ready_queue_correct [OF this, of "Test_pcb 1"] show ?thesis by simp
qed

text \<open>
  C24. First in, first out: adding any list of distinct READY blocks to an empty queue and
  removing them from the head in the same order leaves the rest in order, down to the empty
  queue.
\<close>

theorem ready_queue_fifo:
  assumes "queue_rep k []" and "list_all (is_ready k) (xs @ ys)" and "distinct (xs @ ys)"
  shows "queue_rep (fold (\<lambda>r. remove_from_ready_queue (Some r)) xs
           (fold (\<lambda>r. add_to_ready_queue (Some r)) (xs @ ys) k)) ys"
  using rq.enq_all_rep [OF assms(1,2)] assms(3) by (intro rq.drain_rep) simp

theorem ready_queue_fifo_witness:
  "queue_rep (fold (\<lambda>r. remove_from_ready_queue (Some r)) [Test_pcb 3]
     (fold (\<lambda>r. add_to_ready_queue (Some r)) ([Test_pcb 3] @ [Test_pcb 1]) zero_kstate)) [Test_pcb 1]"
  by (rule ready_queue_fifo [OF zero_kstate_queue]) (simp_all add: zero_kstate_ready)

end
