(* ===== verification/Scheduler.thy ===== *)
theory Scheduler
  imports Ready_Queue
begin

text \<open>
  The scheduler of \<open>kernel/proc/process.c\<close> (\<open>schedule\<close>, \<open>scheduler_tick\<close>) and the timer
  interrupt of \<open>kernel/drivers/timer.c\<close> that calls it. \<open>schedule\<close> runs up to the call of
  \<open>context_switch\<close> or \<open>switch_to_process\<close> (\<open>arch/context_switch.asm\<close>): the call is the second
  component of its result, and \<open>schedule_resumed\<close> is what is left to run should that call return.
  \<open>round_robin\<close> is the intended policy on lists; the code implements it as long as the running
  process is in the queue, and the theorems say what it does otherwise.
\<close>

section \<open>Operations\<close>

text \<open>The call of an assembly routine that ends an execution of \<open>schedule\<close>.\<close>

datatype switch_call =
    No_switch
  | Idle_switch "pcb_ref option" "pcb_ref option"
  | Context_switch pcb_ref pcb_ref
  | Switch_to_process pcb_ref

text \<open>The preemption of the current process: READY again, and moved to the end of the queue.\<close>

definition preempt_current :: "kstate \<Rightarrow> kstate" where
  "preempt_current k =
     (case current_process k of
        None \<Rightarrow> k
      | Some c \<Rightarrow>
          if p_state (pcb k c) = PROCESS_RUNNING
          then (let k = upd_pcb c (\<lambda>p. p\<lparr>p_state := PROCESS_READY\<rparr>) k
                in if Some c \<noteq> ready_queue_tail k
                   then add_to_ready_queue (Some c) (remove_from_ready_queue (Some c) k)
                   else k)
          else k)"

definition schedule :: "kstate \<Rightarrow> kstate \<times> switch_call" where
  "schedule k =
     (case ready_queue_head k of
        None \<Rightarrow>
          (if current_process k \<noteq> kernel_process k
           then (k, Idle_switch (current_process k) (kernel_process k))
           else (k, No_switch))
      | Some next_process \<Rightarrow>
          (let k = preempt_current k
           in if Some next_process = current_process k then (k, No_switch)
              else
                (let k = remove_from_ready_queue (Some next_process) k;
                     k = upd_pcb next_process (\<lambda>p. p\<lparr>p_state := PROCESS_RUNNING\<rparr>) k;
                     old_process = current_process k;
                     k = k\<lparr>current_process := Some next_process\<rparr>
                 in (k, case old_process of
                          Some c \<Rightarrow> Context_switch c next_process
                        | None \<Rightarrow> Switch_to_process next_process))))"

text \<open>The statement after the call: only the idle branch has one.\<close>

definition schedule_resumed :: "switch_call \<Rightarrow> kstate \<Rightarrow> kstate" where
  "schedule_resumed call k =
     (case call of
        Idle_switch _ _ \<Rightarrow> k\<lparr>current_process := kernel_process k\<rparr>
      | _ \<Rightarrow> k)"

definition scheduler_tick :: "kstate \<Rightarrow> kstate \<times> switch_call" where
  "scheduler_tick k = schedule k"

definition timer_handler :: "kstate \<Rightarrow> kstate \<times> switch_call" where
  "timer_handler k = scheduler_tick (k\<lparr>timer_ticks := timer_ticks k + 1\<rparr>)"

definition timer_get_ticks :: "kstate \<Rightarrow> u32" where
  "timer_get_ticks k = timer_ticks k"

text \<open>
  \<open>timer_sleep\<close> polls \<open>timer_ticks\<close>, which only the interrupt changes: \<open>reads\<close> are the values
  the successive evaluations of the loop condition see. The result is the number of iterations,
  \<open>None\<close> if the condition still holds after the last of them.
\<close>

fun timer_wait :: "u32 \<Rightarrow> u32 list \<Rightarrow> nat option" where
  "timer_wait limit [] = None"
| "timer_wait limit (now # later) = (if now < limit then map_option Suc (timer_wait limit later) else Some 0)"

definition timer_sleep :: "u32 \<Rightarrow> u32 \<Rightarrow> u32 list \<Rightarrow> nat option" where
  "timer_sleep ticks start_ticks reads = timer_wait (start_ticks + ticks) reads"

section \<open>The policy\<close>

text \<open>
  Round robin on the list of waiting processes, the current process and the states: a running
  current process goes to the end of the queue, then the process that was first takes over.
\<close>

definition rr_preempt ::
  "pcb_ref list \<times> pcb_ref option \<times> (pcb_ref \<Rightarrow> process_state) \<Rightarrow>
   pcb_ref list \<times> pcb_ref option \<times> (pcb_ref \<Rightarrow> process_state)" where
  "rr_preempt = (\<lambda>(q, cur, st).
     case cur of
       Some c \<Rightarrow> if st c = PROCESS_RUNNING then (remove1 c q @ [c], cur, st(c := PROCESS_READY)) else (q, cur, st)
     | None \<Rightarrow> (q, cur, st))"

definition round_robin ::
  "pcb_ref list \<times> pcb_ref option \<times> (pcb_ref \<Rightarrow> process_state) \<Rightarrow>
   pcb_ref list \<times> pcb_ref option \<times> (pcb_ref \<Rightarrow> process_state)" where
  "round_robin s =
     (case fst s of
        [] \<Rightarrow> s
      | n # _ \<Rightarrow>
          (let (q, cur, st) = rr_preempt s
           in if cur = Some n then (q, cur, st) else (remove1 n q, Some n, st(n := PROCESS_RUNNING))))"

definition states :: "kstate \<Rightarrow> pcb_ref \<Rightarrow> process_state" where
  "states k r = p_state (pcb k r)"

text \<open>The relation between a kernel state and a state of the policy.\<close>

definition sched_rel :: "kstate \<Rightarrow> pcb_ref list \<times> pcb_ref option \<times> (pcb_ref \<Rightarrow> process_state) \<Rightarrow> bool" where
  "sched_rel k s \<longleftrightarrow> queue_rep k (fst s) \<and> current_process k = fst (snd s) \<and> states k = snd (snd s)"

section \<open>Preemption\<close>

lemma queue_rep_set_state [simp]:
  "queue_rep (upd_pcb r (\<lambda>p. p\<lparr>p_state := s\<rparr>) k) xs = queue_rep k xs"
  by (rule queue_rep_cong) simp_all

lemma queue_rep_current [simp]: "queue_rep (k\<lparr>current_process := c\<rparr>) xs = queue_rep k xs"
  by (rule queue_rep_cong) simp_all

lemma states_simps [simp]:
  "states (upd_pcb r (\<lambda>p. p\<lparr>p_state := s\<rparr>) k) = (states k)(r := s)"
  "states (k\<lparr>current_process := c\<rparr>) = states k"
  "states (add_to_ready_queue p k) = states k"
  "states (remove_from_ready_queue p k) = states k"
  by (auto simp: states_def)

lemma rotate_last: "distinct xs \<Longrightarrow> xs \<noteq> [] \<Longrightarrow> remove1 (last xs) xs @ [last xs] = xs"
  by (induction xs rule: rev_induct) (auto simp: remove1_append)

lemma preempt_current_running:
  assumes "current_process k = Some c" and "p_state (pcb k c) = PROCESS_RUNNING"
  shows "preempt_current k =
    (if ready_queue_tail k = Some c then upd_pcb c (\<lambda>p. p\<lparr>p_state := PROCESS_READY\<rparr>) k
     else add_to_ready_queue (Some c)
            (remove_from_ready_queue (Some c) (upd_pcb c (\<lambda>p. p\<lparr>p_state := PROCESS_READY\<rparr>) k)))"
  using assms by (simp add: preempt_current_def Let_def)

lemma preempt_current_refines:
  assumes "sched_rel k (q, cur, st)"
    and "\<And>c. cur = Some c \<Longrightarrow> st c = PROCESS_RUNNING \<Longrightarrow> c \<in> set q"
  shows "sched_rel (preempt_current k) (rr_preempt (q, cur, st))"
proof (cases "\<exists>c. cur = Some c \<and> st c = PROCESS_RUNNING")
  case True
  then obtain c where c: "cur = Some c" "st c = PROCESS_RUNNING" by blast
  with assms have q: "queue_rep k q" "c \<in> set q" and k: "current_process k = Some c" "states k = st"
    by (auto simp: sched_rel_def)
  let ?k = "upd_pcb c (\<lambda>p. p\<lparr>p_state := PROCESS_READY\<rparr>) k"
  have "queue_rep (preempt_current k) (remove1 c q @ [c])"
  proof (cases "Some c = ready_queue_tail k")
    case True
    then have "last q = c" "q \<noteq> []" using queue_rep_tail [OF q(1)] by (auto split: if_splits)
    then have "remove1 c q @ [c] = q" using rotate_last queue_rep_distinct [OF q(1)] by blast
    then show ?thesis
      using True [symmetric] k c q by (subst preempt_current_running [of k c]) (auto simp: states_def)
  next
    case False
    have "queue_rep (add_to_ready_queue (Some c) (remove_from_ready_queue (Some c) ?k)) (remove1 c q @ [c])"
      using q by (intro rq.rotate_rep) (simp_all add: is_ready_def)
    then show ?thesis
      using False k c by (subst preempt_current_running [of k c]) (auto simp: states_def)
  qed
  moreover have "states (preempt_current k) = st(c := PROCESS_READY)" "current_process (preempt_current k) = cur"
    using c k by (auto simp: preempt_current_def Let_def states_def [of k])
  ultimately show ?thesis using c by (simp add: sched_rel_def rr_preempt_def)
next
  case False
  then have "preempt_current k = k" "rr_preempt (q, cur, st) = (q, cur, st)"
    using assms(1) by (auto simp: preempt_current_def rr_preempt_def sched_rel_def states_def split: option.splits)
  then show ?thesis using assms(1) by simp
qed

lemma preempt_current_idle:
  "current_process k = None \<Longrightarrow> preempt_current k = k"
  "current_process k = Some c \<Longrightarrow> p_state (pcb k c) \<noteq> PROCESS_RUNNING \<Longrightarrow> preempt_current k = k"
  by (simp_all add: preempt_current_def)

lemma preempt_current_fields [simp]:
  "vga (preempt_current k) = vga k" "heap (preempt_current k) = heap k"
  "process_table (preempt_current k) = process_table k"
  "next_pid (preempt_current k) = next_pid k"
  "current_process (preempt_current k) = current_process k"
  "kernel_process (preempt_current k) = kernel_process k"
  "create_count (preempt_current k) = create_count k"
  "test_count (preempt_current k) = test_count k"
  "timer_ticks (preempt_current k) = timer_ticks k"
  by (simp_all add: preempt_current_def Let_def split: option.splits)

lemma round_robin_mem:
  assumes "rr_preempt (n # xs, cur, st) = (q, c, s)" and "cur \<noteq> Some n"
  shows "n \<in> set q" and "c = cur"
  using assms by (auto simp: rr_preempt_def split: option.splits if_splits)

section \<open>The scheduler implements the policy\<close>

lemma schedule_refines:
  assumes rel: "sched_rel k (q, cur, st)"
    and running: "\<And>c. cur = Some c \<Longrightarrow> st c = PROCESS_RUNNING \<Longrightarrow> q = [] \<or> c \<in> set q"
  shows "sched_rel (fst (schedule k)) (round_robin (q, cur, st))"
proof (cases q)
  case Nil
  with rel have "ready_queue_head k = None" by (auto simp: sched_rel_def dest: queue_rep_head)
  then have "fst (schedule k) = k" by (simp add: schedule_def)
  with rel Nil show ?thesis by (simp add: round_robin_def)
next
  case (Cons n xs)
  have head: "ready_queue_head k = Some n" and k: "current_process k = cur"
    using rel Cons by (auto simp: sched_rel_def dest: queue_rep_head)
  obtain q' st' where p: "rr_preempt (q, cur, st) = (q', cur, st')"
    by (cases "rr_preempt (q, cur, st)") (auto simp: rr_preempt_def split: option.splits if_splits)
  have "sched_rel (preempt_current k) (q', cur, st')"
    using preempt_current_refines [OF rel] running Cons p by fastforce
  then have q': "queue_rep (preempt_current k) q'" and st': "states (preempt_current k) = st'"
    by (auto simp: sched_rel_def)
  show ?thesis
  proof (cases "cur = Some n")
    case True
    then show ?thesis using head k p q' st' Cons
      by (simp add: schedule_def round_robin_def sched_rel_def Let_def)
  next
    case False
    then have "n \<in> set q'" using round_robin_mem(1) [of n xs cur st q' cur st'] p Cons by simp
    then have "queue_rep (remove_from_ready_queue (Some n) (preempt_current k)) (remove1 n q')"
      using q' remove_from_ready_queue_rep by blast
    then show ?thesis using head k p st' False Cons
      by (simp add: schedule_def round_robin_def sched_rel_def Let_def)
  qed
qed

text \<open>Which assembly routine the code calls.\<close>

lemma schedule_call:
  "snd (schedule k) =
     (case ready_queue_head k of
        None \<Rightarrow> if current_process k = kernel_process k then No_switch
               else Idle_switch (current_process k) (kernel_process k)
      | Some n \<Rightarrow> (case current_process k of
                    None \<Rightarrow> Switch_to_process n
                  | Some c \<Rightarrow> if c = n then No_switch else Context_switch c n))"
  by (auto simp: schedule_def Let_def split: option.splits)

text \<open>\<open>schedule\<close> leaves everything outside the queue, the states and the current process alone.\<close>

lemma schedule_fields [simp]:
  "vga (fst (schedule k)) = vga k" "heap (fst (schedule k)) = heap k"
  "process_table (fst (schedule k)) = process_table k"
  "next_pid (fst (schedule k)) = next_pid k"
  "kernel_process (fst (schedule k)) = kernel_process k"
  "create_count (fst (schedule k)) = create_count k"
  "test_count (fst (schedule k)) = test_count k"
  "timer_ticks (fst (schedule k)) = timer_ticks k"
  by (simp_all add: schedule_def Let_def split: option.splits)

section \<open>A running process outside the queue\<close>

text \<open>
  Following the next links from a pointer. \<open>schedule\<close> itself takes the process it starts out of
  the queue, so at the next tick the running process is not in it. The code then removes it
  before adding it again; removal of a block without neighbours empties the queue, the
  insertion starts a new one-element queue, and the removal of the process to run makes the
  head point into the old list: the preempted process is READY and no longer reachable.
\<close>

fun next_path :: "(pcb_ref \<Rightarrow> process) \<Rightarrow> pcb_ref option \<Rightarrow> pcb_ref list \<Rightarrow> bool" where
  "next_path h f [] \<longleftrightarrow> f = None"
| "next_path h f (x # xs) \<longleftrightarrow> f = Some x \<and> next_path h (p_next (h x)) xs"

lemma dll_next_path: "dll h p f xs l None \<Longrightarrow> next_path h f xs"
  by (induction xs arbitrary: p f) auto

lemma next_path_unique: "next_path h f xs \<Longrightarrow> next_path h f ys \<Longrightarrow> xs = ys"
proof (induction xs arbitrary: f ys)
  case (Cons x xs)
  then show ?case by (cases ys) auto
qed (case_tac ys; simp)

lemma next_path_cong: "(\<And>x. x \<in> set xs \<Longrightarrow> p_next (h x) = p_next (h' x)) \<Longrightarrow> next_path h f xs = next_path h' f xs"
  by (induction xs arbitrary: f) auto

lemma unlinked_set_state [simp]:
  "unlinked (upd_pcb c (\<lambda>p. p\<lparr>p_state := s\<rparr>) k) r = unlinked k r"
  by (simp add: unlinked_def)

text \<open>Preempting a running block outside a non-empty queue.\<close>

lemma preempt_unlinked:
  assumes "current_process k = Some c" and "p_state (pcb k c) = PROCESS_RUNNING"
    and "unlinked k c" and "ready_queue_tail k \<noteq> Some c"
  shows "preempt_current k =
    (upd_pcb c (\<lambda>p. p\<lparr>p_state := PROCESS_READY\<rparr>) k)\<lparr>ready_queue_head := Some c, ready_queue_tail := Some c\<rparr>"
proof -
  have "pcb k c\<lparr>p_state := s, p_next := None, p_prev := None\<rparr> = pcb k c\<lparr>p_state := s\<rparr>" for s
    using assms(3) by (cases "pcb k c") (simp add: unlinked_def)
  then show ?thesis
    using assms(3,4) by (subst preempt_current_running [OF assms(1,2)])
      (auto simp: remove_unlinked add_to_ready_queue_def Let_def intro!: kstate.equality)
qed

lemma schedule_unlinked_state:
  assumes q: "queue_rep k (n # xs)"
    and c: "current_process k = Some c" "p_state (pcb k c) = PROCESS_RUNNING" "unlinked k c" "c \<notin> set (n # xs)"
  shows "ready_queue_head (fst (schedule k)) = (if xs = [] then None else Some (hd xs))"
    and "ready_queue_tail (fst (schedule k)) = (if xs = [] then None else Some c)"
    and "next_path (pcb (fst (schedule k))) (ready_queue_head (fst (schedule k))) xs"
    and "p_state (pcb (fst (schedule k)) c) = PROCESS_READY"
    and "unlinked (fst (schedule k)) c"
    and "p_state (pcb (fst (schedule k)) n) = PROCESS_RUNNING"
    and "current_process (fst (schedule k)) = Some n"
proof -
  have tail: "ready_queue_tail k \<noteq> Some c" and head: "ready_queue_head k = Some n"
    using queue_rep_tail [OF q] queue_rep_head [OF q] c(4) by auto
  have n: "p_prev (pcb k n) = None" "next_path (pcb k) (p_next (pcb k n)) xs" "n \<noteq> c" "n \<notin> set xs"
    using q c(4) dll_next_path by (auto simp: queue_rep_def)
  have nx: "p_next (pcb k n) = (if xs = [] then None else Some (hd xs))"
    using n(2) by (cases xs) auto
  note s = schedule_def head c(1) preempt_unlinked [OF c(1-3) tail] Let_def n(1,3) n(3) [symmetric]
  have p: "next_path (pcb k) (if xs = [] then None else Some (hd xs)) xs"
    using n(2) nx by simp
  show "ready_queue_head (fst (schedule k)) = (if xs = [] then None else Some (hd xs))"
    "ready_queue_tail (fst (schedule k)) = (if xs = [] then None else Some c)"
    using c(4) by (auto simp: s nx remove_from_ready_queue_def)
  then show "next_path (pcb (fst (schedule k))) (ready_queue_head (fst (schedule k))) xs"
    using p n(4) c(4)
    by (subst next_path_cong [where h' = "pcb k"]) (auto simp: s nx remove_from_ready_queue_def)
  show "p_state (pcb (fst (schedule k)) c) = PROCESS_READY"
    "p_state (pcb (fst (schedule k)) n) = PROCESS_RUNNING"
    "current_process (fst (schedule k)) = Some n"
    using n(3) by (auto simp: s)
  show "unlinked (fst (schedule k)) c"
    using c(3,4) n(3) by (cases xs) (auto simp: s nx remove_from_ready_queue_def unlinked_def)
qed

section \<open>Sleeping\<close>

lemma timer_wait_below:
  "(\<And>r. r \<in> set early \<Longrightarrow> r < limit) \<Longrightarrow> \<not> now < limit \<Longrightarrow>
   timer_wait limit (early @ now # later) = Some (length early)"
  by (induction early) auto

lemma upt_split: "d < m \<Longrightarrow> [0..<m] = [0..<d] @ d # [Suc d..<m]"
  using upt_add_eq_append [of 0 d "m - d"] by (simp add: upt_conv_Cons)

lemma timer_sleep_counts:
  assumes "unat start + unat ticks < 4294967296" and "unat ticks < m"
  shows "timer_sleep ticks start (map (\<lambda>i. start + of_nat i) [0..<m]) = Some (unat ticks)"
proof -
  have below: "start + of_nat i < start + ticks" if "i < unat ticks" for i
    using that assms(1) unat_plus_u32 [of start "of_nat i"] unat_plus_u32 [of start ticks]
    by (simp add: word_less_nat_alt)
  have "timer_wait (start + ticks) (map (\<lambda>i. start + of_nat i) [0..<unat ticks] @ (start + ticks) # later) =
      Some (unat ticks)" for later
    using below by (subst timer_wait_below) auto
  then show ?thesis
    unfolding timer_sleep_def upt_split [OF assms(2)] by simp
qed

lemma timer_sleep_wrapped:
  assumes "unat start + unat ticks \<ge> 4294967296"
  shows "timer_sleep ticks start (start # later) = Some 0"
proof -
  have "(unat start + unat ticks) mod 4294967296 = unat start + unat ticks - 4294967296"
    using assms unat_lt_u32 [of ticks] unat_lt_u32 [of start] by (subst le_mod_geq) simp_all
  then have "unat (start + ticks) \<le> unat start"
    using unat_lt_u32 [of ticks] by (simp add: unat_word_ariths)
  then have "\<not> start < start + ticks"
    by (simp only: word_less_nat_alt not_less)
  then show ?thesis by (simp add: timer_sleep_def)
qed

section \<open>Properties\<close>

definition two_ready :: kstate where
  "two_ready = fold (\<lambda>r. add_to_ready_queue (Some r)) [Test_pcb 2, Test_pcb 3] zero_kstate"

lemma two_ready_queue: "queue_rep two_ready [Test_pcb 2, Test_pcb 3]"
  using rq.enq_all_rep [OF zero_kstate_queue, of "[Test_pcb 2, Test_pcb 3]"]
  by (simp add: two_ready_def zero_kstate_ready)

lemma two_ready_current: "current_process two_ready = None"
  by (simp add: two_ready_def zero_kstate_def)

definition three_ready :: kstate where
  "three_ready = fold (\<lambda>r. add_to_ready_queue (Some r)) [Test_pcb 2, Test_pcb 3, Test_pcb 4] zero_kstate"

lemma three_ready_queue: "queue_rep three_ready [Test_pcb 2, Test_pcb 3, Test_pcb 4]"
  using rq.enq_all_rep [OF zero_kstate_queue, of "[Test_pcb 2, Test_pcb 3, Test_pcb 4]"]
  by (simp add: three_ready_def zero_kstate_ready)

lemma three_ready_current: "current_process three_ready = None"
  by (simp add: three_ready_def zero_kstate_def)

definition middle_running :: kstate where
  "middle_running = (upd_pcb (Test_pcb 3) (\<lambda>p. p\<lparr>p_state := PROCESS_RUNNING\<rparr>) three_ready)
     \<lparr>current_process := Some (Test_pcb 3)\<rparr>"

text \<open>
  C2. As long as a running current process is in the queue (or the queue is empty), \<open>schedule\<close> is
  one step of round robin: the doubly linked queue, the current process and all states end as
  the policy says, and the assembly routine it calls is the one for the new and the old process.
\<close>

theorem schedule_round_robin:
  assumes "sched_rel k (q, cur, st)"
    and "\<And>c. cur = Some c \<Longrightarrow> st c = PROCESS_RUNNING \<Longrightarrow> q = [] \<or> c \<in> set q"
  shows "sched_rel (fst (schedule k)) (round_robin (q, cur, st)) \<and>
         snd (schedule k) =
           (case q of
              [] \<Rightarrow> if cur = kernel_process k then No_switch else Idle_switch cur (kernel_process k)
            | n # _ \<Rightarrow> (case cur of
                         None \<Rightarrow> Switch_to_process n
                       | Some c \<Rightarrow> if c = n then No_switch else Context_switch c n))"
proof -
  have "ready_queue_head k = (if q = [] then None else Some (hd q))" "current_process k = cur"
    using assms(1) queue_rep_head by (auto simp: sched_rel_def)
  then show ?thesis
    using schedule_refines [OF assms] by (cases q) (simp_all add: schedule_call split: option.splits)
qed

text \<open>
  From a state without a current process, and from one whose running current process waits in the
  middle of the queue: it goes to the end and the first is switched to.
\<close>

theorem schedule_round_robin_witness:
  "sched_rel (fst (schedule two_ready))
     ([Test_pcb 3], Some (Test_pcb 2), (states two_ready)(Test_pcb 2 := PROCESS_RUNNING)) \<and>
   sched_rel (fst (schedule middle_running))
     ([Test_pcb 4, Test_pcb 3], Some (Test_pcb 2),
      (states three_ready)(Test_pcb 3 := PROCESS_READY, Test_pcb 2 := PROCESS_RUNNING)) \<and>
   snd (schedule middle_running) = Context_switch (Test_pcb 3) (Test_pcb 2)"
proof -
  have "sched_rel two_ready ([Test_pcb 2, Test_pcb 3], None, states two_ready)"
    by (simp add: sched_rel_def two_ready_queue two_ready_current)
  note two = schedule_round_robin [OF this]
  have "sched_rel middle_running ([Test_pcb 2, Test_pcb 3, Test_pcb 4], Some (Test_pcb 3),
      (states three_ready)(Test_pcb 3 := PROCESS_RUNNING))"
    by (simp add: sched_rel_def middle_running_def three_ready_queue)
  note middle = schedule_round_robin [OF this]
  show ?thesis using two middle by (simp add: round_robin_def rr_preempt_def)
qed

text \<open>
  C34. A process that \<open>schedule\<close> started is not in the queue, and the next \<open>schedule\<close> with a
  non-empty queue loses it: it ends READY without neighbours, the list from the head is the old
  queue without its first element and does not contain it. When more than one process waited, the
  tail points to the lost process, so the queue represents no list any more; when only one did, it is
  empty and well formed.
\<close>

theorem schedule_loses_running:
  assumes "queue_rep k (n # xs)" and "current_process k = Some c"
    and "p_state (pcb k c) = PROCESS_RUNNING" and "unlinked k c" and "c \<notin> set (n # xs)"
  shows "p_state (pcb (fst (schedule k)) c) = PROCESS_READY \<and>
         unlinked (fst (schedule k)) c \<and>
         current_process (fst (schedule k)) = Some n \<and>
         next_path (pcb (fst (schedule k))) (ready_queue_head (fst (schedule k))) xs \<and>
         c \<notin> set xs \<and>
         ready_queue_tail (fst (schedule k)) = (if xs = [] then None else Some c) \<and>
         (if xs = [] then queue_rep (fst (schedule k)) [] else \<forall>ys. \<not> queue_rep (fst (schedule k)) ys)"
proof -
  note s = schedule_unlinked_state [OF assms(1-3) assms(4,5)]
  have "\<not> queue_rep (fst (schedule k)) ys" if "xs \<noteq> []" for ys
  proof
    assume y: "queue_rep (fst (schedule k)) ys"
    then have "ys = xs" using s(3) next_path_unique dll_next_path unfolding queue_rep_def by blast
    with y that have "ready_queue_tail (fst (schedule k)) = Some (last xs)" using queue_rep_tail by auto
    with s(2) that assms(5) show False by (auto split: if_splits)
  qed
  moreover have "queue_rep (fst (schedule k)) []" if "xs = []"
    using s that by (simp add: queue_rep_Nil)
  ultimately show ?thesis using s assms(5) by auto
qed

text \<open>The first tick starts one process of three, the second one loses it and spoils the queue.\<close>

definition ticked_once :: kstate where
  "ticked_once = fst (schedule three_ready)"

theorem schedule_loses_running_witness:
  "p_state (pcb (fst (schedule ticked_once)) (Test_pcb 2)) = PROCESS_READY \<and>
   ready_queue_tail (fst (schedule ticked_once)) = Some (Test_pcb 2) \<and>
   (\<forall>ys. \<not> queue_rep (fst (schedule ticked_once)) ys)"
proof -
  have rel: "sched_rel ticked_once ([Test_pcb 3, Test_pcb 4], Some (Test_pcb 2), (states three_ready)(Test_pcb 2 := PROCESS_RUNNING))"
    using schedule_refines [of three_ready "[Test_pcb 2, Test_pcb 3, Test_pcb 4]" None "states three_ready"]
    by (simp add: ticked_once_def sched_rel_def three_ready_queue three_ready_current round_robin_def rr_preempt_def)
  then have "queue_rep ticked_once [Test_pcb 3, Test_pcb 4]" "current_process ticked_once = Some (Test_pcb 2)"
    "states ticked_once (Test_pcb 2) = PROCESS_RUNNING"
    by (simp_all add: sched_rel_def)
  moreover have "unlinked ticked_once (Test_pcb 2)"
    using three_ready_current queue_rep_head [OF three_ready_queue]
      remove_from_ready_queue_unlinked [of "Test_pcb 2" three_ready]
    by (simp add: ticked_once_def schedule_def preempt_current_idle unlinked_def)
  ultimately show ?thesis
    using schedule_loses_running [of ticked_once "Test_pcb 3" "[Test_pcb 4]" "Test_pcb 2"] by (simp add: states_def)
qed

text \<open>
  \<open>timer_sleep(n)\<close>, polling a counter that advances by one, returns after exactly n ticks
  when the deadline does not wrap; when it does, the sleep returns at once.
\<close>

theorem timer_sleep_duration:
  assumes "unat ticks < m"
  shows "timer_sleep ticks start (map (\<lambda>i. start + of_nat i) [0..<m]) =
           Some (if unat start + unat ticks < 4294967296 then unat ticks else 0)"
proof (cases "unat start + unat ticks < 4294967296")
  case True
  then show ?thesis using timer_sleep_counts assms by simp
next
  case False
  moreover have "[0..<m] = 0 # [1..<m]" using assms by (simp add: upt_conv_Cons)
  ultimately show ?thesis using timer_sleep_wrapped by simp
qed

theorem timer_sleep_duration_witness:
  "timer_sleep 3 10 (map (\<lambda>i. 10 + of_nat i) [0..<5]) = Some 3 \<and>
   timer_sleep 3 4294967294 (map (\<lambda>i. 4294967294 + of_nat i) [0..<5]) = Some 0"
  using timer_sleep_duration [of 3 5 10] timer_sleep_duration [of 3 5 4294967294] by simp

end
