(* ===== verification/Process_Ops.thy ===== *)
theory Process_Ops
  imports Scheduler
begin

text \<open>
  Creation, destruction, listing and killing of processes in \<open>kernel/proc/process.c\<close>.
  \<open>process_create\<close> and \<open>process_create_test\<close> hand out the control blocks of their static arrays
  in order, one with a \<open>kmalloc\<close>ed stack, one with a static stack. A result \<open>None\<close> is an access
  outside the memory of the model (a name without terminator, a \<open>kfree\<close> of a foreign address).
\<close>

section \<open>Creation\<close>

text \<open>\<open>for (i = 0; i < 63 && name && name[i] != '\0'; i++) process->name[i] = name[i];\<close>\<close>

fun copy_name :: "nat \<Rightarrow> u8 list \<Rightarrow> u8 list \<Rightarrow> (u8 list \<times> nat) option" where
  "copy_name i name dest =
     (if i < 63
      then (case name of
              [] \<Rightarrow> None
            | c # cs \<Rightarrow> if c \<noteq> 0 then copy_name (i + 1) cs (dest[i := c]) else Some (dest, i))
      else Some (dest, i))"

declare copy_name.simps [simp del]

definition pcb_header :: "nat \<Rightarrow> process_priority \<Rightarrow> process \<Rightarrow> process" where
  "pcb_header process_count priority p =
     p\<lparr>p_pid := of_nat process_count + 1, p_parent_pid := 0, p_priority := priority, p_state := PROCESS_READY\<rparr>"

definition pcb_cpu :: "u32 \<Rightarrow> u32 \<Rightarrow> process \<Rightarrow> process" where
  "pcb_cpu entry_point stack_top p =
     p\<lparr>p_cpu_state := (p_cpu_state p)\<lparr>r_eip := entry_point, r_esp := stack_top, r_eflags := 0x202,
        r_cs := 0x08, r_ds := 0x10, r_es := 0x10, r_fs := 0x10, r_gs := 0x10, r_ss := 0x10\<rparr>\<rparr>"

definition pcb_memory :: "u32 \<Rightarrow> u32 \<Rightarrow> process \<Rightarrow> process" where
  "pcb_memory stack stack_size p =
     p\<lparr>p_stack_base := stack, p_stack_size := stack_size, p_heap_base := 0, p_heap_size := 0\<rparr>"

definition pcb_links :: "process \<Rightarrow> process" where
  "pcb_links p =
     p\<lparr>p_time_slice := DEFAULT_TIME_SLICE, p_total_runtime := 0, p_sleep_until := 0,
       p_next := None, p_prev := None, p_parent := None, p_children := None, p_next_child := None,
       p_file_descriptors := for_loop 0 16 (\<lambda>j fds. fds[j := 0]) (p_file_descriptors p)\<rparr>"

definition process_create ::
  "layout \<Rightarrow> u8 list option \<Rightarrow> u32 \<Rightarrow> process_priority \<Rightarrow> kstate \<Rightarrow> (pcb_ref option \<times> kstate) option" where
  "process_create L name entry_point priority k =
     (let k = kputs ''DEBUG: process_create called\<newline>'' k
      in case name of
           None \<Rightarrow> Some (None, kputs ''DEBUG: Invalid name parameter\<newline>'' k)
         | Some name \<Rightarrow>
             (let k = kputs ''DEBUG: Checking process count\<newline>'' k
              in if create_count k \<ge> 10 then Some (None, kputs ''DEBUG: Too many processes\<newline>'' k)
                 else
                   (let k = kputs ''DEBUG: Getting process slot\<newline>'' k;
                        process = Create_pcb (create_count k);
                        k = kputs ''DEBUG: Allocating stack\<newline>'' k
                    in do {
                      (h, stack) \<leftarrow> kmalloc L STACK_SIZE (heap k);
                      let k = k\<lparr>heap := h\<rparr>;
                      if stack = 0 then Some (None, kputs ''DEBUG: Stack allocation failed\<newline>'' k)
                      else do {
                        let k = kputs ''DEBUG: Setting basic fields\<newline>'' k;
                        let k = upd_pcb process (pcb_header (create_count k) priority) k;
                        let k = kputs ''DEBUG: Copying name\<newline>'' k;
                        (copied, i) \<leftarrow> copy_name 0 name (p_name (pcb k process));
                        let k = upd_pcb process (\<lambda>p. p\<lparr>p_name := copied\<rparr>) k;
                        let k = kputs ''DEBUG: Name copied\<newline>'' k;
                        let k = kputs ''DEBUG: Setting up CPU state\<newline>'' k;
                        let k = upd_pcb process (pcb_cpu entry_point (stack + STACK_SIZE - 4)) k;
                        let k = kputs ''DEBUG: Setting up memory management\<newline>'' k;
                        let k = upd_pcb process (pcb_memory stack STACK_SIZE) k;
                        let k = kputs ''DEBUG: Setting up scheduling info\<newline>'' k;
                        let k = kputs ''DEBUG: Clearing pointers\<newline>'' k;
                        let k = kputs ''DEBUG: Clearing file descriptors\<newline>'' k;
                        let k = upd_pcb process pcb_links k;
                        let k = kputs ''DEBUG: Adding to process table\<newline>'' k;
                        let k = (if p_pid (pcb k process) < MAX_PROCESSES
                                 then set_table (p_pid (pcb k process)) (Some process) k else k);
                        let k = kputs ''DEBUG: Incrementing process count\<newline>'' k;
                        let k = k\<lparr>create_count := create_count k + 1\<rparr>;
                        let k = kputs ''DEBUG: process_create completed successfully\<newline>'' k;
                        Some (Some process, k)
                      }
                    })))"

definition process_create_test ::
  "layout \<Rightarrow> u8 list option \<Rightarrow> u32 \<Rightarrow> process_priority \<Rightarrow> kstate \<Rightarrow> (pcb_ref option \<times> kstate) option" where
  "process_create_test L name entry_point priority k =
     (let k = kputs ''Creating process without kmalloc...\<newline>'' k
      in if test_count k \<ge> 10 then Some (None, kputs ''ERROR: Too many processes\<newline>'' k)
         else
           (let process = Test_pcb (test_count k);
                stack = stacks_addr L + 4096 * of_nat (test_count k);
                k = kputs ''Initializing process data...\<newline>'' k;
                k = upd_pcb process (pcb_header (test_count k) priority) k
            in do {
              (copied, i) \<leftarrow> (case name of
                                None \<Rightarrow> Some (p_name (pcb k process), 0)
                              | Some name \<Rightarrow> copy_name 0 name (p_name (pcb k process)));
              let k = upd_pcb process (\<lambda>p. p\<lparr>p_name := copied[i := 0]\<rparr>) k;
              let k = kputs ''Setting up CPU state...\<newline>'' k;
              let k = upd_pcb process (pcb_cpu entry_point (stack + 4096 - 4)) k;
              let k = upd_pcb process (pcb_memory stack 4096) k;
              let k = upd_pcb process pcb_links k;
              let k = (if p_pid (pcb k process) < MAX_PROCESSES
                       then set_table (p_pid (pcb k process)) (Some process) k else k);
              let k = k\<lparr>test_count := test_count k + 1\<rparr>;
              let k = kputs ''Process created successfully with static memory!\<newline>'' k;
              Some (Some process, k)
            }))"

definition process_create_copy :: "layout \<Rightarrow> pcb_ref option \<Rightarrow> kstate \<Rightarrow> (pcb_ref option \<times> kstate) option" where
  "process_create_copy L parent k =
     (case parent of
        None \<Rightarrow> Some (None, k)
      | Some parent \<Rightarrow>
          do {
            (child, k) \<leftarrow> process_create_test L (Some (p_name (pcb k parent)))
                            (r_eip (p_cpu_state (pcb k parent))) (p_priority (pcb k parent)) k;
            (case child of
               None \<Rightarrow> Some (None, k)
             | Some child \<Rightarrow>
                 (let k = upd_pcb child (\<lambda>p. p\<lparr>p_cpu_state := p_cpu_state (pcb k parent)\<rparr>) k;
                      k = upd_pcb child (\<lambda>p. p\<lparr>p_cpu_state := (p_cpu_state p)\<lparr>r_eax := 0\<rparr>\<rparr>) k;
                      k = upd_pcb child (\<lambda>p. p\<lparr>p_memory_used := p_memory_used (pcb k parent)\<rparr>) k
                  in Some (Some child, k)))
          })"

section \<open>Destruction\<close>

text \<open>The address of a control block; \<open>sizeof(process_t)\<close> is 268.\<close>

definition pcb_addr :: "layout \<Rightarrow> pcb_ref \<Rightarrow> u32" where
  "pcb_addr L r =
     (case r of Create_pcb i \<Rightarrow> create_pcbs_addr L + 268 * of_nat i
              | Test_pcb i \<Rightarrow> test_pcbs_addr L + 268 * of_nat i)"

definition free_region :: "layout \<Rightarrow> u32 \<Rightarrow> kstate \<Rightarrow> kstate option" where
  "free_region L base k = map_option (\<lambda>h. k\<lparr>heap := h\<rparr>) (kfree L base (heap k))"

definition process_destroy :: "layout \<Rightarrow> pcb_ref option \<Rightarrow> kstate \<Rightarrow> kstate option" where
  "process_destroy L process k =
     (case process of
        None \<Rightarrow> Some k
      | Some r \<Rightarrow>
          (let k = remove_from_ready_queue (Some r) k
           in do {
             k \<leftarrow> (if p_stack_base (pcb k r) \<noteq> 0 then free_region L (p_stack_base (pcb k r)) k else Some k);
             k \<leftarrow> (if p_heap_base (pcb k r) \<noteq> 0 then free_region L (p_heap_base (pcb k r)) k else Some k);
             let k = (if p_pid (pcb k r) < MAX_PROCESSES then set_table (p_pid (pcb k r)) None k else k);
             free_region L (pcb_addr L r) k
           }))"

definition process_kill_by_pid :: "layout \<Rightarrow> u32 \<Rightarrow> kstate \<Rightarrow> (int \<times> kstate) option" where
  "process_kill_by_pid L pid k =
     (if pid = 1
      then Some (PROCESS_PROTECTED,
                 kputs ''ERROR: PID 1 is protected - cannot kill kernel process!\<newline>'' k)
      else
        (case process_find_by_pid pid k of
           None \<Rightarrow> Some (PROCESS_NOT_FOUND, k)
         | Some r \<Rightarrow>
             if Some r = kernel_process k
             then Some (PROCESS_PROTECTED,
                        kputs ''ERROR: Cannot kill kernel_idle process - system critical!\<newline>'' k)
             else if Some r = current_process k \<and> current_process k = kernel_process k
             then Some (PROCESS_PROTECTED,
                        kputs ''ERROR: Cannot kill the running kernel process!\<newline>'' k)
             else do {
               k \<leftarrow> (if p_stack_base (pcb k r) \<noteq> 0
                     then map_option (upd_pcb r (\<lambda>p. p\<lparr>p_stack_base := 0, p_stack_size := 0\<rparr>))
                            (free_region L (p_stack_base (pcb k r)) k)
                     else Some k);
               k \<leftarrow> (if p_heap_base (pcb k r) \<noteq> 0
                     then map_option (upd_pcb r (\<lambda>p. p\<lparr>p_heap_base := 0, p_heap_size := 0\<rparr>))
                            (free_region L (p_heap_base (pcb k r)) k)
                     else Some k);
               let k = upd_pcb r (\<lambda>p. p\<lparr>p_state := PROCESS_TERMINATED\<rparr>) k;
               let k = (if pid < MAX_PROCESSES then set_table pid None k else k);
               Some (PROCESS_SUCCESS, k)
             }))"

definition process_cleanup :: "pcb_ref option \<Rightarrow> kstate \<Rightarrow> kstate" where
  "process_cleanup process k =
     (case process of
        None \<Rightarrow> k
      | Some r \<Rightarrow>
          (let k = (if p_pid (pcb k r) < MAX_PROCESSES then set_table (p_pid (pcb k r)) None k else k);
               k = remove_from_ready_queue (Some r) k
           in upd_pcb r (\<lambda>_. zero_process) k))"

section \<open>Enabling execution\<close>

definition enable_process_execution :: "layout \<Rightarrow> kstate \<Rightarrow> kstate option" where
  "enable_process_execution L k =
     (let k = kputs ''Enabling real process execution with context switching!\<newline>'' k
      in do {
        k \<leftarrow> (case kernel_process k of
                Some _ \<Rightarrow> Some k
              | None \<Rightarrow> do {
                  (p, k) \<leftarrow> process_create_test L (Some (c_literal ''kernel_idle''))
                              (code_addr L Process_idle_task) PRIORITY_LOW k;
                  let k = k\<lparr>kernel_process := p\<rparr>;
                  Some (case p of
                          None \<Rightarrow> k
                        | Some r \<Rightarrow> (upd_pcb r (\<lambda>p. p\<lparr>p_state := PROCESS_RUNNING\<rparr>) k)\<lparr>current_process := Some r\<rparr>)
                });
        Some (kputs ''Process execution enabled - ready for multitasking!\<newline>'' k)
      })"

section \<open>Listing\<close>

text \<open>\<open>for (int i = 28; i >= 0; i -= 4)\<close>: the eight hexadecimal digits.\<close>

definition kput_hex_digit :: "u32 \<Rightarrow> nat \<Rightarrow> kstate \<Rightarrow> kstate" where
  "kput_hex_digit w i k =
     (let digit = drop_bit i w AND 0xF
      in if digit < 10 then kput_digit digit k
         else kputchar (ucast (of_char CHR ''A'' + digit - 10)) k)"

definition kput_hex8 :: "u32 \<Rightarrow> kstate \<Rightarrow> kstate" where
  "kput_hex8 w k = fold (kput_hex_digit w) [28, 24, 20, 16, 12, 8, 4, 0] k"

definition info_state :: "process_state \<Rightarrow> kstate \<Rightarrow> kstate" where
  "info_state s =
     (case s of
        PROCESS_READY \<Rightarrow> kputs ''READY''
      | PROCESS_RUNNING \<Rightarrow> kputs ''RUNNING''
      | PROCESS_BLOCKED \<Rightarrow> kputs ''BLOCKED''
      | PROCESS_TERMINATED \<Rightarrow> kputs ''TERMINATED''
      | PROCESS_STATE_OTHER _ \<Rightarrow> id)"

definition process_print_info :: "pcb_ref option \<Rightarrow> kstate \<Rightarrow> kstate option" where
  "process_print_info process k =
     (case process of
        None \<Rightarrow> Some k
      | Some r \<Rightarrow>
          (let p = pcb k r;
               k = kputs ''Process Info:\<newline>'' k;
               k = kputs ''  PID: '' k;
               k = kput_dec2 (p_pid p) k;
               k = kputs ''\<newline>'' k;
               k = kputs ''  Name: '' k
           in do {
             k \<leftarrow> kprint (p_name p) k;
             let k = kputs ''\<newline>'' k;
             let k = kputs ''  State: '' k;
             let k = info_state (p_state p) k;
             let k = kputs ''\<newline>'' k;
             let k = kputs ''  Stack: '' k;
             let k = (if p_stack_base p \<noteq> 0
                      then kputs ''KB)'' (kput_dec2 (p_stack_size p div 1024)
                             (kputs '' ('' (kput_hex8 (p_stack_base p) (kputs ''0x'' k))))
                      else kputs ''None'' k);
             let k = kputs ''\<newline>'' k;
             let k = kputs ''  Entry Point: 0x'' k;
             let k = kput_hex8 (r_eip (p_cpu_state p)) k;
             Some (kputs ''\<newline>'' k)
           }))"

text \<open>\<open>while (proc->name[name_len] && name_len < 12)\<close>.\<close>

fun list_name :: "nat \<Rightarrow> u8 list \<Rightarrow> kstate \<Rightarrow> (nat \<times> kstate) option" where
  "list_name name_len [] k = None"
| "list_name name_len (c # cs) k =
     (if c \<noteq> 0 \<and> name_len < 12 then list_name (name_len + 1) cs (kputchar c k) else Some (name_len, k))"

abbreviation tab :: string where "tab \<equiv> [CHR 0x09]"

definition list_state :: "process_state \<Rightarrow> kstate \<Rightarrow> kstate" where
  "list_state s =
     (case s of
        PROCESS_READY \<Rightarrow> kputs (''READY'' @ tab @ tab)
      | PROCESS_RUNNING \<Rightarrow> kputs (''RUNNING'' @ tab @ tab)
      | PROCESS_BLOCKED \<Rightarrow> kputs (''BLOCKED'' @ tab @ tab)
      | PROCESS_TERMINATED \<Rightarrow> kputs (''TERMINATED'' @ tab)
      | PROCESS_STATE_OTHER _ \<Rightarrow> kputs (''UNKNOWN'' @ tab @ tab))"

text \<open>One row of the listing, and the loop over the table with its counter \<open>found_processes\<close>.\<close>

definition list_row :: "process \<Rightarrow> kstate \<Rightarrow> kstate option" where
  "list_row proc k =
     (let k = kput_dec2 (p_pid proc) k;
          k = kputs tab k
      in do {
        (name_len, k) \<leftarrow> list_name 0 (p_name proc) k;
        let k = for_loop name_len 12 (\<lambda>_. kputchar (of_char CHR '' '')) k;
        let k = kputs tab k;
        let k = list_state (p_state proc) k;
        let k = (if p_stack_base proc \<noteq> 0
                 then kputs ''KB'' (kput_dec2 (p_stack_size proc div 1024) k)
                 else kputs ''0KB'' k);
        Some (kputs ''\<newline>'' k)
      })"

fun list_rows :: "u32 list \<Rightarrow> nat \<Rightarrow> kstate \<Rightarrow> (nat \<times> kstate) option" where
  "list_rows [] found k = Some (found, k)"
| "list_rows (i # rest) found k =
     (case process_table k i of
        None \<Rightarrow> list_rows rest found k
      | Some r \<Rightarrow> do { k \<leftarrow> list_row (pcb k r) k; list_rows rest (found + 1) k })"

definition process_list_all :: "kstate \<Rightarrow> kstate option" where
  "process_list_all k =
     (let k = kputs ''Process List:\<newline>'' k;
          k = kputs (''PID'' @ tab @ ''NAME'' @ tab @ tab @ ''STATE'' @ tab @ tab @ ''MEMORY\<newline>'') k;
          k = kputs (''---'' @ tab @ ''----'' @ tab @ tab @ ''-----'' @ tab @ tab @ ''------\<newline>'') k
      in do {
        (found_processes, k) \<leftarrow> list_rows (map of_nat [0..<256]) 0 k;
        Some (if found_processes = 0 then kputs ''(No processes)\<newline>'' k else k)
      })"

text \<open>
  \<open>process_idle_task\<close> never returns; one round of its outer loop is a busy wait that changes
  nothing.
\<close>

definition process_idle_round :: "kstate \<Rightarrow> kstate" where
  "process_idle_round k = for_loop 0 1000000 (\<lambda>_ k. k) k"

section \<open>Names\<close>

definition stored_name :: "u8 list \<Rightarrow> u8 list" where
  "stored_name name = take 63 (cstr name)"

lemma copy_name_terminated:
  "terminated name \<Longrightarrow> i \<le> 63 \<Longrightarrow> length dest = 64 \<Longrightarrow>
   copy_name i name dest =
     Some (take i dest @ take (63 - i) (cstr name) @ drop (i + min (63 - i) (length (cstr name))) dest,
           i + min (63 - i) (length (cstr name)))"
proof (induction name arbitrary: i dest)
  case (Cons c cs)
  show ?case
  proof (cases "i < 63 \<and> c \<noteq> 0")
    case True
    then have "take (Suc i) (dest[i := c]) = take i dest @ [c]"
      using Cons.prems by (simp add: take_Suc_conv_app_nth)
    moreover have "63 - i = Suc (63 - Suc i)" using True by arith
    ultimately show ?thesis
      using True Cons.prems Cons.IH [of "Suc i" "dest[i := c]"]
      by (subst copy_name.simps) (simp add: drop_update_swap)
  qed (use Cons.prems in \<open>subst copy_name.simps, auto\<close>)
qed simp

lemma copied_name:
  assumes "terminated name" and "length dest = 64"
  shows "copy_name 0 name dest = Some (stored_name name @ drop (length (stored_name name)) dest,
           length (stored_name name))"
  using copy_name_terminated [OF assms(1), of 0 dest] assms(2) by (simp add: stored_name_def min.commute)

lemma length_stored_name: "length (stored_name name) \<le> 63"
  by (simp add: stored_name_def)

lemma zero_notin_stored [simp]: "0 \<notin> set (stored_name name)"
  using zero_notin_cstr [of name] by (auto simp: stored_name_def dest: in_set_takeD)

lemma stored_name_buffer:
  assumes "length dest = 64"
  shows "(stored_name name @ drop (length (stored_name name)) dest)[length (stored_name name) := 0] =
           stored_name name @ 0 # drop (Suc (length (stored_name name))) dest"
proof -
  have "length (stored_name name) < length dest" using assms length_stored_name [of name] by simp
  then show ?thesis by (simp add: list_update_append Cons_nth_drop_Suc [symmetric])
qed

section \<open>What creation does\<close>

text \<open>The control block a creation leaves behind, from the block it found.\<close>

definition created_pcb :: "nat \<Rightarrow> u8 list \<Rightarrow> u32 \<Rightarrow> u32 \<Rightarrow> process_priority \<Rightarrow> process \<Rightarrow> process" where
  "created_pcb n name entry stack priority p =
     pcb_links (pcb_memory stack STACK_SIZE (pcb_cpu entry (stack + 4092)
       ((pcb_header n priority p)\<lparr>p_name := name\<rparr>)))"

definition stack_of :: "layout \<Rightarrow> nat \<Rightarrow> u32" where
  "stack_of L n = stacks_addr L + 4096 * of_nat n"

definition test_created :: "layout \<Rightarrow> u8 list \<Rightarrow> u32 \<Rightarrow> process_priority \<Rightarrow> kstate \<Rightarrow> kstate" where
  "test_created L name entry priority k =
     (let n = test_count k; r = Test_pcb n
      in k\<lparr>pcb := (pcb k)(r := created_pcb n
               (stored_name name @ 0 # drop (Suc (length (stored_name name))) (p_name (pcb k r)))
               entry (stack_of L n) priority (pcb k r)),
           process_table := (process_table k)(of_nat n + 1 := Some r),
           test_count := n + 1\<rparr>)"

definition pool_created :: "u8 list \<Rightarrow> u32 \<Rightarrow> process_priority \<Rightarrow> kstate \<Rightarrow> kstate" where
  "pool_created name entry priority k =
     (let n = create_count k; r = Create_pcb n
      in k\<lparr>heap := take_block STACK_SIZE (heap k),
           pcb := (pcb k)(r := created_pcb n
               (stored_name name @ drop (length (stored_name name)) (p_name (pcb k r)))
               entry (heap_current (heap k) + 4) priority (pcb k r)),
           process_table := (process_table k)(of_nat n + 1 := Some r),
           create_count := n + 1\<rparr>)"

lemma created_pcb_fields [simp]:
  "p_pid (created_pcb n name entry stack priority p) = of_nat n + 1"
  "p_parent_pid (created_pcb n name entry stack priority p) = 0"
  "p_name (created_pcb n name entry stack priority p) = name"
  "p_state (created_pcb n name entry stack priority p) = PROCESS_READY"
  "p_priority (created_pcb n name entry stack priority p) = priority"
  "p_exit_code (created_pcb n name entry stack priority p) = p_exit_code p"
  "p_memory_used (created_pcb n name entry stack priority p) = p_memory_used p"
  "p_stack_base (created_pcb n name entry stack priority p) = stack"
  "p_stack_size (created_pcb n name entry stack priority p) = 4096"
  "p_heap_base (created_pcb n name entry stack priority p) = 0"
  "p_heap_size (created_pcb n name entry stack priority p) = 0"
  "r_eip (p_cpu_state (created_pcb n name entry stack priority p)) = entry"
  "r_esp (p_cpu_state (created_pcb n name entry stack priority p)) = stack + 4092"
  "r_eflags (p_cpu_state (created_pcb n name entry stack priority p)) = 0x202"
  "p_time_slice (created_pcb n name entry stack priority p) = 10"
  "p_next (created_pcb n name entry stack priority p) = None"
  "p_prev (created_pcb n name entry stack priority p) = None"
  "length (p_file_descriptors (created_pcb n name entry stack priority p)) = length (p_file_descriptors p)"
  by (simp_all add: created_pcb_def pcb_links_def pcb_memory_def pcb_cpu_def pcb_header_def for_loop_const)

lemma small_pid: "n < 10 \<Longrightarrow> (of_nat n + 1 :: u32) < 256"
  by (simp add: word_less_nat_alt unat_word_ariths)

lemma process_create_test_full:
  "test_count k \<ge> 10 \<Longrightarrow> \<exists>k'. process_create_test L name entry priority k = Some (None, k') \<and> same_core k' k"
  by (simp add: process_create_test_def Let_def same_core_def)

lemma process_create_test_creates:
  assumes "test_count k < 10" and "terminated name" and "length (p_name (pcb k (Test_pcb (test_count k)))) = 64"
  shows "\<exists>k'. process_create_test L (Some name) entry priority k = Some (Some (Test_pcb (test_count k)), k') \<and>
           same_core k' (test_created L name entry priority k)"
proof -
  have p: "p_pid (pcb_header n q p) = of_nat n + 1" "p_name (pcb_header n q p) = p_name p" for n q p
    by (simp_all add: pcb_header_def)
  have q: "p_pid (pcb_links (pcb_memory s z (pcb_cpu e t (P\<lparr>p_name := m\<rparr>)))) = p_pid P" for s z e t P m
    by (simp add: pcb_links_def pcb_memory_def pcb_cpu_def)
  show ?thesis
    using assms small_pid [OF assms(1)]
    by (simp add: process_create_test_def Let_def copied_name p q stored_name_buffer same_core_def
        test_created_def created_pcb_def stack_of_def add.commute [of 4092])
qed

section \<open>Process table invariant\<close>

text \<open>
  Entry \<open>i\<close> of the table is empty or a created block with PID \<open>i\<close>; the PIDs in use are 1 to 10;
  name buffers are 64 bytes long and end with a NUL.
\<close>

definition created :: "kstate \<Rightarrow> pcb_ref \<Rightarrow> bool" where
  "created k r = (case r of Create_pcb i \<Rightarrow> i < create_count k | Test_pcb i \<Rightarrow> i < test_count k)"

text \<open>The arrays of a block have the sizes of \<open>process_t\<close>, and its name is terminated.\<close>

definition arrays_ok :: "process \<Rightarrow> bool" where
  "arrays_ok p \<longleftrightarrow> length (p_name p) = 64 \<and> last (p_name p) = 0 \<and> length (p_file_descriptors p) = 16"

definition table_ok :: "kstate \<Rightarrow> bool" where
  "table_ok k \<longleftrightarrow>
     (\<forall>i r. process_table k i = Some r \<longrightarrow> p_pid (pcb k r) = i \<and> created k r \<and> 0 < i \<and> i \<le> 10) \<and>
     create_count k \<le> 10 \<and> test_count k \<le> 10 \<and> (\<forall>r. arrays_ok (pcb k r))"

lemma same_core_fields:
  assumes "same_core k' k"
  shows "heap k' = heap k" "process_table k' = process_table k" "next_pid k' = next_pid k"
    "ready_queue_head k' = ready_queue_head k" "ready_queue_tail k' = ready_queue_tail k"
    "current_process k' = current_process k" "kernel_process k' = kernel_process k"
    "pcb k' = pcb k" "create_count k' = create_count k" "test_count k' = test_count k"
    "timer_ticks k' = timer_ticks k"
  using assms by (simp_all add: same_core_def)

lemma same_core_created: "same_core k' k \<Longrightarrow> created k' = created k"
  by (simp add: fun_eq_iff created_def same_core_fields split: pcb_ref.splits)

lemma table_ok_same_core: "same_core k' k \<Longrightarrow> table_ok k' = table_ok k"
  by (simp add: table_ok_def same_core_fields same_core_created)

lemma pid_range: "n < 10 \<Longrightarrow> 0 < (of_nat n + 1 :: u32) \<and> (of_nat n + 1 :: u32) \<le> 10"
  by (simp add: word_less_nat_alt word_le_nat_alt unat_word_ariths)

lemma arrays_ok_terminated: "arrays_ok p \<Longrightarrow> terminated (p_name p)"
  unfolding arrays_ok_def terminated_def by (metis last_in_set list.size(3) zero_neq_numeral)

lemma arrays_ok_created_test:
  assumes "length buf = 64" and "last buf = 0" and "length (p_file_descriptors p) = 16"
  shows "arrays_ok (created_pcb n (stored_name name @ 0 # drop (Suc (length (stored_name name))) buf) e s q p)"
  using assms length_stored_name [of name]
  by (cases "length (stored_name name) = 63") (auto simp: arrays_ok_def last_drop)

lemma arrays_ok_created_pool:
  assumes "length buf = 64" and "last buf = 0" and "length (p_file_descriptors p) = 16"
  shows "arrays_ok (created_pcb n (stored_name name @ drop (length (stored_name name)) buf) e s q p)"
  using assms length_stored_name [of name] by (auto simp: arrays_ok_def last_drop)

lemma table_okI:
  assumes "\<And>i r. process_table k i = Some r \<Longrightarrow> p_pid (pcb k r) = i \<and> created k r \<and> 0 < i \<and> i \<le> 10"
    and "create_count k \<le> 10" and "test_count k \<le> 10" and "\<And>r. arrays_ok (pcb k r)"
  shows "table_ok k"
  using assms by (simp add: table_ok_def)

lemma table_okD:
  assumes "table_ok k"
  shows "process_table k i = Some r \<Longrightarrow> p_pid (pcb k r) = i \<and> created k r \<and> 0 < i \<and> i \<le> 10"
    and "create_count k \<le> 10" and "test_count k \<le> 10" and "arrays_ok (pcb k r)"
  using assms by (simp_all add: table_ok_def)

lemma not_created_next: "\<not> created k (Test_pcb (test_count k))" "\<not> created k (Create_pcb (create_count k))"
  by (simp_all add: created_def)

lemma test_created_fields [simp]:
  "process_table (test_created L name entry priority k) =
     (process_table k)(of_nat (test_count k) + 1 := Some (Test_pcb (test_count k)))"
  "create_count (test_created L name entry priority k) = create_count k"
  "test_count (test_created L name entry priority k) = Suc (test_count k)"
  "r \<noteq> Test_pcb (test_count k) \<Longrightarrow> pcb (test_created L name entry priority k) r = pcb k r"
  "pcb (test_created L name entry priority k) (Test_pcb (test_count k)) =
     created_pcb (test_count k)
       (stored_name name @ 0 # drop (Suc (length (stored_name name))) (p_name (pcb k (Test_pcb (test_count k)))))
       entry (stack_of L (test_count k)) priority (pcb k (Test_pcb (test_count k)))"
  "heap (test_created L name entry priority k) = heap k"
  "ready_queue_head (test_created L name entry priority k) = ready_queue_head k"
  "ready_queue_tail (test_created L name entry priority k) = ready_queue_tail k"
  "current_process (test_created L name entry priority k) = current_process k"
  "kernel_process (test_created L name entry priority k) = kernel_process k"
  by (simp_all add: test_created_def Let_def)

lemma pool_created_fields [simp]:
  "process_table (pool_created name entry priority k) =
     (process_table k)(of_nat (create_count k) + 1 := Some (Create_pcb (create_count k)))"
  "create_count (pool_created name entry priority k) = Suc (create_count k)"
  "test_count (pool_created name entry priority k) = test_count k"
  "r \<noteq> Create_pcb (create_count k) \<Longrightarrow> pcb (pool_created name entry priority k) r = pcb k r"
  "pcb (pool_created name entry priority k) (Create_pcb (create_count k)) =
     created_pcb (create_count k)
       (stored_name name @ drop (length (stored_name name)) (p_name (pcb k (Create_pcb (create_count k)))))
       entry (heap_current (heap k) + 4) priority (pcb k (Create_pcb (create_count k)))"
  "heap (pool_created name entry priority k) = take_block STACK_SIZE (heap k)"
  "ready_queue_head (pool_created name entry priority k) = ready_queue_head k"
  "ready_queue_tail (pool_created name entry priority k) = ready_queue_tail k"
  "current_process (pool_created name entry priority k) = current_process k"
  "kernel_process (pool_created name entry priority k) = kernel_process k"
  by (simp_all add: pool_created_def Let_def)

lemma created_mono:
  "created k r \<Longrightarrow> create_count k \<le> create_count k' \<Longrightarrow> test_count k \<le> test_count k' \<Longrightarrow> created k' r"
  by (auto simp: created_def split: pcb_ref.splits)

text \<open>A state in which one more block is created and entered in the table.\<close>

lemma table_ok_extend:
  assumes "table_ok k" and "n < 10" and "\<not> created k r0" and "created k' r0"
    and "process_table k' = (process_table k)(of_nat n + 1 := Some r0)"
    and "\<And>r. r \<noteq> r0 \<Longrightarrow> pcb k' r = pcb k r" and "p_pid (pcb k' r0) = of_nat n + 1" and "arrays_ok (pcb k' r0)"
    and "create_count k \<le> create_count k'" "test_count k \<le> test_count k'"
    and "create_count k' \<le> 10" "test_count k' \<le> 10"
  shows "table_ok k'"
proof (rule table_okI)
  fix i r
  assume e: "process_table k' i = Some r"
  show "p_pid (pcb k' r) = i \<and> created k' r \<and> 0 < i \<and> i \<le> 10"
  proof (cases "i = of_nat n + 1")
    case True
    then have "r = r0" using e assms(5) by simp
    then show ?thesis using True assms(4,7) pid_range [OF assms(2)] by simp
  next
    case False
    then have "process_table k i = Some r" using e assms(5) by simp
    then have r: "p_pid (pcb k r) = i" "created k r" "0 < i" "i \<le> 10"
      using table_okD(1) [OF assms(1)] by blast+
    then have "r \<noteq> r0" using assms(3) by blast
    with r show ?thesis using assms(6) created_mono [OF r(2) assms(9,10)] by simp
  qed
next
  show "arrays_ok (pcb k' r)" for r
    using assms(6,8) table_okD(4) [OF assms(1)] by (cases "r = r0") simp_all
qed (use assms(11,12) in simp_all)

lemma arrays_okD: "arrays_ok p \<Longrightarrow> length (p_name p) = 64" "arrays_ok p \<Longrightarrow> last (p_name p) = 0"
  "arrays_ok p \<Longrightarrow> length (p_file_descriptors p) = 16"
  by (simp_all add: arrays_ok_def)

lemma table_ok_test_created [kinv]:
  assumes "table_ok k" and "test_count k < 10"
  shows "table_ok (test_created L name entry priority k)"
  using table_okD(2,3) [OF assms(1)] assms(2)
  by (intro table_ok_extend [OF assms(1,2) not_created_next(1)])
    (auto simp: created_def intro!: arrays_ok_created_test arrays_okD table_okD(4) [OF assms(1)])

lemma table_ok_pool_created [kinv]:
  assumes "table_ok k" and "create_count k < 10"
  shows "table_ok (pool_created name entry priority k)"
  using table_okD(2,3) [OF assms(1)] assms(2)
  by (intro table_ok_extend [OF assms(1,2) not_created_next(2)])
    (auto simp: created_def intro!: arrays_ok_created_pool arrays_okD table_okD(4) [OF assms(1)])

text \<open>An update that keeps PID, name and array sizes of every block, and clears table entries at most.\<close>

lemma table_ok_shrink:
  assumes "table_ok k" and "\<And>i r. process_table k' i = Some r \<Longrightarrow> process_table k i = Some r"
    and "\<And>i r. process_table k' i = Some r \<Longrightarrow> p_pid (pcb k' r) = p_pid (pcb k r)"
    and "\<And>r. p_name (pcb k' r) = p_name (pcb k r) \<and>
      length (p_file_descriptors (pcb k' r)) = length (p_file_descriptors (pcb k r)) \<or> pcb k' r = zero_process"
    and "create_count k' = create_count k" and "test_count k' = test_count k"
  shows "table_ok k'"
proof (rule table_okI)
  fix i r
  assume "process_table k' i = Some r"
  with assms(2,3) have "process_table k i = Some r" "p_pid (pcb k' r) = p_pid (pcb k r)" by blast+
  then show "p_pid (pcb k' r) = i \<and> created k' r \<and> 0 < i \<and> i \<le> 10"
    using table_okD(1) [OF assms(1)] created_mono [of k r k'] assms(5,6) by simp
next
  show "arrays_ok (pcb k' r)" for r
    using assms(4) [of r] table_okD(4) [OF assms(1), of r] by (auto simp: arrays_ok_def zero_process_def)
qed (use table_okD(2,3) [OF assms(1)] assms(5,6) in simp_all)

lemma queue_ops_name [simp]:
  "p_name (pcb (add_to_ready_queue p k) r) = p_name (pcb k r)"
  "p_name (pcb (remove_from_ready_queue p k) r) = p_name (pcb k r)"
  "p_file_descriptors (pcb (add_to_ready_queue p k) r) = p_file_descriptors (pcb k r)"
  "p_file_descriptors (pcb (remove_from_ready_queue p k) r) = p_file_descriptors (pcb k r)"
  using unlink_eqD [OF add_to_ready_queue_unlink] unlink_eqD [OF remove_from_ready_queue_unlink]
  by simp_all

lemma table_ok_queue_ops [kinv]:
  "table_ok k \<Longrightarrow> table_ok (add_to_ready_queue p k)"
  "table_ok k \<Longrightarrow> table_ok (remove_from_ready_queue p k)"
  by (erule table_ok_shrink; simp)+

lemma table_ok_set_state [kinv]:
  "table_ok k \<Longrightarrow> table_ok (upd_pcb r (\<lambda>p. p\<lparr>p_state := s\<rparr>) k)"
  by (erule table_ok_shrink) simp_all

lemma table_ok_current [kinv]: "table_ok k \<Longrightarrow> table_ok (k\<lparr>current_process := c\<rparr>)"
  by (erule table_ok_shrink) simp_all

lemma table_ok_preempt [kinv]: "table_ok k \<Longrightarrow> table_ok (preempt_current k)"
  by (simp add: preempt_current_def Let_def kinv split: option.splits)

lemma table_ok_schedule [kinv]: "table_ok k \<Longrightarrow> table_ok (fst (schedule k))"
  by (simp add: schedule_def Let_def kinv split: option.splits)

lemma table_ok_cleanup [kinv]:
  assumes "table_ok k"
  shows "table_ok (process_cleanup p k)"
proof (cases p)
  case (Some r)
  have "p_pid (pcb k r) = i \<and> i < 256" if "process_table k i = Some r" for i
    using table_okD(1) [OF assms that] by (auto simp: word_less_nat_alt word_le_nat_alt)
  then show ?thesis
    using assms Some
    by (intro table_ok_shrink [OF assms]) (auto simp: process_cleanup_def Let_def split: if_splits)
qed (use assms in \<open>simp add: process_cleanup_def\<close>)

lemma table_ok_exit [kinv]: "table_ok k \<Longrightarrow> table_ok (process_exit c k)"
  by (simp add: process_exit_def kinv split: option.splits)

lemma free_region_fields:
  assumes "free_region L base k = Some k'"
  shows "process_table k' = process_table k" "pcb k' = pcb k" "create_count k' = create_count k"
    "test_count k' = test_count k" "ready_queue_head k' = ready_queue_head k"
    "ready_queue_tail k' = ready_queue_tail k" "current_process k' = current_process k"
    "kernel_process k' = kernel_process k" "vga k' = vga k" "next_pid k' = next_pid k"
    "timer_ticks k' = timer_ticks k"
  using assms by (auto simp: free_region_def)

lemma table_ok_kill [kinv]:
  assumes "table_ok k" and "process_kill_by_pid L pid k = Some (res, k')"
  shows "table_ok k'"
  using assms(2)
  by (intro table_ok_shrink [OF assms(1)])
    (auto simp: process_kill_by_pid_def Let_def free_region_fields split: if_splits option.splits)

end
