(* ===== verification/Process_Props.thy ===== *)
theory Process_Props
  imports Process_Ops
begin

text \<open>
  Properties of the process manager: what creation leaves behind on every branch, the PIDs the two
  creation functions give out, what killing and cleaning up do to the table and to the queue, PID
  allocation, and the listings.
\<close>

section \<open>Creation from the heap\<close>

text \<open>Stacks are the only use of the heap: \<open>n\<close> creations take \<open>4100 n\<close> bytes.\<close>

definition pool_ok :: "kstate \<Rightarrow> bool" where
  "pool_ok k \<longleftrightarrow> heap_ok (heap k) \<and> unat (heap_current (heap k)) = 1048576 + 4100 * create_count k"

lemma stack_block [simp]: "block_size 4096 = 4096" "request_ok 4096"
  by (simp_all add: block_size_def request_ok_def)

lemma pool_fits: "pool_ok k \<Longrightarrow> create_count k < 10 \<Longrightarrow> fits 4096 (heap k)"
  by (simp add: pool_ok_def fits_def)

lemma pool_ok_created [kinv]:
  "pool_ok k \<Longrightarrow> create_count k < 10 \<Longrightarrow> pool_ok (pool_created name entry priority k)"
  using take_block_ok [of "heap k" 4096] pool_fits [of k] by (simp add: pool_ok_def)

lemma pool_ok_same_core: "same_core k' k \<Longrightarrow> pool_ok k' = pool_ok k"
  by (simp add: pool_ok_def same_core_fields)

lemma process_create_creates:
  assumes "pool_ok k" and "create_count k < 10" and "terminated name"
    and "length (p_name (pcb k (Create_pcb (create_count k)))) = 64"
  shows "\<exists>k'. process_create L (Some name) entry priority k = Some (Some (Create_pcb (create_count k)), k') \<and>
           same_core k' (pool_created name entry priority k)"
proof -
  have h: "kmalloc L 4096 (heap k) = Some (take_block 4096 (heap k), heap_current (heap k) + 4)"
    using assms(1) pool_fits [OF assms(1,2)] by (simp add: pool_ok_def kmalloc_cases)
  have nz: "heap_current (heap k) + 4 \<noteq> 0"
    using assms(1,2) by (simp add: pool_ok_def word_eq_unat unat_word_ariths)
  have p: "p_pid (pcb_header n q p) = of_nat n + 1" "p_name (pcb_header n q p) = p_name p" for n q p
    by (simp_all add: pcb_header_def)
  have q: "p_pid (pcb_links (pcb_memory s z (pcb_cpu e t (P\<lparr>p_name := m\<rparr>)))) = p_pid P" for s z e t P m
    by (simp add: pcb_links_def pcb_memory_def pcb_cpu_def)
  show ?thesis
    using assms small_pid [OF assms(2)] nz
    by (simp add: process_create_def Let_def h copied_name p q same_core_def
        pool_created_def created_pcb_def algebra_simps)
qed

lemma process_create_full:
  "create_count k \<ge> 10 \<Longrightarrow> \<exists>k'. process_create L (Some name) entry priority k = Some (None, k') \<and> same_core k' k"
  by (simp add: process_create_def Let_def same_core_def)

lemma queue_rep_fresh:
  assumes "queue_rep k xs" and "r \<notin> set xs" and "ready_queue_head k' = ready_queue_head k"
    and "ready_queue_tail k' = ready_queue_tail k" and "\<And>x. x \<noteq> r \<Longrightarrow> pcb k' x = pcb k x"
  shows "queue_rep k' xs"
proof -
  have "pcb k' = (pcb k)(r := pcb k' r)" using assms(5) by auto
  then have "dll (pcb k') p f xs l n = dll (pcb k) p f xs l n" for p f l n
    using dll_upd_other [OF assms(2), of "pcb k" "pcb k' r" p f l n] by simp
  then show ?thesis using assms(1,3,4) by (simp add: queue_rep_def)
qed

section \<open>Killing\<close>

lemma process_kill_killable:
  assumes "process_find_by_pid pid k = Some r" and "pid \<noteq> 1" and "Some r \<noteq> kernel_process k"
    and "kfree L (p_stack_base (pcb k r)) (heap k) = Some h" and "p_heap_base (pcb k r) = 0"
  shows "process_kill_by_pid L pid k =
    Some (PROCESS_SUCCESS,
      k\<lparr>heap := h,
        pcb := (pcb k)(r := pcb k r\<lparr>p_stack_base := 0,
          p_stack_size := (if p_stack_base (pcb k r) = 0 then p_stack_size (pcb k r) else 0),
          p_state := PROCESS_TERMINATED\<rparr>),
        process_table := (process_table k)(pid := None)\<rparr>)"
proof -
  have pid: "pid < 256" using assms(1) by (auto simp: process_find_by_pid_def split: if_splits)
  have "p_stack_base (pcb k r) = 0 \<Longrightarrow> h = heap k"
    using assms(4) by (simp add: kfree_def)
  then show ?thesis
    using assms pid
    by (cases "p_stack_base (pcb k r) = 0")
      (auto simp: process_kill_by_pid_def Let_def free_region_def upd_pcb_def set_table_def
        intro!: kstate.equality)
qed

section \<open>Listings\<close>

lemma list_name_ok:
  "n \<le> 12 \<Longrightarrow> terminated name \<Longrightarrow> \<exists>m k'. list_name n name k = Some (m, k') \<and> same_core k' k"
proof (induction name arbitrary: n k)
  case (Cons c cs)
  show ?case
  proof (cases "c \<noteq> 0 \<and> n < 12")
    case True
    then obtain m k' where "list_name (n + 1) cs (kputchar c k) = Some (m, k')" "same_core k' (kputchar c k)"
      using Cons.IH [of "n + 1" "kputchar c k"] Cons.prems by auto
    then show ?thesis using True by (auto simp: same_core_def)
  qed auto
qed simp

lemma same_core_for_putchar [simp]: "same_core (for_loop lo hi (\<lambda>_. kputchar c) k) k"
proof (cases "lo \<le> hi")
  case True
  then show ?thesis
    using for_loop_invar [where I = "\<lambda>_ t. same_core t k" and body = "\<lambda>_. kputchar c" and s = k]
    by (auto simp: same_core_def)
qed simp

lemma same_core_output [simp]:
  "same_core (kputs s k) k'  = same_core k k'" "same_core (kputchar c k) k' = same_core k k'"
  "same_core (kput_dec2 n k) k' = same_core k k'" "same_core (kput_digit n k) k' = same_core k k'"
  "same_core (kprint_hex w k) k' = same_core k k'" "same_core (kset_color f b k) k' = same_core k k'"
  by (simp_all add: same_core_def)

lemma same_core_list_state [simp]: "same_core (list_state s k) k' = same_core k k'"
  by (simp add: list_state_def split: process_state.splits)

lemma same_core_info_state [simp]: "same_core (info_state s k) k' = same_core k k'"
  by (simp add: info_state_def split: process_state.splits)

lemma same_core_hex8 [simp]: "same_core (kput_hex8 w k) k' = same_core k k'"
  by (simp add: kput_hex8_def kput_hex_digit_def Let_def)

lemma list_row_ok:
  assumes "terminated (p_name p)"
  shows "\<exists>k'. list_row p k = Some k' \<and> same_core k' k"
proof -
  obtain m k1 where "list_name 0 (p_name p) (kputs tab (kput_dec2 (p_pid p) k)) = Some (m, k1)"
    and "same_core k1 (kputs tab (kput_dec2 (p_pid p) k))"
    using list_name_ok [OF _ assms] by blast
  moreover from this(2) have "same_core (for_loop m 12 (\<lambda>_. kputchar (of_char CHR '' '')) k1) k"
    using same_core_trans [OF same_core_for_putchar] by (simp add: same_core_def)
  ultimately show ?thesis by (simp add: list_row_def Let_def)
qed

lemma list_rows_ok:
  assumes "\<And>r. terminated (p_name (pcb k r))"
  shows "\<exists>m k'. list_rows is n k = Some (m, k') \<and> same_core k' k"
  using assms
proof (induction "is" arbitrary: n k)
  case (Cons i rest)
  show ?case
  proof (cases "process_table k i")
    case None
    then show ?thesis using Cons by auto
  next
    case (Some r)
    obtain k1 where k1: "list_row (pcb k r) k = Some k1" "same_core k1 k"
      using list_row_ok Cons.prems by blast
    then have "\<And>r. terminated (p_name (pcb k1 r))" using Cons.prems by (simp add: same_core_fields)
    then obtain m k' where "list_rows rest (n + 1) k1 = Some (m, k')" "same_core k' k1"
      using Cons.IH [of k1 "n + 1"] by blast
    then show ?thesis using Some k1 same_core_trans by auto
  qed
qed auto

section \<open>PID allocation\<close>

lemma find_Some_first: "find P xs = Some x \<Longrightarrow> P x \<and> x \<in> set xs"
  by (auto simp: find_Some_iff)

lemma allocate_pid_scan:
  "find (\<lambda>pid. process_table k (of_nat pid) = None) [1..<256] = None \<longleftrightarrow>
   (\<forall>i. 0 < i \<and> i < 256 \<longrightarrow> process_table k i \<noteq> None)"
proof -
  have "(\<forall>n \<in> {1..<256}. process_table k (of_nat n) \<noteq> None) \<longleftrightarrow>
        (\<forall>i. 0 < i \<and> i < 256 \<longrightarrow> process_table k i \<noteq> None)" (is "?L \<longleftrightarrow> ?R")
  proof
    assume l: ?L
    show ?R
    proof (intro allI impI)
      fix i :: u32
      assume "0 < i \<and> i < 256"
      then have "unat i \<in> {1..<256}" by (auto simp: word_less_nat_alt)
      with l show "process_table k i \<noteq> None" by (metis of_nat_unat_id)
    qed
  next
    assume r: ?R
    show ?L
    proof
      fix n :: nat
      assume "n \<in> {1..<256}"
      then have "0 < (of_nat n :: u32) \<and> (of_nat n :: u32) < 256" by (auto simp: word_less_nat_alt)
      with r show "process_table k (of_nat n) \<noteq> None" by blast
    qed
  qed
  then show ?thesis by (auto simp: find_None_iff)
qed

section \<open>Properties\<close>

lemma zero_kstate_table: "table_ok zero_kstate"
  by (simp add: table_ok_def zero_kstate_def arrays_ok_def zero_process_def)

lemma zero_kstate_pool: "pool_ok zero_kstate"
  by (simp add: pool_ok_def zero_kstate_def heap_ok_boot) (simp add: boot_heap_def)

lemma fresh_pid_found:
  "n < 10 \<Longrightarrow> process_table k (of_nat n + 1) = Some r \<Longrightarrow> process_find_by_pid (of_nat n + 1) k = Some r"
  using small_pid [of n] by (simp add: process_find_by_pid_def not_le)

text \<open>The block a creation leaves behind, field by field.\<close>

lemma clear_descriptors:
  "n \<le> length fds \<Longrightarrow> for_loop 0 n (\<lambda>j fds. fds[j := c]) fds = replicate n c @ drop n fds"
proof (induction n)
  case (Suc n)
  then have "drop n fds = fds ! n # drop (Suc n) fds" by (simp add: Cons_nth_drop_Suc)
  then show ?case
    using Suc by (simp add: for_loop_Suc list_update_append replicate_append_same [symmetric] del: replicate_append_same)
qed simp

lemma created_pcb_record:
  assumes "length (p_file_descriptors p) = 16"
  shows "created_pcb n name entry stack priority p =
    p\<lparr>p_pid := of_nat n + 1, p_parent_pid := 0, p_name := name, p_state := PROCESS_READY, p_priority := priority,
      p_cpu_state := (p_cpu_state p)\<lparr>r_esp := stack + 4092, r_eip := entry, r_eflags := 0x202,
        r_cs := 0x08, r_ds := 0x10, r_es := 0x10, r_fs := 0x10, r_gs := 0x10, r_ss := 0x10\<rparr>,
      p_stack_base := stack, p_stack_size := 4096, p_heap_base := 0, p_heap_size := 0,
      p_time_slice := 10, p_total_runtime := 0, p_sleep_until := 0, p_file_descriptors := replicate 16 0,
      p_parent := None, p_children := None, p_next_child := None, p_next := None, p_prev := None\<rparr>"
proof -
  have "for_loop 0 16 (\<lambda>j fds. fds[j := 0]) (p_file_descriptors p) = replicate 16 0"
    using clear_descriptors [of 16 "p_file_descriptors p" 0] assms by simp
  then show ?thesis
    by (simp add: created_pcb_def pcb_links_def pcb_memory_def pcb_cpu_def pcb_header_def)
qed

text \<open>
  C9. \<open>process_create_test\<close> with a terminated name of any length. Below ten processes it returns the
  next block of its array and every field of it is known: PID, no parent, READY, the priority and entry
  point asked for, the stack pointer in the last word of its own 4096 byte stack, the flags and segment
  registers, time slice 10, no links and sixteen zero descriptors, the first 63 characters of the
  name; exit code, memory counter and the other registers stay what they were. It is found under its
  PID; nothing else changes but the counter. With ten processes it returns \<open>NULL\<close> and only prints.
\<close>

theorem process_create_test_correct:
  assumes "table_ok k" and "terminated name"
  shows "\<exists>p k'. process_create_test L (Some name) entry priority k = Some (p, k') \<and> table_ok k' \<and>
    (let n = test_count k; pid = of_nat n + 1; r = Test_pcb n; old = pcb k r; stack = stacks_addr L + 4096 * of_nat n in
     if n < 10
     then p = Some r \<and> process_find_by_pid pid k' = p \<and>
          (\<exists>stored. cstr stored = take 63 (cstr name) \<and>
             pcb k' = (pcb k)(r := old\<lparr>p_pid := pid, p_parent_pid := 0, p_name := stored,
               p_state := PROCESS_READY, p_priority := priority,
               p_cpu_state := (p_cpu_state old)\<lparr>r_esp := stack + 4092, r_eip := entry, r_eflags := 0x202,
                 r_cs := 0x08, r_ds := 0x10, r_es := 0x10, r_fs := 0x10, r_gs := 0x10, r_ss := 0x10\<rparr>,
               p_stack_base := stack, p_stack_size := 4096, p_heap_base := 0, p_heap_size := 0,
               p_time_slice := 10, p_total_runtime := 0, p_sleep_until := 0,
               p_file_descriptors := replicate 16 0, p_parent := None, p_children := None,
               p_next_child := None, p_next := None, p_prev := None\<rparr>)) \<and>
          process_table k' = (process_table k)(pid := Some r) \<and> test_count k' = n + 1 \<and>
          create_count k' = create_count k \<and> heap k' = heap k \<and>
          ready_queue_head k' = ready_queue_head k \<and> ready_queue_tail k' = ready_queue_tail k \<and>
          current_process k' = current_process k \<and> kernel_process k' = kernel_process k \<and>
          next_pid k' = next_pid k \<and> timer_ticks k' = timer_ticks k
     else p = None \<and> same_core k' k)"
proof (cases "test_count k < 10")
  case True
  let ?r = "Test_pcb (test_count k)"
  obtain k' where k': "process_create_test L (Some name) entry priority k = Some (Some ?r, k')"
    "same_core k' (test_created L name entry priority k)"
    using process_create_test_creates [OF True assms(2)] arrays_okD(1) [OF table_okD(4) [OF assms(1)]] by blast
  have t: "table_ok k'"
    using k'(2) table_ok_same_core table_ok_test_created [OF assms(1) True] by blast
  have fds: "length (p_file_descriptors (pcb k ?r)) = 16"
    by (rule arrays_okD(3) [OF table_okD(4) [OF assms(1)]])
  let ?stored = "stored_name name @ 0 # drop (Suc (length (stored_name name))) (p_name (pcb k ?r))"
  have "cstr ?stored = take 63 (cstr name)"
    by (simp add: stored_name_def cstr_append_zero [OF zero_notin_stored [of name, unfolded stored_name_def]])
  moreover have "pcb k' = (pcb k)(?r := created_pcb (test_count k) ?stored entry (stack_of L (test_count k)) priority (pcb k ?r))"
    by (simp add: same_core_fields [OF k'(2)] test_created_def Let_def)
  ultimately have "\<exists>stored. cstr stored = take 63 (cstr name) \<and>
      pcb k' = (pcb k)(?r := created_pcb (test_count k) stored entry (stack_of L (test_count k)) priority (pcb k ?r))"
    by blast
  then show ?thesis
    using k'(1) t True
    by (simp add: same_core_fields(1-7,9-11) [OF k'(2)] fresh_pid_found created_pcb_record [OF fds] stack_of_def Let_def)
      (simp add: test_created_def Let_def)
next
  case False
  then show ?thesis
    using process_create_test_full [of k L "Some name" entry priority] table_ok_same_core assms(1)
    by (auto simp: Let_def)
qed

theorem process_create_test_correct_witness:
  "\<exists>p k'. process_create_test sample_layout (Some (c_literal ''shell'')) 0x200200 PRIORITY_NORMAL zero_kstate =
     Some (p, k') \<and> p = Some (Test_pcb 0) \<and> process_find_by_pid 1 k' = p \<and>
     p_priority (pcb k' (Test_pcb 0)) = PRIORITY_NORMAL \<and> p_stack_base (pcb k' (Test_pcb 0)) = 0x300000"
proof -
  have t: "test_count zero_kstate = 0" by (simp add: zero_kstate_def)
  show ?thesis
    using process_create_test_correct [OF zero_kstate_table terminated_c_literal,
        of sample_layout "''shell''" "0x200200" PRIORITY_NORMAL] by (auto simp: t Let_def sample_layout_def)
qed

text \<open>
  \<open>process_create\<close>, whose stacks are the only use of the heap, never runs out of memory: it
  fails exactly for the eleventh process. Otherwise it takes 4100 bytes, and the new block gets
  the stack after the header as its stack with the stack pointer in its last word.
\<close>

theorem process_create_correct:
  assumes "table_ok k" and "pool_ok k" and "terminated name"
  shows "\<exists>p k'. process_create L (Some name) entry priority k = Some (p, k') \<and> table_ok k' \<and> pool_ok k' \<and>
    (if create_count k < 10
     then p = Some (Create_pcb (create_count k)) \<and>
          process_find_by_pid (of_nat (create_count k) + 1) k' = p \<and>
          p_pid (pcb k' (Create_pcb (create_count k))) = of_nat (create_count k) + 1 \<and>
          p_state (pcb k' (Create_pcb (create_count k))) = PROCESS_READY \<and>
          r_eip (p_cpu_state (pcb k' (Create_pcb (create_count k)))) = entry \<and>
          p_stack_base (pcb k' (Create_pcb (create_count k))) = heap_current (heap k) + 4 \<and>
          r_esp (p_cpu_state (pcb k' (Create_pcb (create_count k)))) = heap_current (heap k) + 4096 \<and>
          unat (heap_current (heap k')) = unat (heap_current (heap k)) + 4100 \<and>
          (\<forall>r. r \<noteq> Create_pcb (create_count k) \<longrightarrow> pcb k' r = pcb k r) \<and>
          create_count k' = create_count k + 1
     else p = None \<and> same_core k' k)"
proof (cases "create_count k < 10")
  case True
  obtain k' where k': "process_create L (Some name) entry priority k = Some (Some (Create_pcb (create_count k)), k')"
    "same_core k' (pool_created name entry priority k)"
    using process_create_creates [OF assms(2) True assms(3)] arrays_okD(1) [OF table_okD(4) [OF assms(1)]] by blast
  have inv: "table_ok k'" "pool_ok k'"
    using k'(2) table_ok_same_core table_ok_pool_created [OF assms(1) True]
      pool_ok_same_core pool_ok_created [OF assms(2) True] by blast+
  then have "unat (heap_current (heap k')) = unat (heap_current (heap k)) + 4100"
    using assms(2) by (simp add: pool_ok_def same_core_fields [OF k'(2)])
  with k'(1) inv show ?thesis
    using True by (simp add: same_core_fields [OF k'(2)] fresh_pid_found)
next
  case False
  then show ?thesis
    using process_create_full [of k L name entry priority] assms(1,2)
    by (auto simp: table_ok_same_core pool_ok_same_core)
qed

theorem process_create_correct_witness:
  "\<exists>p k'. process_create sample_layout (Some (c_literal ''counter'')) 0x200200 PRIORITY_NORMAL zero_kstate =
     Some (p, k') \<and> p = Some (Create_pcb 0) \<and> p_stack_base (pcb k' (Create_pcb 0)) = 0x100004"
proof -
  have t: "create_count zero_kstate = 0" "heap_current (heap zero_kstate) = 0x100000"
    by (simp_all add: zero_kstate_def boot_heap_def)
  show ?thesis
    using process_create_correct [OF zero_kstate_table zero_kstate_pool terminated_c_literal,
        of sample_layout "''counter''" "0x200200" PRIORITY_NORMAL] by (auto simp: t)
qed

text \<open>
  C33. The first \<open>process_create\<close> overwrites the kernel: the heap starts at the address the linker
  script places the image at, so the stack of the first process is the 4096 bytes from the fifth byte of
  the image on. They are zeroed, and the four bytes before them become the size of the block.
\<close>

theorem create_overwrites_image:
  assumes "pool_ok k" and "create_count k = 0" and "terminated name"
    and "length (p_name (pcb k (Create_pcb 0))) = 64"
  shows "\<exists>k'. process_create L (Some name) entry priority k = Some (Some (Create_pcb 0), k') \<and>
    p_stack_base (pcb k' (Create_pcb 0)) = IMAGE_START + 4 \<and> p_stack_size (pcb k' (Create_pcb 0)) = 4096 \<and>
    read32 (ram (heap k')) IMAGE_START = 4096 \<and>
    (\<forall>i < 4096. ram (heap k') (IMAGE_START + 4 + of_nat i) = 0)"
proof -
  have h: "heap_current (heap k) = 0x100000" "heap_ok (heap k)"
    using assms(1,2) by (simp_all add: pool_ok_def word_eq_unat)
  obtain k' where k': "process_create L (Some name) entry priority k = Some (Some (Create_pcb 0), k')"
    "same_core k' (pool_created name entry priority k)"
    using process_create_creates [OF assms(1) _ assms(3), of L entry priority] assms(2,4) by auto
  have f: "fits 4096 (heap k)" using pool_fits assms(1,2) by simp
  have r: "ram (heap k') = ram (take_block 4096 (heap k))"
    by (simp add: same_core_fields [OF k'(2)] pool_created_def Let_def)
  have "ram (heap k') (IMAGE_START + 4 + of_nat i) = 0" if "i < 4096" for i
    using take_block_memory(1) [OF h(2) f, of i] that h(1) by (simp add: r IMAGE_START_def)
  moreover have "read32 (ram (heap k')) IMAGE_START = 4096"
    using take_block_memory(2) [OF h(2) f] h(1) by (simp add: r IMAGE_START_def)
  moreover have "pcb k' (Create_pcb 0) = pcb (pool_created name entry priority k) (Create_pcb (create_count k))"
    using assms(2) by (simp add: same_core_fields [OF k'(2)])
  then have "p_stack_base (pcb k' (Create_pcb 0)) = IMAGE_START + 4" "p_stack_size (pcb k' (Create_pcb 0)) = 4096"
    by (simp_all only: pool_created_fields(5) created_pcb_fields h(1)) (simp add: IMAGE_START_def)
  ultimately show ?thesis using k'(1) by blast
qed

text \<open>In a memory full of code bytes.\<close>

theorem create_overwrites_image_witness:
  "\<exists>k k'. (\<forall>a. ram (heap k) a = 0x90) \<and>
     process_create sample_layout (Some (c_literal ''counter'')) 0x200200 PRIORITY_NORMAL k =
     Some (Some (Create_pcb 0), k') \<and> p_stack_base (pcb k' (Create_pcb 0)) = IMAGE_START + 4 \<and>
     ram (heap k') (IMAGE_START + 4) = 0"
proof -
  let ?k = "zero_kstate\<lparr>heap := boot_heap\<lparr>ram := \<lambda>_. 0x90\<rparr>\<rparr>"
  have "pool_ok ?k" by (simp add: pool_ok_def heap_ok_def boot_heap_def zero_kstate_def)
  moreover have "create_count ?k = 0" "length (p_name (pcb ?k (Create_pcb 0))) = 64"
    by (simp_all add: zero_kstate_def zero_process_def)
  ultimately obtain k' where "process_create sample_layout (Some (c_literal ''counter'')) 0x200200 PRIORITY_NORMAL ?k =
      Some (Some (Create_pcb 0), k')" "p_stack_base (pcb k' (Create_pcb 0)) = IMAGE_START + 4"
    "\<forall>i < 4096. ram (heap k') (IMAGE_START + 4 + of_nat i) = 0"
    using create_overwrites_image [OF _ _ terminated_c_literal] by blast
  then show ?thesis by (intro exI [of _ ?k] exI [of _ k']) (auto dest: spec [of _ 0])
qed

text \<open>
  C37. The two creation functions number their processes independently: after one creation by each
  from equal counts, two live blocks carry the same PID, and the table only finds the second.
\<close>

theorem pid_collision:
  assumes "table_ok k" and "pool_ok k" and "create_count k = test_count k" and "test_count k < 10"
    and "terminated name1" and "terminated name2"
  shows "\<exists>k1 k2. process_create L (Some name1) e1 q1 k = Some (Some (Create_pcb (test_count k)), k1) \<and>
    process_create_test L (Some name2) e2 q2 k1 = Some (Some (Test_pcb (test_count k)), k2) \<and>
    p_pid (pcb k2 (Create_pcb (test_count k))) = p_pid (pcb k2 (Test_pcb (test_count k))) \<and>
    p_state (pcb k2 (Create_pcb (test_count k))) = PROCESS_READY \<and>
    process_find_by_pid (of_nat (test_count k) + 1) k2 = Some (Test_pcb (test_count k))"
proof -
  obtain k1 where k1: "process_create L (Some name1) e1 q1 k = Some (Some (Create_pcb (test_count k)), k1)"
    "same_core k1 (pool_created name1 e1 q1 k)"
    using process_create_creates [OF assms(2) _ assms(5), of L e1 q1] assms(3,4)
      arrays_okD(1) [OF table_okD(4) [OF assms(1)]] by auto
  have t: "table_ok k1" and c: "test_count k1 = test_count k"
    using k1(2) table_ok_same_core table_ok_pool_created [OF assms(1)] assms(3,4)
    by (auto simp: same_core_fields)
  obtain k2 where k2: "process_create_test L (Some name2) e2 q2 k1 = Some (Some (Test_pcb (test_count k1)), k2)"
    "same_core k2 (test_created L name2 e2 q2 k1)"
    using process_create_test_creates [OF _ assms(6), of k1 L e2 q2] assms(4) c
      arrays_okD(1) [OF table_okD(4) [OF t]] by auto
  have "p_pid (pcb k2 (Create_pcb (create_count k))) = of_nat (create_count k) + 1"
    "p_state (pcb k2 (Create_pcb (create_count k))) = PROCESS_READY"
    by (simp_all add: same_core_fields [OF k2(2)] same_core_fields [OF k1(2)])
  moreover have "test_count k1 < 10" using assms(4) c by simp
  then have "p_pid (pcb k2 (Test_pcb (test_count k1))) = of_nat (test_count k1) + 1"
    "process_find_by_pid (of_nat (test_count k1) + 1) k2 = Some (Test_pcb (test_count k1))"
    by (simp_all add: same_core_fields [OF k2(2)] fresh_pid_found)
  ultimately show ?thesis
    using k1(1) k2(1) assms(3) by (simp add: c)
qed

theorem pid_collision_witness:
  "\<exists>k1 k2. process_create sample_layout (Some (c_literal ''a'')) 1 PRIORITY_LOW zero_kstate =
      Some (Some (Create_pcb 0), k1) \<and>
    process_create_test sample_layout (Some (c_literal ''b'')) 2 PRIORITY_LOW k1 = Some (Some (Test_pcb 0), k2) \<and>
    p_pid (pcb k2 (Create_pcb 0)) = p_pid (pcb k2 (Test_pcb 0))"
proof -
  have t: "create_count zero_kstate = test_count zero_kstate" "test_count zero_kstate < 10"
    "test_count zero_kstate = 0"
    by (simp_all add: zero_kstate_def)
  show ?thesis
    using pid_collision [OF zero_kstate_table zero_kstate_pool t(1,2) terminated_c_literal terminated_c_literal,
        of sample_layout "''a''" 1 PRIORITY_LOW "''b''" 2 PRIORITY_LOW] by (auto simp: t(3))
qed

text \<open>
  C16. Killing a process without a heap of its own (no code gives it one). PID 1 and the kernel process
  are refused and an unknown PID is reported, all with no effect but a message. Otherwise the result
  hangs on \<open>kfree\<close> of its stack: undefined when that is, and else exactly this changes: the heap as
  \<open>kfree\<close> leaves it, the block, TERMINATED and without a stack, and the table entry, cleared. So
  the block keeps its place in the ready queue.
\<close>

theorem process_kill_correct:
  assumes "\<And>r. process_find_by_pid pid k = Some r \<Longrightarrow> p_heap_base (pcb k r) = 0"
  shows "case process_find_by_pid pid k of
       None \<Rightarrow> \<exists>k'. process_kill_by_pid L pid k = Some (if pid = 1 then PROCESS_PROTECTED else PROCESS_NOT_FOUND, k') \<and>
                same_core k' k
     | Some r \<Rightarrow>
         if pid = 1 \<or> Some r = kernel_process k
         then \<exists>k'. process_kill_by_pid L pid k = Some (PROCESS_PROTECTED, k') \<and> same_core k' k
         else (case kfree L (p_stack_base (pcb k r)) (heap k) of
             None \<Rightarrow> process_kill_by_pid L pid k = None
           | Some h \<Rightarrow> \<exists>k'. process_kill_by_pid L pid k = Some (PROCESS_SUCCESS, k') \<and>
               k' = k\<lparr>heap := h,
                 pcb := (pcb k)(r := pcb k r\<lparr>p_stack_base := 0,
                   p_stack_size := (if p_stack_base (pcb k r) = 0 then p_stack_size (pcb k r) else 0),
                   p_state := PROCESS_TERMINATED\<rparr>),
                 process_table := (process_table k)(pid := None)\<rparr> \<and>
               process_find_by_pid pid k' = None \<and> (\<forall>xs. queue_rep k' xs = queue_rep k xs))"
proof (cases "process_find_by_pid pid k")
  case None
  then show ?thesis by (auto simp: process_kill_by_pid_def same_core_def)
next
  case (Some r)
  show ?thesis
  proof (cases "pid = 1 \<or> Some r = kernel_process k")
    case True
    then show ?thesis using Some by (auto simp: process_kill_by_pid_def same_core_def)
  next
    case False
    show ?thesis
    proof (cases "kfree L (p_stack_base (pcb k r)) (heap k)")
      case None
      moreover from None have "p_stack_base (pcb k r) \<noteq> 0" by (auto simp: kfree_def)
      ultimately have "process_kill_by_pid L pid k = None"
        using Some False by (auto simp: process_kill_by_pid_def free_region_def)
      then show ?thesis using Some False None by simp
    next
      case (Some h)
      let ?k = "k\<lparr>heap := h,
          pcb := (pcb k)(r := pcb k r\<lparr>p_stack_base := 0,
            p_stack_size := (if p_stack_base (pcb k r) = 0 then p_stack_size (pcb k r) else 0),
            p_state := PROCESS_TERMINATED\<rparr>),
          process_table := (process_table k)(pid := None)\<rparr>"
      have f: "process_find_by_pid pid k = Some r" by fact
      have "process_kill_by_pid L pid k = Some (PROCESS_SUCCESS, ?k)"
        using process_kill_killable [OF f _ _ Some] False assms [OF f] by blast
      moreover have "queue_rep ?k xs = queue_rep k xs" for xs
        by (rule queue_rep_cong) simp_all
      ultimately show ?thesis using f Some False by (simp add: process_find_by_pid_def)
    qed
  qed
qed

text \<open>A state with two processes of which the first is the kernel's.\<close>

definition two_processes :: kstate where
  "two_processes = (test_created sample_layout (c_literal ''user'') 0x200200 PRIORITY_NORMAL
     (test_created sample_layout (c_literal ''kernel_idle'') 0x200500 PRIORITY_LOW zero_kstate))
       \<lparr>kernel_process := Some (Test_pcb 0), current_process := Some (Test_pcb 0)\<rparr>"

lemma two_processes_fields:
  "process_table two_processes = [1 \<mapsto> Test_pcb 0, 2 \<mapsto> Test_pcb (Suc 0)]"
  "kernel_process two_processes = Some (Test_pcb 0)" "current_process two_processes = Some (Test_pcb 0)"
  "heap two_processes = boot_heap" "p_stack_base (pcb two_processes (Test_pcb (Suc 0))) = 0x301000"
  "p_heap_base (pcb two_processes (Test_pcb (Suc 0))) = 0"
  "ready_queue_head two_processes = None" "ready_queue_tail two_processes = None"
  "p_state (pcb two_processes (Test_pcb (Suc 0))) = PROCESS_READY"
  "p_state (pcb two_processes (Test_pcb 0)) = PROCESS_READY"
  "unlinked two_processes (Test_pcb (Suc 0))" "p_heap_base (pcb two_processes (Test_pcb 0)) = 0"
  by (auto simp: two_processes_def test_created_def Let_def zero_kstate_def stack_of_def sample_layout_def
      unlinked_def)

lemma find_two: "process_find_by_pid 2 two_processes = Some (Test_pcb (Suc 0))"
  by (simp add: process_find_by_pid_def two_processes_fields)

lemma kfree_sample_stack: "kfree sample_layout 0x301000 boot_heap = Some boot_heap"
  by (simp add: kfree_def Let_def accessible_def inside_def sample_layout_def read32_def boot_heap_def fill_bytes_def)

lemma kill_two_heap:
  "process_find_by_pid 2 two_processes = Some r \<Longrightarrow>
   kfree sample_layout (p_stack_base (pcb two_processes r)) (heap two_processes) = Some boot_heap \<and>
   p_heap_base (pcb two_processes r) = 0"
  by (auto simp: find_two two_processes_fields kfree_sample_stack)

lemma preempt_keeps_stack [simp]: "p_stack_base (pcb (preempt_current k) r) = p_stack_base (pcb k r)"
proof (cases "current_process k")
  case (Some c)
  let ?k = "upd_pcb c (\<lambda>p. p\<lparr>p_state := PROCESS_READY\<rparr>) k"
  have "unlink (pcb (add_to_ready_queue (Some c) (remove_from_ready_queue (Some c) ?k)) r) = unlink (pcb ?k r)" by simp
  from unlink_eqD [OF this] show ?thesis by (simp add: preempt_current_def Some Let_def)
qed (simp add: preempt_current_def)

lemma two_processes_heaps: "process_find_by_pid pid two_processes = Some r \<Longrightarrow> p_heap_base (pcb two_processes r) = 0"
  by (auto simp: process_find_by_pid_def two_processes_fields split: if_splits)

theorem process_kill_correct_witness:
  "(\<exists>k'. process_kill_by_pid sample_layout 2 two_processes = Some (PROCESS_SUCCESS, k') \<and>
        process_find_by_pid 2 k' = None \<and> current_process k' = Some (Test_pcb 0)) \<and>
   (\<exists>k'. process_kill_by_pid sample_layout 1 two_processes = Some (PROCESS_PROTECTED, k') \<and>
        process_find_by_pid 1 k' = Some (Test_pcb 0))"
proof -
  have f: "process_find_by_pid 1 two_processes = Some (Test_pcb 0)"
    by (simp add: process_find_by_pid_def two_processes_fields not_le)
  note kill = process_kill_correct [of _ two_processes sample_layout]
  have "\<exists>k'. process_kill_by_pid sample_layout 1 two_processes = Some (PROCESS_PROTECTED, k') \<and> same_core k' two_processes"
    using kill [of 1] two_processes_heaps [of 1] by (simp add: f)
  then have "\<exists>k'. process_kill_by_pid sample_layout 1 two_processes = Some (PROCESS_PROTECTED, k') \<and>
      process_find_by_pid 1 k' = Some (Test_pcb 0)"
    using f by (auto simp: process_find_by_pid_def same_core_fields)
  then show ?thesis
    using kill [of 2] two_processes_heaps [of 2] by (auto simp: find_two two_processes_fields kfree_sample_stack)
qed

text \<open>
  C35. A killed process still runs: the queue is not told, so if the victim was first in it and another
  process (or none) is current, the next \<open>schedule\<close>, preempting that one or not, makes it RUNNING and
  current again and switches to it, although it has no stack and is not in the process table.
\<close>

theorem killed_process_scheduled:
  assumes "process_find_by_pid pid k = Some r" and "pid \<noteq> 1" and "Some r \<noteq> kernel_process k"
    and "kfree L (p_stack_base (pcb k r)) (heap k) = Some h" and "p_heap_base (pcb k r) = 0"
    and "queue_rep k (r # xs)" and "current_process k \<noteq> Some r"
  shows "\<exists>k'. process_kill_by_pid L pid k = Some (PROCESS_SUCCESS, k') \<and>
    current_process (fst (schedule k')) = Some r \<and>
    p_state (pcb (fst (schedule k')) r) = PROCESS_RUNNING \<and>
    p_stack_base (pcb (fst (schedule k')) r) = 0 \<and>
    process_find_by_pid pid (fst (schedule k')) = None \<and>
    snd (schedule k') = (case current_process k of None \<Rightarrow> Switch_to_process r | Some c \<Rightarrow> Context_switch c r)"
proof -
  obtain k' where k': "process_kill_by_pid L pid k = Some (PROCESS_SUCCESS, k')"
    "ready_queue_head k' = Some r" "current_process k' = current_process k"
    "p_stack_base (pcb k' r) = 0" "process_find_by_pid pid k' = None"
    using process_kill_killable [OF assms(1-5)] queue_rep_head [OF assms(6)]
    by (simp add: process_find_by_pid_def)
  have "p_stack_base (pcb (preempt_current k') r) = 0"
    using k'(4) preempt_keeps_stack by simp
  then have "p_stack_base (pcb (remove_from_ready_queue (Some r) (preempt_current k')) r) = 0"
    using unlink_eqD [OF remove_from_ready_queue_unlink, of "Some r" "preempt_current k'" r] by simp
  moreover have "current_process k' \<noteq> Some r" using k'(3) assms(7) by simp
  ultimately show ?thesis
    using k' by (intro exI [of _ k']) (auto simp: schedule_def Let_def process_find_by_pid_def)
qed

theorem killed_process_scheduled_witness:
  "\<exists>k'. process_kill_by_pid sample_layout 2 (add_to_ready_queue (Some (Test_pcb (Suc 0))) two_processes) =
          Some (PROCESS_SUCCESS, k') \<and>
        current_process (fst (schedule k')) = Some (Test_pcb (Suc 0)) \<and>
        snd (schedule k') = Context_switch (Test_pcb 0) (Test_pcb (Suc 0))"
proof -
  let ?k = "add_to_ready_queue (Some (Test_pcb (Suc 0))) two_processes"
  have u: "unlink (pcb ?k (Test_pcb (Suc 0))) = unlink (pcb two_processes (Test_pcb (Suc 0)))" by simp
  have h: "p_heap_base p = p_heap_base q" if "unlink p = unlink q" for p q
    using that by (cases p; cases q) (simp add: unlink_def)
  have "queue_rep two_processes []" by (simp add: queue_rep_Nil two_processes_fields)
  then have q: "queue_rep ?k [Test_pcb (Suc 0)]"
    using add_to_ready_queue_rep [of two_processes "[]" "Test_pcb (Suc 0)"] by (simp add: two_processes_fields)
  have c: "current_process ?k = Some (Test_pcb 0)" "process_find_by_pid 2 ?k = Some (Test_pcb (Suc 0))"
    "kernel_process ?k = Some (Test_pcb 0)"
    using find_two by (simp_all add: process_find_by_pid_def two_processes_fields)
  have "kfree sample_layout (p_stack_base (pcb ?k (Test_pcb (Suc 0)))) (heap ?k) = Some boot_heap"
    "p_heap_base (pcb ?k (Test_pcb (Suc 0))) = 0"
    using unlink_eqD [OF u] h [OF u] kill_two_heap [OF find_two] by simp_all
  then show ?thesis
    using killed_process_scheduled [OF c(2) _ _ _ _ q] c by auto
qed

text \<open>The stack of \<open>Test_pcb (Suc n)\<close> begins right after the last word of the stack of \<open>Test_pcb n\<close>.\<close>

lemma unat_test_stack:
  assumes "layout_ok L" and "n < 10"
  shows "unat (stacks_addr L + 4096 * of_nat n) = unat (stacks_addr L) + 4096 * n"
proof -
  have "unat (of_nat (4096 * n) :: u32) = 4096 * n" using assms(2) by (intro unat_of_nat_u32) simp
  then have "unat (4096 * of_nat n :: u32) = 4096 * n" by simp
  then show ?thesis using assms by (subst unat_plus_u32) (simp_all add: layout_ok_def)
qed

lemma kfree_test_stack:
  assumes "layout_ok L" and "Suc n < 10"
  defines "stack \<equiv> stacks_addr L + 4096 * of_nat (Suc n)"
  shows "kfree L stack h =
    (if accessible L stack (unat (read32 (ram h) (stack - 4)))
     then Some (h\<lparr>ram := fill_bytes stack 0xDE (unat (read32 (ram h) (stack - 4))) (ram h)\<rparr>) else None)"
proof -
  have u: "unat stack = unat (stacks_addr L) + 4096 * Suc n"
    unfolding stack_def by (rule unat_test_stack [OF assms(1,2)])
  then have "4 \<le> stack" by (simp add: word_le_nat_alt)
  then have "unat (stack - 4) = unat stack - 4" by (simp add: unat_sub)
  then have "accessible L (stack - 4) 4" using u assms(2) by (simp add: accessible_def inside_def)
  moreover have "stack \<noteq> 0" using u by auto
  ultimately show ?thesis by (simp add: kfree_def Let_def)
qed

text \<open>
  C17. Killing a process that has a static stack overwrites as many bytes as the word at the top of the
  neighbouring stack says, the word the stack pointer of the previous process starts at: \<open>kfree\<close> takes it
  for the size of a heap block. The kill has undefined behaviour exactly if that many bytes do not fit.
\<close>

theorem kill_trusts_neighbour_stack:
  assumes "layout_ok L" and "Suc n < 10" and "process_find_by_pid pid k = Some (Test_pcb (Suc n))"
    and "pid \<noteq> 1" and "kernel_process k \<noteq> Some (Test_pcb (Suc n))"
    and "p_stack_base (pcb k (Test_pcb (Suc n))) = stacks_addr L + 4096 * of_nat (Suc n)"
    and "p_heap_base (pcb k (Test_pcb (Suc n))) = 0"
    and "r_esp (p_cpu_state (pcb k (Test_pcb n))) = stacks_addr L + 4096 * of_nat n + 4096 - 4"
    and "w = read32 (ram (heap k)) (r_esp (p_cpu_state (pcb k (Test_pcb n))))"
  shows "if accessible L (stacks_addr L + 4096 * of_nat (Suc n)) (unat w)
    then \<exists>k'. process_kill_by_pid L pid k = Some (PROCESS_SUCCESS, k') \<and>
      (\<forall>i < unat w. ram (heap k') (stacks_addr L + 4096 * of_nat (Suc n) + of_nat i) = 0xDE)
    else process_kill_by_pid L pid k = None"
proof -
  let ?s = "stacks_addr L + 4096 * of_nat (Suc n)"
  have w: "w = read32 (ram (heap k)) (?s - 4)" using assms(8,9) by (simp add: algebra_simps)
  note f = kfree_test_stack [OF assms(1,2), of "heap k", folded w]
  show ?thesis
  proof (cases "accessible L ?s (unat w)")
    case True
    let ?h = "(heap k)\<lparr>ram := fill_bytes ?s 0xDE (unat w) (ram (heap k))\<rparr>"
    have "kfree L (p_stack_base (pcb k (Test_pcb (Suc n)))) (heap k) = Some ?h"
      using f True assms(6) by simp
    from process_kill_killable [OF assms(3,4) assms(5) [symmetric] this assms(7)]
    obtain k' where k': "process_kill_by_pid L pid k = Some (PROCESS_SUCCESS, k')" "heap k' = ?h" by simp
    have "ram (heap k') (?s + of_nat i) = 0xDE" if "i < unat w" for i
    proof -
      have "i < 4294967296" using that unat_lt_u32 [of w] by simp
      then show ?thesis using that unat_lt_u32 [of w] by (simp add: k'(2) fill_bytes_apply)
    qed
    then show ?thesis using True k'(1) by simp
  next
    case False
    then have "kfree L (p_stack_base (pcb k (Test_pcb (Suc n)))) (heap k) = None" using f assms(6) by simp
    moreover have "?s \<noteq> 0" using unat_test_stack [OF assms(1,2)] by auto
    ultimately show ?thesis
      using False assms(3-6) by (auto simp: process_kill_by_pid_def Let_def free_region_def)
  qed
qed

theorem kill_trusts_neighbour_stack_witness:
  "\<exists>k'. process_kill_by_pid sample_layout 2
          (two_processes\<lparr>heap := boot_heap\<lparr>ram := write32 0x300FFC 8 (\<lambda>_. 0)\<rparr>\<rparr>) = Some (PROCESS_SUCCESS, k') \<and>
        ram (heap k') 0x301007 = 0xDE"
proof -
  let ?k = "two_processes\<lparr>heap := boot_heap\<lparr>ram := write32 0x300FFC 8 (\<lambda>_. 0)\<rparr>\<rparr>"
  have "process_find_by_pid 2 ?k = Some (Test_pcb (Suc 0))" using find_two by (simp add: process_find_by_pid_def)
  moreover have "r_esp (p_cpu_state (pcb ?k (Test_pcb 0))) = 0x300FFC"
    by (simp add: two_processes_def test_created_def Let_def zero_kstate_def stack_of_def sample_layout_def)
  ultimately show ?thesis
    using kill_trusts_neighbour_stack [OF sample_layout_ok, of 0 2 ?k 8]
    by (auto simp: two_processes_fields sample_layout_def read32_write32 accessible_def inside_def dest!: spec [of _ 7])
qed

text \<open>
  C36. \<open>process_cleanup\<close> clears the block and the table entry of its PID. A queued block is taken out
  of the queue; for a block that is not queued, the whole ready queue is lost.
\<close>

theorem process_cleanup_correct:
  assumes "table_ok k" and "queue_rep k xs" and "r \<in> set xs \<or> unlinked k r"
  shows "queue_rep (process_cleanup (Some r) k) (if r \<in> set xs then remove1 r xs else []) \<and>
         pcb (process_cleanup (Some r) k) r = zero_process \<and>
         process_find_by_pid (p_pid (pcb k r)) (process_cleanup (Some r) k) = None \<and>
         (\<forall>i. process_table (process_cleanup (Some r) k) i \<noteq> Some r) \<and>
         table_ok (process_cleanup (Some r) k)"
proof -
  let ?t = "if p_pid (pcb k r) < MAX_PROCESSES then set_table (p_pid (pcb k r)) None k else k"
  have c: "process_cleanup (Some r) k = upd_pcb r (\<lambda>_. zero_process) (remove_from_ready_queue (Some r) ?t)"
    by (simp add: process_cleanup_def Let_def)
  have t: "queue_rep ?t xs" using assms(2) queue_rep_cong [of ?t k xs] by simp
  have "queue_rep (process_cleanup (Some r) k) (if r \<in> set xs then remove1 r xs else [])"
  proof (cases "r \<in> set xs")
    case True
    then have "queue_rep (remove_from_ready_queue (Some r) ?t) (remove1 r xs)" "r \<notin> set (remove1 r xs)"
      using remove_from_ready_queue_rep [OF t] queue_rep_distinct [OF t] by auto
    then show ?thesis using True queue_rep_fresh [of "remove_from_ready_queue (Some r) ?t" "remove1 r xs" r]
      by (simp only: c if_True) simp
  next
    case False
    then have "unlinked ?t r" using assms(3) by (simp add: unlinked_def)
    then show ?thesis using False by (simp only: c remove_unlinked) (simp add: queue_rep_Nil)
  qed
  moreover have "process_table k i \<noteq> Some r \<or> i = p_pid (pcb k r) \<and> i < 256" for i
    using table_okD(1) [OF assms(1), of i r] by (auto simp: word_less_nat_alt word_le_nat_alt)
  then have "process_table (process_cleanup (Some r) k) i \<noteq> Some r" for i
    by (auto simp: process_cleanup_def Let_def split: if_splits)
  moreover have "pcb (process_cleanup (Some r) k) r = zero_process"
    "process_find_by_pid (p_pid (pcb k r)) (process_cleanup (Some r) k) = None"
    by (simp_all add: c process_find_by_pid_def not_le)
  ultimately show ?thesis
    using table_ok_cleanup [OF assms(1)] by blast
qed

theorem process_cleanup_correct_witness:
  "queue_rep (process_cleanup (Some (Test_pcb 5)) two_ready) []"
proof -
  have "table_ok two_ready" by (simp add: two_ready_def zero_kstate_table kinv)
  moreover have "unlinked two_ready (Test_pcb 5)"
    by (simp add: two_ready_def unlinked_def add_to_ready_queue_def Let_def zero_kstate_def zero_process_def)
  ultimately show ?thesis
    using process_cleanup_correct [of two_ready, OF _ two_ready_queue, of "Test_pcb 5"] by simp
qed

text \<open>
  \<open>process_allocate_pid\<close> returns a PID in 1 to 255 that no table entry uses and moves
  \<open>next_pid\<close> behind it, or 0, changing nothing, exactly when all of them are taken.
\<close>

theorem process_allocate_pid_correct:
  assumes "next_pid k \<noteq> 0"
  shows "if \<exists>i. 0 < i \<and> i < 256 \<and> process_table k i = None
         then (\<exists>pid. process_allocate_pid k = (pid, k\<lparr>next_pid := pid + 1\<rparr>) \<and>
                 0 < pid \<and> pid < 256 \<and> process_find_by_pid pid k = None)
         else process_allocate_pid k = (0, k)"
proof (cases "next_pid k < 256 \<and> process_table k (next_pid k) = None")
  case True
  then show ?thesis
    using assms by (auto simp: process_allocate_pid_def Let_def process_find_by_pid_def word_neq_0_conv)
next
  case False
  show ?thesis
  proof (cases "find (\<lambda>pid. process_table k (of_nat pid) = None) [1..<256]")
    case None
    then show ?thesis using False allocate_pid_scan [of k] by (auto simp: process_allocate_pid_def)
  next
    case (Some n)
    then have n: "process_table k (of_nat n) = None" "1 \<le> n" "n < 256"
      using find_Some_first by fastforce+
    then have "0 < (of_nat n :: u32)" "(of_nat n :: u32) < 256" by (simp_all add: word_less_nat_alt)
    with n Some False show ?thesis
      by (auto simp: process_allocate_pid_def process_find_by_pid_def intro!: exI [of _ "of_nat n"])
  qed
qed

theorem process_allocate_pid_correct_witness:
  "if \<exists>i. 0 < i \<and> i < 256 \<and> process_table two_processes i = None
   then (\<exists>pid. process_allocate_pid two_processes = (pid, two_processes\<lparr>next_pid := pid + 1\<rparr>) \<and>
           0 < pid \<and> pid < 256 \<and> process_find_by_pid pid two_processes = None)
   else process_allocate_pid two_processes = (0, two_processes)"
proof -
  have "next_pid two_processes = 1"
    by (simp add: two_processes_def test_created_def zero_kstate_def Let_def)
  then show ?thesis using process_allocate_pid_correct [of two_processes] by simp
qed

lemma table_ok_names: "table_ok k \<Longrightarrow> terminated (p_name (pcb k r))"
  using arrays_ok_terminated table_okD(4) by blast

lemma process_list_all_ok:
  assumes "table_ok k"
  shows "\<exists>k'. process_list_all k = Some k' \<and> same_core k' k"
proof -
  let ?k = "kputs (''---'' @ tab @ ''----'' @ tab @ tab @ ''-----'' @ tab @ tab @ ''------\<newline>'')
    (kputs (''PID'' @ tab @ ''NAME'' @ tab @ tab @ ''STATE'' @ tab @ tab @ ''MEMORY\<newline>'')
      (kputs ''Process List:\<newline>'' k))"
  obtain m k' where "list_rows (map of_nat [0..<256]) 0 ?k = Some (m, k')" "same_core k' ?k"
    using list_rows_ok [of ?k "map of_nat [0..<256]" 0] table_ok_names [OF assms] by auto
  then show ?thesis
    by (auto simp: process_list_all_def Let_def same_core_def simp del: upt_conv_Cons)
qed

lemma process_print_info_ok:
  assumes "table_ok k"
  shows "\<exists>k'. process_print_info (Some r) k = Some k' \<and> same_core k' k"
proof -
  let ?p = "kputs ''  Name: '' (kputs ''\<newline>'' (kput_dec2 (p_pid (pcb k r)) (kputs ''  PID: '' (kputs ''Process Info:\<newline>'' k))))"
  obtain k1 where "kprint (p_name (pcb k r)) ?p = Some k1" "same_core k1 k"
    using kprint_terminated [OF table_ok_names [OF assms], of r ?p] by (auto simp: same_core_def)
  then show ?thesis
    by (simp add: process_print_info_def Let_def)
qed

text \<open>
  The listings never read past a name buffer: with a well formed table \<open>process_list_all\<close> and
  \<open>process_print_info\<close> of any block return, and they change the screen only.
\<close>

theorem process_listings_safe:
  assumes "table_ok k"
  shows "(\<exists>k'. process_list_all k = Some k' \<and> same_core k' k) \<and>
         (\<exists>k'. process_print_info (Some r) k = Some k' \<and> same_core k' k)"
  using process_list_all_ok process_print_info_ok assms by blast

theorem process_listings_safe_witness:
  "\<exists>k'. process_list_all zero_kstate = Some k' \<and> same_core k' zero_kstate"
  using process_listings_safe [OF zero_kstate_table, of "Test_pcb 0"] by blast

lemma clear_table_loop:
  "process_table (for_loop 0 n (\<lambda>i. set_table (of_nat i) None) k) i =
     (if \<exists>j < n. i = of_nat j then None else process_table k i)"
proof (induction n)
  case (Suc n)
  then show ?case by (auto simp: for_loop_Suc less_Suc_eq)
qed simp

lemma below_256: "(\<exists>j < 256. (i :: u32) = of_nat j) \<longleftrightarrow> i < 256"
proof
  assume "i < 256"
  then show "\<exists>j < 256. i = of_nat j" by (intro exI [of _ "unat i"]) (simp add: word_less_nat_alt)
next
  assume "\<exists>j < 256. i = of_nat j"
  then obtain j where "j < 256" "unat i = j" using unat_of_nat_u32 by auto
  then show "i < 256" by (simp add: word_less_nat_alt)
qed

lemma clear_table_fields:
  "create_count (for_loop 0 n (\<lambda>i. set_table (of_nat i) None) k) = create_count k"
  "test_count (for_loop 0 n (\<lambda>i. set_table (of_nat i) None) k) = test_count k"
  "pcb (for_loop 0 n (\<lambda>i. set_table (of_nat i) None) k) = pcb k"
  "heap (for_loop 0 n (\<lambda>i. set_table (of_nat i) None) k) = heap k"
  "timer_ticks (for_loop 0 n (\<lambda>i. set_table (of_nat i) None) k) = timer_ticks k"
  by (rule for_loop_const, simp)+

lemma process_init_fields [simp]:
  "process_table (process_init k) i = (if i < 256 then None else process_table k i)"
  "current_process (process_init k) = None" "kernel_process (process_init k) = None"
  "ready_queue_head (process_init k) = None" "ready_queue_tail (process_init k) = None"
  "next_pid (process_init k) = 1" "create_count (process_init k) = create_count k"
  "test_count (process_init k) = test_count k" "pcb (process_init k) = pcb k"
  "heap (process_init k) = heap k" "timer_ticks (process_init k) = timer_ticks k"
  by (simp_all add: process_init_def Let_def clear_table_loop below_256 clear_table_fields)

text \<open>
  Creation keeps the table well formed whatever it is given: no name, a name without a NUL, a heap in any
  state. The copy never reaches the last byte of the name buffer.
\<close>

lemma copy_name_keeps:
  "copy_name i name dest = Some (d, j) \<Longrightarrow> i \<le> 63 \<Longrightarrow> length dest = 64 \<Longrightarrow>
   length d = 64 \<and> last d = last dest \<and> j \<le> 63"
proof (induction name arbitrary: i dest)
  case Nil
  then show ?case by (subst (asm) copy_name.simps) (simp split: if_splits)
next
  case (Cons c cs)
  show ?case
  proof (cases "i < 63 \<and> c \<noteq> 0")
    case True
    then have "last (dest[i := c]) = last dest" using Cons.prems(3) by (subst last_list_update) auto
    moreover have "copy_name (i + 1) cs (dest[i := c]) = Some (d, j)"
      using Cons.prems(1) True by (subst (asm) copy_name.simps) simp
    ultimately show ?thesis using Cons.IH [of "i + 1" "dest[i := c]"] Cons.prems(3) True by simp
  next
    case False
    then show ?thesis using Cons.prems by (subst (asm) copy_name.simps) (auto split: if_splits)
  qed
qed

lemma arrays_ok_created:
  assumes "arrays_ok p" and "length d = 64" and "last d = 0"
  shows "arrays_ok (created_pcb n d e s q p)"
  using assms by (simp add: arrays_ok_def)

lemma header_links:
  "p_pid (pcb_header n q p) = of_nat n + 1" "p_name (pcb_header n q p) = p_name p"
  "p_pid (pcb_links (pcb_memory s z (pcb_cpu e t (P\<lparr>p_name := m\<rparr>)))) = p_pid P"
  by (simp_all add: pcb_header_def pcb_links_def pcb_memory_def pcb_cpu_def)

lemma table_ok_create_test:
  assumes "table_ok k" and "process_create_test L name entry priority k = Some (c, k')"
  shows "table_ok k'"
proof (cases "test_count k < 10")
  case True
  let ?r = "Test_pcb (test_count k)"
  let ?b = "\<lambda>d. created_pcb (test_count k) d entry (stack_of L (test_count k)) priority (pcb k ?r)"
  let ?new = "\<lambda>d. k\<lparr>pcb := (pcb k)(?r := ?b d),
      process_table := (process_table k)(of_nat (test_count k) + 1 := Some ?r), test_count := test_count k + 1\<rparr>"
  have p: "arrays_ok (pcb k ?r)" by (rule table_okD(4) [OF assms(1)])
  obtain d i where d: "(case name of None \<Rightarrow> Some (p_name (pcb k ?r), 0) | Some m \<Rightarrow> copy_name 0 m (p_name (pcb k ?r))) = Some (d, i)"
    and k': "same_core k' (?new (d[i := 0]))"
    using assms(2) True small_pid [OF True]
    by (cases name) (auto simp: process_create_test_def Let_def header_links same_core_def created_pcb_def
        stack_of_def add.commute [of 4092] split: prod.splits if_splits)
  have "length d = 64 \<and> last d = 0 \<and> i \<le> 63"
    using d copy_name_keeps [of 0 _ "p_name (pcb k ?r)" d i] arrays_okD [OF p] by (auto split: option.splits)
  moreover from this have "d \<noteq> []" by auto
  ultimately have "length (d[i := 0]) = 64" "last (d[i := 0]) = 0" by (simp_all add: last_list_update)
  then have "arrays_ok (?b (d[i := 0]))" by (rule arrays_ok_created [OF p])
  then have "table_ok (?new (d[i := 0]))"
    using True table_okD(2) [OF assms(1)]
    by (intro table_ok_extend [OF assms(1) True not_created_next(1)]) (auto simp: created_def)
  then show ?thesis using table_ok_same_core [OF k'] by simp
next
  case False
  then show ?thesis
    using process_create_test_full [of k L name entry priority] table_ok_same_core assms by auto
qed

lemma table_ok_create:
  assumes "table_ok k" and "process_create L name entry priority k = Some (c, k')"
  shows "table_ok k'"
proof (cases "\<exists>m h s. name = Some m \<and> create_count k < 10 \<and> kmalloc L STACK_SIZE (heap k) = Some (h, s) \<and> s \<noteq> 0")
  case True
  then obtain m h s where m: "name = Some m" "create_count k < 10" "kmalloc L STACK_SIZE (heap k) = Some (h, s)" "s \<noteq> 0"
    by blast
  let ?r = "Create_pcb (create_count k)"
  let ?b = "\<lambda>d. created_pcb (create_count k) d entry s priority (pcb k ?r)"
  let ?new = "\<lambda>d. k\<lparr>heap := h, pcb := (pcb k)(?r := ?b d),
      process_table := (process_table k)(of_nat (create_count k) + 1 := Some ?r), create_count := create_count k + 1\<rparr>"
  have p: "arrays_ok (pcb k ?r)" by (rule table_okD(4) [OF assms(1)])
  obtain d i where d: "copy_name 0 m (p_name (pcb k ?r)) = Some (d, i)" and k': "same_core k' (?new d)"
    using assms(2) m small_pid [OF m(2)]
    by (auto simp: process_create_def Let_def header_links same_core_def created_pcb_def algebra_simps
        split: prod.splits if_splits)
  have "length d = 64" "last d = 0"
    using copy_name_keeps [OF d] arrays_okD [OF p] by auto
  then have "arrays_ok (?b d)" by (rule arrays_ok_created [OF p])
  then have "table_ok (?new d)"
    using m(2) table_okD(3) [OF assms(1)]
    by (intro table_ok_extend [OF assms(1) m(2) not_created_next(2)]) (auto simp: created_def)
  then show ?thesis using table_ok_same_core [OF k'] by simp
next
  case False
  then obtain h where "same_core k' (k\<lparr>heap := h\<rparr>)"
    using assms(2)
    by (auto simp: process_create_def Let_def same_core_def split: option.splits prod.splits if_splits)
  moreover have "table_ok (k\<lparr>heap := h\<rparr>)" by (rule table_ok_shrink [OF assms(1)]) simp_all
  ultimately show ?thesis using table_ok_same_core by blast
qed

lemma table_ok_upd [kinv]:
  "table_ok k \<Longrightarrow> (\<And>p. p_pid (f p) = p_pid p) \<Longrightarrow> (\<And>p. p_name (f p) = p_name p) \<Longrightarrow>
   (\<And>p. p_file_descriptors (f p) = p_file_descriptors p) \<Longrightarrow> table_ok (upd_pcb r f k)"
  by (erule table_ok_shrink) auto

lemma table_ok_globals [kinv]:
  "table_ok k \<Longrightarrow> table_ok (k\<lparr>kernel_process := q\<rparr>)" "table_ok k \<Longrightarrow> table_ok (k\<lparr>next_pid := n\<rparr>)"
  "table_ok k \<Longrightarrow> table_ok (k\<lparr>heap := h\<rparr>)" "table_ok k \<Longrightarrow> table_ok (set_table i None k)"
  "table_ok k \<Longrightarrow> table_ok (kputs s k)"
  by (erule table_ok_shrink; auto split: if_splits)+

lemma table_ok_init [kinv]: "table_ok k \<Longrightarrow> table_ok (process_init k)"
  by (erule table_ok_shrink) (auto split: if_splits)

lemma table_ok_allocate [kinv]: "table_ok k \<Longrightarrow> table_ok (snd (process_allocate_pid k))"
  by (simp add: process_allocate_pid_def Let_def kinv split: option.splits)

lemma table_ok_set_status [kinv]: "table_ok k \<Longrightarrow> table_ok (snd (process_set_status pid s k))"
  by (simp add: process_set_status_def kinv split: option.splits)

lemma table_ok_free: "table_ok k \<Longrightarrow> free_region L b k = Some k' \<Longrightarrow> table_ok k'"
  by (auto simp: free_region_def kinv)

lemma table_ok_destroy:
  assumes "table_ok k" and "process_destroy L p k = Some k'"
  shows "table_ok k'"
proof (cases p)
  case (Some r)
  let ?k = "remove_from_ready_queue (Some r) k"
  have "table_ok ?k" using assms(1) by (simp add: kinv)
  then show ?thesis
    using assms(2) Some
    by (auto simp: process_destroy_def Let_def split: if_splits) (meson table_ok_free table_ok_globals(4))+
qed (use assms in \<open>simp add: process_destroy_def\<close>)

lemma table_ok_copy:
  assumes "table_ok k" and "process_create_copy L p k = Some (c, k')"
  shows "table_ok k'"
proof (cases p)
  case (Some r)
  then obtain d k1 where d: "process_create_test L (Some (p_name (pcb k r))) (r_eip (p_cpu_state (pcb k r)))
      (p_priority (pcb k r)) k = Some (d, k1)"
    using assms(2) by (auto simp: process_create_copy_def)
  then have "table_ok k1"
    using table_ok_create_test assms(1) by blast
  then show ?thesis
    using assms(2) Some d by (auto simp: process_create_copy_def Let_def kinv split: option.splits)
qed (use assms in \<open>simp add: process_create_copy_def\<close>)

lemma table_ok_enable:
  assumes "table_ok k" and "enable_process_execution L k = Some k'"
  shows "table_ok k'"
proof (cases "kernel_process k")
  case None
  then obtain d k1 where d: "process_create_test L (Some (c_literal ''kernel_idle''))
      (code_addr L Process_idle_task) PRIORITY_LOW
      (kputs ''Enabling real process execution with context switching!\<newline>'' k) = Some (d, k1)"
    using assms(2) by (auto simp: enable_process_execution_def Let_def)
  then have "table_ok k1"
    using table_ok_create_test table_ok_globals(5) [OF assms(1)] by blast
  then show ?thesis
    using assms(2) None d by (auto simp: enable_process_execution_def Let_def kinv split: option.splits)
qed (use assms in \<open>auto simp: enable_process_execution_def kinv\<close>)

lemma table_ok_listings:
  assumes "table_ok k" and "process_list_all k = Some k' \<or> process_print_info p k = Some k'"
  shows "table_ok k'"
proof (cases p)
  case None
  then show ?thesis
    using process_list_all_ok [OF assms(1)] assms table_ok_same_core by (auto simp: process_print_info_def)
next
  case (Some r)
  then show ?thesis
    using process_list_all_ok [OF assms(1)] process_print_info_ok [OF assms(1), of r] assms table_ok_same_core by auto
qed

text \<open>
  C21. The process table stays well formed: entry \<open>i\<close> is empty or a created block with PID \<open>i\<close>, at
  most ten blocks of each kind exist and names are terminated, whatever operation of the process
  manager or the scheduler runs and returns: the creations with any name, entry point and heap,
  fork's copy, exit, kill, destroy, cleanup, status changes, PID allocation, the two queue operations,
  the two listings, the set-up at boot, and the scheduler from the timer or without it.
\<close>

theorem table_ok_invariant:
  assumes "table_ok k"
  shows "table_ok (process_init k) \<and> table_ok (fst (schedule k)) \<and> table_ok (fst (scheduler_tick k)) \<and>
    table_ok (fst (timer_handler k)) \<and> table_ok (process_exit code k) \<and>
    table_ok (snd (process_allocate_pid k)) \<and> table_ok (snd (process_set_status pid s k)) \<and>
    table_ok (add_to_ready_queue p k) \<and> table_ok (remove_from_ready_queue p k) \<and>
    table_ok (process_cleanup p k) \<and>
    (\<forall>c k'. process_create L name entry priority k = Some (c, k') \<longrightarrow> table_ok k') \<and>
    (\<forall>c k'. process_create_test L name entry priority k = Some (c, k') \<longrightarrow> table_ok k') \<and>
    (\<forall>c k'. process_create_copy L p k = Some (c, k') \<longrightarrow> table_ok k') \<and>
    (\<forall>res k'. process_kill_by_pid L pid k = Some (res, k') \<longrightarrow> table_ok k') \<and>
    (\<forall>k'. process_destroy L p k = Some k' \<longrightarrow> table_ok k') \<and>
    (\<forall>k'. process_list_all k = Some k' \<or> process_print_info p k = Some k' \<longrightarrow> table_ok k') \<and>
    (\<forall>k'. enable_process_execution L k = Some k' \<longrightarrow> table_ok k')"
proof -
  have "table_ok (k\<lparr>timer_ticks := timer_ticks k + 1\<rparr>)" by (rule table_ok_shrink [OF assms]) simp_all
  then have s: "table_ok (process_init k)" "table_ok (fst (schedule k))" "table_ok (fst (scheduler_tick k))"
    "table_ok (fst (timer_handler k))" "table_ok (process_exit code k)" "table_ok (snd (process_allocate_pid k))"
    "table_ok (snd (process_set_status pid s k))" "table_ok (add_to_ready_queue p k)"
    "table_ok (remove_from_ready_queue p k)" "table_ok (process_cleanup p k)"
    using assms by (simp_all add: scheduler_tick_def timer_handler_def kinv)
  show ?thesis
    by (intro conjI allI impI)
      (rule s | erule table_ok_create [OF assms] table_ok_create_test [OF assms] table_ok_copy [OF assms]
         table_ok_kill [OF assms] table_ok_destroy [OF assms] table_ok_listings [OF assms] table_ok_enable [OF assms])+
qed

theorem table_ok_invariant_witness:
  "table_ok (fst (schedule two_ready)) \<and> table_ok (process_cleanup (Some (Test_pcb 2)) two_ready) \<and>
   (\<exists>c k'. process_create sample_layout (Some (c_literal ''user'')) 0x200200 PRIORITY_NORMAL zero_kstate = Some (c, k') \<and> table_ok k')"
proof -
  have "table_ok two_ready" by (simp add: two_ready_def zero_kstate_table kinv)
  from table_ok_invariant [OF this, of 0 1 PROCESS_READY "Some (Test_pcb 2)" sample_layout None 0 PRIORITY_LOW]
  have two: "table_ok (fst (schedule two_ready))" "table_ok (process_cleanup (Some (Test_pcb 2)) two_ready)" by blast+
  obtain c k' where k': "process_create sample_layout (Some (c_literal ''user'')) 0x200200 PRIORITY_NORMAL zero_kstate = Some (c, k')"
    using process_create_creates [OF zero_kstate_pool _ terminated_c_literal] by (fastforce simp: zero_kstate_def zero_process_def)
  have "\<forall>c k'. process_create sample_layout (Some (c_literal ''user'')) 0x200200 PRIORITY_NORMAL zero_kstate = Some (c, k') \<longrightarrow> table_ok k'"
    using table_ok_invariant [OF zero_kstate_table, of 0 1 PROCESS_READY None sample_layout
        "Some (c_literal ''user'')" "0x200200" PRIORITY_NORMAL] by blast
  with k' have "table_ok k'" by blast
  with k' two show ?thesis by blast
qed

end
