(* ===== verification/Demo.thy ===== *)
theory Demo
  imports Process_Props
begin

text \<open>
  The demo programs of \<open>kernel/proc/demo_processes.c\<close>. The counting loops are written with the
  bounds of the source; the lemmas give their results in closed form, so that no proof runs them.
\<close>

section \<open>Programs\<close>

definition exec_hello_program :: "kstate \<Rightarrow> kstate" where
  "exec_hello_program k =
     (let k = kputs ''Hello from exec_hello_program!\<newline>'' k
      in process_exit 0 k)"

definition counter_loop :: "nat \<Rightarrow> int" where
  "counter_loop n = for_loop 0 n (\<lambda>_ counter. s32 (counter + 1)) 0"

definition demo_counter_process :: "kstate \<Rightarrow> kstate" where
  "demo_counter_process k =
     (let counter = counter_loop 1000;
          k = kputs ''Counter process finished counting to '' k;
          k = kprint_hex (of_int counter) k;
          k = kputs ''\<newline>'' k
      in process_exit 0 k)"

text \<open>One iteration; \<open>%\<close> is the truncating remainder.\<close>

definition calc_step :: "nat \<Rightarrow> int \<Rightarrow> int" where
  "calc_step i result =
     (let result = s32 (result + s32 (int i * 2))
      in if result > 1000000 then result smod 1000000 else result)"

definition calc_loop :: "nat \<Rightarrow> int" where
  "calc_loop n = for_loop 0 n calc_step 0"

definition demo_calc_process :: "kstate \<Rightarrow> kstate" where
  "demo_calc_process k =
     (let result = calc_loop 500000;
          k = kputs ''Calculation process completed with result: '' k;
          k = kprint_hex (of_int result) k;
          k = kputs ''\<newline>'' k
      in process_exit 0 k)"

definition monitor_step :: "nat \<Rightarrow> kstate \<Rightarrow> kstate" where
  "monitor_step i k = (if i mod 200000 = 0 then kputs ''Monitoring system status...\<newline>'' k else k)"

definition demo_monitor_process :: "kstate \<Rightarrow> kstate" where
  "demo_monitor_process k =
     (let k = for_loop 0 2000000 monitor_step k;
          k = kputs ''Monitor process completed its work.\<newline>'' k
      in process_exit 0 k)"

section \<open>Creating the demo processes\<close>

definition create_demo_processes :: "layout \<Rightarrow> kstate \<Rightarrow> kstate option" where
  "create_demo_processes L k = do {
     (_, k) \<leftarrow> process_create L (Some (c_literal ''counter'')) (code_addr L Demo_counter_process) PRIORITY_NORMAL k;
     (_, k) \<leftarrow> process_create L (Some (c_literal ''calculator'')) (code_addr L Demo_calc_process) PRIORITY_HIGH k;
     (_, k) \<leftarrow> process_create L (Some (c_literal ''monitor'')) (code_addr L Demo_monitor_process) PRIORITY_LOW k;
     Some k
   }"

text \<open>The name buffer of iteration \<open>i\<close>; the bytes after the terminator are never read.\<close>

definition stress_name :: "nat \<Rightarrow> u8 list" where
  "stress_name i = c_chars ''test'' @ [of_char CHR ''0'' + of_nat i, 0]"

fun stress_loop :: "layout \<Rightarrow> nat list \<Rightarrow> kstate \<Rightarrow> kstate option" where
  "stress_loop L [] k = Some k"
| "stress_loop L (i # rest) k = do {
     let name = stress_name i;
     let k = kputs ''DEBUG: Creating process '' k;
     k \<leftarrow> kprint name k;
     let k = kputs ''...\<newline>'' k;
     (proc, k) \<leftarrow> process_create L (Some name) (code_addr L Demo_counter_process) PRIORITY_NORMAL k;
     case proc of
       Some r \<Rightarrow>
         (let k = kputs ''DEBUG: Successfully created process with PID '' k;
              k = (if p_pid (pcb k r) < 10 then kput_digit (p_pid (pcb k r)) k else k);
              k = kputs ''\<newline>'' k
          in stress_loop L rest k)
     | None \<Rightarrow>
         do {
           let k = kputs ''DEBUG: Failed to create process '' k;
           k \<leftarrow> kprint name k;
           Some (kputs ''\<newline>'' k)
         }
   }"

definition process_stress_test :: "layout \<Rightarrow> kstate \<Rightarrow> kstate option" where
  "process_stress_test L k = do {
     let k = kputs ''Creating stress test processes...\<newline>'' k;
     k \<leftarrow> stress_loop L [0..<2] k;
     Some (kputs ''Stress test processes created!\<newline>'' k)
   }"

section \<open>Results of the loops\<close>

lemma s32_id: "-2147483648 \<le> i \<Longrightarrow> i < 2147483648 \<Longrightarrow> s32 i = i"
  unfolding s32_def by (rule signed_take_bit_int_eq_self) simp_all

lemma counter_loop_result: "n < 2147483648 \<Longrightarrow> counter_loop n = int n"
proof -
  assume n: "n < 2147483648"
  have "for_loop 0 n (\<lambda>_ counter. s32 (counter + 1)) 0 = int n"
    using n by (induction n) (simp_all add: for_loop_Suc s32_id)
  then show ?thesis by (simp add: counter_loop_def)
qed

lemma calc_step_mod:
  assumes "0 \<le> r" and "r \<le> 1000000" and "i < 500000"
  shows "0 \<le> calc_step i r" and "calc_step i r \<le> 1000000"
    and "calc_step i r mod 1000000 = (r + int i * 2) mod 1000000"
proof -
  have s: "s32 (r + s32 (int i * 2)) = r + int i * 2"
    using assms by (simp add: s32_id)
  show "0 \<le> calc_step i r" "calc_step i r \<le> 1000000"
    "calc_step i r mod 1000000 = (r + int i * 2) mod 1000000"
    using assms pos_mod_bound [of 1000000 "r + int i * 2"]
    by (auto simp: calc_step_def Let_def s signed_modulo_int_def)
qed

lemma calc_loop_invar:
  "n \<le> 500000 \<Longrightarrow> 0 \<le> calc_loop n \<and> calc_loop n \<le> 1000000 \<and>
     calc_loop n mod 1000000 = (int n * (int n - 1)) mod 1000000"
proof (induction n)
  case (Suc n)
  then have ih: "0 \<le> calc_loop n" "calc_loop n \<le> 1000000"
    "calc_loop n mod 1000000 = (int n * (int n - 1)) mod 1000000" by simp_all
  have "calc_loop (Suc n) = calc_step n (calc_loop n)"
    by (simp add: calc_loop_def for_loop_Suc)
  moreover have "(calc_loop n + int n * 2) mod 1000000 = (int n * (int n - 1) + int n * 2) mod 1000000"
    using mod_add_cong [OF ih(3) refl] by blast
  moreover have "int n * (int n - 1) + int n * 2 = int (Suc n) * (int (Suc n) - 1)"
    by (simp add: algebra_simps)
  ultimately show ?case using calc_step_mod [OF ih(1,2), of n] Suc.prems by simp
qed (simp add: calc_loop_def)

lemma calc_loop_result: "calc_loop 500000 = 500000"
proof -
  have "calc_loop 500000 mod 1000000 = 500000" "0 \<le> calc_loop 500000" "calc_loop 500000 \<le> 1000000"
    using calc_loop_invar [of 500000] by simp_all
  then show ?thesis by (cases "calc_loop 500000 = 1000000") simp_all
qed

lemma monitor_block: "for_loop (200000 * m) (200000 * m + Suc n) monitor_step k =
    kputs ''Monitoring system status...\<newline>'' k" if "n < 200000"
  using that
proof (induction n)
  case 0
  then show ?case by (simp add: for_loop_Suc monitor_step_def)
next
  case (Suc n)
  then have "(200000 * m + Suc n) mod 200000 \<noteq> 0" by simp
  with Suc show ?case
    by (simp only: add_Suc_right for_loop_Suc [of "200000 * m" "Suc (200000 * m + n)"])
       (simp add: monitor_step_def)
qed

lemma for_loop_append: "a \<le> b \<Longrightarrow> b \<le> c \<Longrightarrow> for_loop a c f s = for_loop b c f (for_loop a b f s)"
  using upt_add_eq_append [of a b "c - b"] by (simp add: for_loop_def)

lemma monitor_loop: "for_loop 0 (200000 * m) monitor_step k = (kputs ''Monitoring system status...\<newline>'' ^^ m) k"
proof (induction m)
  case (Suc m)
  have e: "200000 * Suc m = 200000 * m + Suc 199999" by simp
  have "for_loop 0 (200000 * Suc m) monitor_step k =
      for_loop (200000 * m) (200000 * m + Suc 199999) monitor_step (for_loop 0 (200000 * m) monitor_step k)"
    unfolding e by (rule for_loop_append) simp_all
  also have "\<dots> = kputs ''Monitoring system status...\<newline>'' (for_loop 0 (200000 * m) monitor_step k)"
    by (rule monitor_block) simp
  finally show ?case using Suc by simp
qed simp

lemma demo_counter_closed:
  "demo_counter_process k = process_exit 0 (kputs ''\<newline>'' (kprint_hex 1000
     (kputs ''Counter process finished counting to '' k)))"
  by (simp add: demo_counter_process_def Let_def counter_loop_result)

lemma demo_calc_closed:
  "demo_calc_process k = process_exit 0 (kputs ''\<newline>'' (kprint_hex 500000
     (kputs ''Calculation process completed with result: '' k)))"
  by (simp add: demo_calc_process_def Let_def calc_loop_result)

lemma demo_monitor_closed:
  "demo_monitor_process k = process_exit 0 (kputs ''Monitor process completed its work.\<newline>''
     ((kputs ''Monitoring system status...\<newline>'' ^^ 10) k))"
  using monitor_loop [of 10 k] by (simp add: demo_monitor_process_def Let_def)

lemmas demo_closed = demo_counter_closed demo_calc_closed demo_monitor_closed

section \<open>Properties\<close>

text \<open>
  The demo programs, with their loops run to the end: the counter reaches 1000 without wrapping,
  the calculation ends with 500000, the monitor reports exactly ten times; each then exits.
\<close>

theorem demo_programs_results:
  "demo_counter_process k = process_exit 0 (kputs ''\<newline>'' (kprint_hex 1000
     (kputs ''Counter process finished counting to '' k))) \<and>
   demo_calc_process k = process_exit 0 (kputs ''\<newline>'' (kprint_hex 500000
     (kputs ''Calculation process completed with result: '' k))) \<and>
   demo_monitor_process k = process_exit 0 (kputs ''Monitor process completed its work.\<newline>''
     ((kputs ''Monitoring system status...\<newline>'' ^^ 10) k))"
  by (intro conjI demo_closed)

lemma process_create_step:
  assumes "table_ok k" and "pool_ok k" and "terminated name"
  shows "\<exists>p k'. process_create L (Some name) entry priority k = Some (p, k') \<and> table_ok k' \<and> pool_ok k' \<and>
           create_count k' = min 10 (create_count k + 1) \<and>
           (p = None \<longleftrightarrow> create_count k \<ge> 10) \<and>
           (\<forall>r. p = Some r \<longrightarrow> p_pid (pcb k' r) = of_nat (create_count k) + 1)"
proof (cases "create_count k < 10")
  case True
  obtain k' where k': "process_create L (Some name) entry priority k = Some (Some (Create_pcb (create_count k)), k')"
    "same_core k' (pool_created name entry priority k)"
    using process_create_creates [OF assms(2) True assms(3)] arrays_okD(1) [OF table_okD(4) [OF assms(1)]] by blast
  then show ?thesis
    using True table_ok_same_core table_ok_pool_created [OF assms(1) True]
      pool_ok_same_core pool_ok_created [OF assms(2) True]
    by (auto simp: same_core_fields [OF k'(2)])
next
  case False
  then obtain k' where "process_create L (Some name) entry priority k = Some (None, k')" "same_core k' k"
    using process_create_full [of k L name entry priority] by auto
  then show ?thesis
    using assms False table_okD(2) [OF assms(1)]
    by (auto simp: table_ok_same_core pool_ok_same_core same_core_fields)
qed

lemma pool_ok_kputs [simp]: "pool_ok (kputs s k) = pool_ok k" "pool_ok (kput_digit n k) = pool_ok k"
  by (simp_all add: pool_ok_def)

lemma table_ok_output [simp]: "table_ok (kputs s k) = table_ok k" "table_ok (kput_digit n k) = table_ok k"
  "table_ok (kprint_hex w k) = table_ok k" "table_ok (kset_color f b k) = table_ok k"
  "table_ok (kputchar c k) = table_ok k" "table_ok (kput_dec2 n k) = table_ok k"
  by (simp_all add: table_ok_same_core)

lemma stress_name_terminated: "i < 2 \<Longrightarrow> terminated (stress_name i)"
  by (simp add: stress_name_def terminated_def)

lemma stress_loop_ok:
  assumes "table_ok k" and "pool_ok k" and "\<forall>i \<in> set is. i < 2"
  shows "\<exists>k'. stress_loop L is k = Some k' \<and> table_ok k' \<and> pool_ok k' \<and>
           create_count k' = min 10 (create_count k + length is)"
  using assms
proof (induction "is" arbitrary: k)
  case (Cons i rest)
  have t: "terminated (stress_name i)" using Cons.prems(3) stress_name_terminated by simp
  obtain k1 where k1: "kprint (stress_name i) (kputs ''DEBUG: Creating process '' k) = Some k1"
    "same_core k1 (kputs ''DEBUG: Creating process '' k)"
    using kprint_terminated [OF t] by blast
  let ?k1 = "kputs ''...\<newline>'' k1"
  have i1: "table_ok ?k1" "pool_ok ?k1" and c1: "create_count ?k1 = create_count k"
    using k1(2) Cons.prems(1,2) by (simp_all add: table_ok_same_core pool_ok_same_core same_core_fields)
  obtain p k2 where k2: "process_create L (Some (stress_name i)) (code_addr L Demo_counter_process) PRIORITY_NORMAL ?k1
      = Some (p, k2)" "table_ok k2" "pool_ok k2" "create_count k2 = min 10 (create_count k + 1)"
      "p = None \<longleftrightarrow> create_count k \<ge> 10"
    using process_create_step [OF i1 t, of L "code_addr L Demo_counter_process" PRIORITY_NORMAL] c1 by metis
  show ?case
  proof (cases p)
    case None
    obtain k3 where "kprint (stress_name i) (kputs ''DEBUG: Failed to create process '' k2) = Some k3"
      "same_core k3 (kputs ''DEBUG: Failed to create process '' k2)"
      using kprint_terminated [OF t] by blast
    then show ?thesis using k1(1) k2 None
      by (auto simp: table_ok_same_core pool_ok_same_core same_core_fields)
  next
    case (Some r)
    let ?k3 = "kputs ''\<newline>'' (if p_pid (pcb k2 r) < 10
        then kput_digit (p_pid (pcb k2 r)) (kputs ''DEBUG: Successfully created process with PID '' k2)
        else kputs ''DEBUG: Successfully created process with PID '' k2)"
    have "table_ok ?k3" "pool_ok ?k3" "create_count ?k3 = min 10 (create_count k + 1)"
      using k2 by simp_all
    then obtain k' where "stress_loop L rest ?k3 = Some k'" "table_ok k'" "pool_ok k'"
      "create_count k' = min 10 (min 10 (create_count k + 1) + length rest)"
      using Cons.IH [of ?k3] Cons.prems(3) by auto
    then show ?thesis using k1(1) k2(1) Some by (auto simp: Let_def)
  qed
qed (use table_okD(2) in auto)

text \<open>
  The creators built on \<open>process_create\<close> return in every well formed state: \<open>create_demo_processes\<close>
  adds three processes and \<open>process_stress_test\<close> two, both stopping at ten.
\<close>

theorem demo_creation_correct:
  assumes "table_ok k" and "pool_ok k"
  shows "(\<exists>k'. create_demo_processes L k = Some k' \<and> table_ok k' \<and> pool_ok k' \<and>
            create_count k' = min 10 (create_count k + 3)) \<and>
         (\<exists>k'. process_stress_test L k = Some k' \<and> table_ok k' \<and> pool_ok k' \<and>
            create_count k' = min 10 (create_count k + 2))"
proof
  obtain p1 k1 where 1: "process_create L (Some (c_literal ''counter'')) (code_addr L Demo_counter_process) PRIORITY_NORMAL k
      = Some (p1, k1)" "table_ok k1" "pool_ok k1" "create_count k1 = min 10 (create_count k + 1)"
    using process_create_step [OF assms terminated_c_literal] by blast
  obtain p2 k2 where 2: "process_create L (Some (c_literal ''calculator'')) (code_addr L Demo_calc_process) PRIORITY_HIGH k1
      = Some (p2, k2)" "table_ok k2" "pool_ok k2" "create_count k2 = min 10 (create_count k1 + 1)"
    using process_create_step [OF 1(2,3) terminated_c_literal] by blast
  obtain p3 k3 where 3: "process_create L (Some (c_literal ''monitor'')) (code_addr L Demo_monitor_process) PRIORITY_LOW k2
      = Some (p3, k3)" "table_ok k3" "pool_ok k3" "create_count k3 = min 10 (create_count k2 + 1)"
    using process_create_step [OF 2(2,3) terminated_c_literal] by blast
  show "\<exists>k'. create_demo_processes L k = Some k' \<and> table_ok k' \<and> pool_ok k' \<and>
            create_count k' = min 10 (create_count k + 3)"
    using 1 2 3 by (simp add: create_demo_processes_def) (simp add: min_def)
  let ?k = "kputs ''Creating stress test processes...\<newline>'' k"
  obtain k' where k': "stress_loop L [0..<2] ?k = Some k'" "table_ok k'" "pool_ok k'"
    "create_count k' = min 10 (create_count ?k + 2)"
    using stress_loop_ok [of ?k "[0..<2]" L] assms by auto
  then show "\<exists>k'. process_stress_test L k = Some k' \<and> table_ok k' \<and> pool_ok k' \<and>
            create_count k' = min 10 (create_count k + 2)"
    by (simp add: process_stress_test_def Let_def del: upt_rec_numeral)
qed

theorem demo_creation_correct_witness:
  "\<exists>k'. process_stress_test sample_layout zero_kstate = Some k' \<and> create_count k' = 2"
  using demo_creation_correct [OF zero_kstate_table zero_kstate_pool, of sample_layout]
  by (auto simp: zero_kstate_def)

end
