(* ===== verification/Syscalls.thy ===== *)
theory Syscalls
  imports Demo Cstring
begin

text \<open>
  The system calls of \<open>kernel/syscalls.c\<close>. Pointers a caller passes are resolved by the caller:
  a program name is the byte list it points to (\<open>None\<close> for \<open>NULL\<close>), and \<open>sys_wait\<close> returns what it
  stores through its status pointer. \<open>sys_exit\<close> ends in \<open>schedule\<close>, so its result carries the call of
  an assembly routine as in \<open>Scheduler\<close>.
\<close>

section \<open>Numbers\<close>

definition SYS_EXIT :: u32 where "SYS_EXIT = 1"
definition SYS_FORK :: u32 where "SYS_FORK = 2"
definition SYS_EXEC :: u32 where "SYS_EXEC = 3"
definition SYS_WAIT :: u32 where "SYS_WAIT = 4"
definition SYS_GETPID :: u32 where "SYS_GETPID = 5"
definition SYS_KILL :: u32 where "SYS_KILL = 6"

lemmas sys_numbers = SYS_EXIT_def SYS_FORK_def SYS_EXEC_def SYS_WAIT_def SYS_GETPID_def SYS_KILL_def

section \<open>Calls\<close>

text \<open>The chain of \<open>strcmp\<close> comparisons, on the first program whose name is equal.\<close>

definition exec_find_program :: "u8 list \<Rightarrow> kstate \<Rightarrow> (code_symbol option \<times> kstate) option" where
  "exec_find_program program k =
     (let k = kputs ''Trying to find program: '' k;
          k = kputs ''\<newline>'' k
      in do {
        c \<leftarrow> strcmp program (c_literal ''hello'');
        if c = 0 then Some (Some Exec_hello_program, k)
        else do {
          c \<leftarrow> strcmp program (c_literal ''counter'');
          if c = 0 then Some (Some Demo_counter_process, k)
          else do {
            c \<leftarrow> strcmp program (c_literal ''calc'');
            if c = 0 then Some (Some Demo_calc_process, k)
            else do {
              c \<leftarrow> strcmp program (c_literal ''monitor'');
              if c = 0 then Some (Some Demo_monitor_process, k) else Some (None, k)
            }
          }
        }
      })"

text \<open>\<open>program_func()\<close>: the functions \<open>exec_find_program\<close> can return.\<close>

definition call_program :: "code_symbol \<Rightarrow> kstate \<Rightarrow> kstate option" where
  "call_program f k =
     (case f of
        Exec_hello_program \<Rightarrow> Some (exec_hello_program k)
      | Demo_counter_process \<Rightarrow> Some (demo_counter_process k)
      | Demo_calc_process \<Rightarrow> Some (demo_calc_process k)
      | Demo_monitor_process \<Rightarrow> Some (demo_monitor_process k)
      | _ \<Rightarrow> None)"

definition sys_exit :: "int \<Rightarrow> kstate \<Rightarrow> kstate \<times> switch_call" where
  "sys_exit exit_code k =
     (case current_process k of
        None \<Rightarrow> (k, No_switch)
      | Some c \<Rightarrow>
          (let k = upd_pcb c (\<lambda>p. p\<lparr>p_state := PROCESS_TERMINATED\<rparr>) k;
               k = upd_pcb c (\<lambda>p. p\<lparr>p_exit_code := exit_code\<rparr>) k;
               k = kputs ''Process '' k;
               k = kprint_hex (p_pid (pcb k c)) k;
               k = kputs '' exited with code '' k;
               k = kprint_hex (of_int exit_code) k;
               k = kputs ''\<newline>'' k;
               k = (if p_state (pcb k c) = PROCESS_READY then remove_from_ready_queue (Some c) k else k);
               k = k\<lparr>current_process := None\<rparr>
           in schedule k))"

definition sys_fork :: "layout \<Rightarrow> kstate \<Rightarrow> (u32 \<times> kstate) option" where
  "sys_fork L k =
     (case current_process k of
        None \<Rightarrow> Some (-1, k)
      | Some c \<Rightarrow>
          do {
            (child, k) \<leftarrow> process_create_copy L (Some c) k;
            case child of
              None \<Rightarrow> Some (-1, k)
            | Some child \<Rightarrow>
                (let k = upd_pcb child (\<lambda>p. p\<lparr>p_parent_pid := p_pid (pcb k c)\<rparr>) k;
                     k = add_to_ready_queue (Some child) k
                 in Some (p_pid (pcb k child), k))
          })"

definition exec_registers :: "u32 \<Rightarrow> process \<Rightarrow> process" where
  "exec_registers entry_point p =
     (let esp = p_stack_base p + p_stack_size p - 4
      in p\<lparr>p_cpu_state := (p_cpu_state p)\<lparr>r_eip := entry_point, r_eax := 0, r_ebx := 0, r_ecx := 0,
             r_edx := 0, r_esi := 0, r_edi := 0, r_esp := esp, r_ebp := esp\<rparr>\<rparr>)"

definition sys_exec :: "layout \<Rightarrow> u8 list option \<Rightarrow> kstate \<Rightarrow> (int \<times> kstate) option" where
  "sys_exec L program k =
     (case (current_process k, program) of
        (Some c, Some program) \<Rightarrow>
          do {
            (entry_point, k) \<leftarrow> exec_find_program program k;
            case entry_point of
              None \<Rightarrow>
                do {
                  let k = kputs ''EXEC: Program not found: '' k;
                  k \<leftarrow> kprint program k;
                  Some (-1, kputs ''\<newline>'' k)
                }
            | Some f \<Rightarrow>
                do {
                  let k = upd_pcb c (exec_registers (code_addr L f)) k;
                  name \<leftarrow> string_copy (p_name (pcb k c)) program;
                  let k = upd_pcb c (\<lambda>p. p\<lparr>p_name := name\<rparr>) k;
                  let k = kputs ''EXEC: Replaced process '' k;
                  let k = kprint_hex (p_pid (pcb k c)) k;
                  let k = kputs '' with program: '' k;
                  k \<leftarrow> kprint program k;
                  let k = kputs ''\<newline>'' k;
                  k \<leftarrow> call_program f k;
                  Some (0, k)
                }
          }
      | _ \<Rightarrow> Some (-1, kputs ''EXEC: Invalid parameters\<newline>'' k))"

text \<open>
  The return value, the value stored through \<open>status\<close> when the pointer is not \<open>NULL\<close>, and the state.
\<close>

definition sys_wait :: "bool \<Rightarrow> kstate \<Rightarrow> u32 \<times> int option \<times> kstate" where
  "sys_wait status k =
     (case current_process k of
        None \<Rightarrow> (-1, None, k)
      | Some c \<Rightarrow>
          (let terminated_child = (\<lambda>i. case process_table k i of
                 None \<Rightarrow> False
               | Some proc \<Rightarrow> p_parent_pid (pcb k proc) = p_pid (pcb k c) \<and>
                              p_state (pcb k proc) = PROCESS_TERMINATED)
           in case find terminated_child (map of_nat [0..<256]) of
                None \<Rightarrow> (0, None, k)
              | Some i \<Rightarrow>
                  (let proc = the (process_table k i);
                       child_pid = p_pid (pcb k proc);
                       stored = (if status then Some (p_exit_code (pcb k proc)) else None)
                   in (child_pid, stored, process_cleanup (Some proc) k))))"

definition sys_getpid :: "kstate \<Rightarrow> u32" where
  "sys_getpid k = (case current_process k of Some c \<Rightarrow> p_pid (pcb k c) | None \<Rightarrow> 0)"

definition sys_kill :: "u32 \<Rightarrow> int \<Rightarrow> kstate \<Rightarrow> int \<times> kstate" where
  "sys_kill pid signal k =
     (if pid = 1
      then (-1, kputs ''ERROR: Cannot kill PID 1 (kernel process) - system critical!\<newline>'' k)
      else
        (case process_find_by_pid pid k of
           None \<Rightarrow> (-1, k)
         | Some target \<Rightarrow>
             if Some target = kernel_process k
             then (-1, kputs ''ERROR: Cannot kill kernel_idle process - system critical!\<newline>'' k)
             else if signal = 9
             then
               (let k = upd_pcb target (\<lambda>p. p\<lparr>p_state := PROCESS_TERMINATED\<rparr>) k;
                    k = upd_pcb target (\<lambda>p. p\<lparr>p_exit_code := -1\<rparr>) k;
                    k = kputs ''Killed process '' k;
                    k = kprint_hex pid k;
                    k = kputs ''\<newline>'' k
                in (0, k))
             else
               (let k = kputs ''Signal '' k;
                    k = kprint_hex (of_int signal) k;
                    k = kputs '' sent to process '' k;
                    k = kprint_hex pid k;
                    k = kputs ''\<newline>'' k
                in (0, k))))"

section \<open>The dispatcher\<close>

text \<open>
  \<open>string_at\<close> gives the bytes behind a pointer argument (\<open>None\<close> for \<open>NULL\<close>). The result is the value
  returned, the call of an assembly routine, the write through a status pointer, and the state.
\<close>

record sys_result =
  sr_value :: u32
  sr_call :: switch_call
  sr_status :: "(u32 \<times> int) option"
  sr_state :: kstate

definition returns :: "u32 \<Rightarrow> kstate \<Rightarrow> sys_result" where
  "returns v k = \<lparr>sr_value = v, sr_call = No_switch, sr_status = None, sr_state = k\<rparr>"

definition syscall_handler ::
  "layout \<Rightarrow> (u32 \<Rightarrow> u8 list option) \<Rightarrow> u32 \<Rightarrow> u32 \<Rightarrow> u32 \<Rightarrow> u32 \<Rightarrow> kstate \<Rightarrow> sys_result option" where
  "syscall_handler L string_at syscall_num arg1 arg2 arg3 k =
     (if syscall_num = SYS_EXIT then
        (let (k, call) = sys_exit (sint arg1) k
         in Some \<lparr>sr_value = 0, sr_call = call, sr_status = None, sr_state = k\<rparr>)
      else if syscall_num = SYS_FORK then
        do { (v, k) \<leftarrow> sys_fork L k; Some (returns v k) }
      else if syscall_num = SYS_EXEC then
        do { (v, k) \<leftarrow> sys_exec L (string_at arg1) k; Some (returns (of_int v) k) }
      else if syscall_num = SYS_WAIT then
        (let (v, stored, k) = sys_wait (arg1 \<noteq> 0) k
         in Some \<lparr>sr_value = v, sr_call = No_switch, sr_status = map_option (Pair arg1) stored, sr_state = k\<rparr>)
      else if syscall_num = SYS_GETPID then Some (returns (sys_getpid k) k)
      else if syscall_num = SYS_KILL then
        (let (v, k) = sys_kill arg1 (sint arg2) k in Some (returns (of_int v) k))
      else
        (let k = kputs ''Unknown system call: '' k;
             k = kprint_hex syscall_num k;
             k = kputs ''\<newline>'' k
         in Some (returns (-1) k)))"

end
