(* ===== verification/Syscall_Props.thy ===== *)
theory Syscall_Props
  imports Syscalls
begin

text \<open>
  Properties of the system calls: the exact effect of \<open>fork\<close>, \<open>exec\<close>, \<open>exit\<close>, \<open>wait\<close> and \<open>kill\<close>, the
  protection of the kernel process, the exit/wait handshake, and that every call returns and
  keeps the process table well formed.
\<close>

section \<open>fork\<close>

lemma process_create_copy_full:
  "test_count k \<ge> 10 \<Longrightarrow> \<exists>k'. process_create_copy L (Some c) k = Some (None, k') \<and> same_core k' k"
  using process_create_test_full [of k L "Some (p_name (pcb k c))" "r_eip (p_cpu_state (pcb k c))" "p_priority (pcb k c)"]
  by (auto simp: process_create_copy_def)

lemma process_create_copy_creates:
  assumes "table_ok k" and "test_count k < 10" and "created k c"
  shows "\<exists>k'. process_create_copy L (Some c) k = Some (Some (Test_pcb (test_count k)), k') \<and>
    same_core k' (upd_pcb (Test_pcb (test_count k))
      (\<lambda>p. p\<lparr>p_cpu_state := (p_cpu_state (pcb k c))\<lparr>r_eax := 0\<rparr>, p_memory_used := p_memory_used (pcb k c)\<rparr>)
      (test_created L (p_name (pcb k c)) (r_eip (p_cpu_state (pcb k c))) (p_priority (pcb k c)) k))"
proof -
  have t: "terminated (p_name (pcb k c))" "length (p_name (pcb k (Test_pcb (test_count k)))) = 64"
    using table_okD(4) [OF assms(1)] arrays_ok_terminated arrays_okD(1) by blast+
  obtain k1 where k1: "process_create_test L (Some (p_name (pcb k c))) (r_eip (p_cpu_state (pcb k c))) (p_priority (pcb k c)) k =
      Some (Some (Test_pcb (test_count k)), k1)"
    "same_core k1 (test_created L (p_name (pcb k c)) (r_eip (p_cpu_state (pcb k c))) (p_priority (pcb k c)) k)"
    using process_create_test_creates [OF assms(2) t] by blast
  have c: "c \<noteq> Test_pcb (test_count k)" using assms(3) not_created_next by blast
  show ?thesis
    using k1 c by (auto simp: process_create_copy_def Let_def same_core_def)
qed

section \<open>exec\<close>

definition program_of :: "u8 list \<Rightarrow> code_symbol option" where
  "program_of name =
     (if name = c_chars ''hello'' then Some Exec_hello_program
      else if name = c_chars ''counter'' then Some Demo_counter_process
      else if name = c_chars ''calc'' then Some Demo_calc_process
      else if name = c_chars ''monitor'' then Some Demo_monitor_process else None)"

lemma strcmp_literal:
  "terminated s \<Longrightarrow> nul_free t \<Longrightarrow> \<exists>c. strcmp s (c_literal t) = Some c \<and> (c = 0 \<longleftrightarrow> cstr s = c_chars t)"
  using strcmp_terminated [of s "c_literal t"] by auto

lemma exec_find_program_cases:
  assumes "terminated program"
  shows "\<exists>k'. exec_find_program program k = Some (program_of (cstr program), k') \<and> same_core k' k"
proof -
  obtain a where a: "strcmp program (c_literal ''hello'') = Some a" "a = 0 \<longleftrightarrow> cstr program = c_chars ''hello''"
    using strcmp_literal [OF assms, of "''hello''"] by auto
  obtain b where b: "strcmp program (c_literal ''counter'') = Some b" "b = 0 \<longleftrightarrow> cstr program = c_chars ''counter''"
    using strcmp_literal [OF assms, of "''counter''"] by auto
  obtain c where c: "strcmp program (c_literal ''calc'') = Some c" "c = 0 \<longleftrightarrow> cstr program = c_chars ''calc''"
    using strcmp_literal [OF assms, of "''calc''"] by auto
  obtain d where d: "strcmp program (c_literal ''monitor'') = Some d" "d = 0 \<longleftrightarrow> cstr program = c_chars ''monitor''"
    using strcmp_literal [OF assms, of "''monitor''"] by auto
  let ?k = "kputs ''\<newline>'' (kputs ''Trying to find program: '' k)"
  have "exec_find_program program k = Some (program_of (cstr program), ?k)"
    unfolding exec_find_program_def Let_def a(1) b(1) c(1) d(1) program_of_def
    using a(2) b(2) c(2) d(2) by (simp del: c_chars_simps)
  then show ?thesis by simp
qed

lemma program_of_length: "program_of name = Some f \<Longrightarrow> length name \<le> 7"
  by (auto simp: program_of_def split: if_splits)

text \<open>Every program ends in \<open>process_exit\<close> and changes nothing else but the screen.\<close>

lemma call_program_exits:
  assumes "program_of name = Some f"
  shows "\<exists>k'. call_program f k = Some k' \<and> same_core k' (process_exit 0 k)"
proof -
  have m: "same_core (process_exit c k') (process_exit c k)" if "same_core k' k" for c k' k
    using that by (auto simp: process_exit_def same_core_def split: option.splits)
  have n: "same_core ((kputs s ^^ n) k) k" for s n
    by (induction n) simp_all
  show ?thesis
    using assms
    by (auto simp: program_of_def call_program_def exec_hello_program_def Let_def
        demo_closed n intro!: m split: if_splits)
qed

section \<open>wait\<close>

definition terminated_child :: "kstate \<Rightarrow> u32 \<Rightarrow> u32 \<Rightarrow> bool" where
  "terminated_child k parent i \<longleftrightarrow>
     (\<exists>r. process_table k i = Some r \<and> p_parent_pid (pcb k r) = parent \<and> p_state (pcb k r) = PROCESS_TERMINATED)"

lemma find_first: "find P xs = Some x \<longleftrightarrow> (\<exists>ys zs. xs = ys @ x # zs \<and> P x \<and> (\<forall>y \<in> set ys. \<not> P y))"
proof (induction xs)
  case (Cons a xs)
  show ?case
  proof (cases "P a")
    case True
    then show ?thesis by (auto simp: Cons_eq_append_conv)
  next
    case False
    then show ?thesis using Cons by (auto simp: Cons_eq_append_conv) (metis set_ConsD)
  qed
qed simp

lemma sys_wait_find:
  assumes "current_process k = Some c"
  shows "sys_wait status k =
    (case find (terminated_child k (p_pid (pcb k c))) (map of_nat [0..<256]) of
       None \<Rightarrow> (0, None, k)
     | Some i \<Rightarrow> (p_pid (pcb k (the (process_table k i))),
                  if status then Some (p_exit_code (pcb k (the (process_table k i)))) else None,
                  process_cleanup (process_table k i) k))"
proof -
  have e: "(\<lambda>i. case process_table k i of None \<Rightarrow> False
       | Some proc \<Rightarrow> p_parent_pid (pcb k proc) = p_pid (pcb k c) \<and> p_state (pcb k proc) = PROCESS_TERMINATED) =
      terminated_child k (p_pid (pcb k c))"
    by (auto simp: fun_eq_iff terminated_child_def split: option.splits)
  show ?thesis
    using assms by (auto simp: sys_wait_def e Let_def split: option.splits)
      (metis find_Some_first terminated_child_def option.sel)
qed

lemma find_u32_none:
  "find P (map of_nat [0..<256] :: u32 list) = None \<longleftrightarrow> (\<forall>i < 256. \<not> P i)"
  by (auto simp: find_None_iff dest: below_256 [THEN iffD2]) (simp add: word_less_nat_alt)

lemma find_u32_some:
  assumes "find P (map of_nat [0..<256] :: u32 list) = Some i"
  shows "P i \<and> i < 256 \<and> (\<forall>j < i. \<not> P j)"
proof -
  obtain ys zs where y: "map of_nat [0..<256] = ys @ i # zs" "P i" "\<forall>y \<in> set ys. \<not> P y"
    using assms by (auto simp: find_first)
  define n where "n = length ys"
  have "length (map of_nat [0..<256] :: u32 list) = 256" by simp
  then have n: "n < 256" "(map of_nat [0..<256] :: u32 list) ! n = i" "take n (map of_nat [0..<256]) = ys"
    using y(1) by (simp_all add: n_def)
  then have i: "i = of_nat n" "unat i = n" by auto
  have "j \<in> set ys" if "j < i" for j
  proof -
    have "unat j < n" using that i by (simp add: word_less_nat_alt)
    then have "j = take n (map of_nat [0..<256]) ! unat j" "unat j < length ys" using n by auto
    then show ?thesis using n(3) nth_mem by metis
  qed
  then show ?thesis using y n i by (auto simp: word_less_nat_alt)
qed

section \<open>Invariants and totality\<close>

lemma table_ok_upd_name:
  assumes "table_ok k" and "p_pid (f (pcb k r)) = p_pid (pcb k r)" and "arrays_ok (f (pcb k r))"
  shows "table_ok (upd_pcb r f k)"
proof (rule table_okI)
  show "p_pid (pcb (upd_pcb r f k) s) = i \<and> created (upd_pcb r f k) s \<and> 0 < i \<and> i \<le> 10"
    if "process_table (upd_pcb r f k) i = Some s" for i s
    using that table_okD(1) [OF assms(1), of i s] assms(2) by (auto simp: created_def split: pcb_ref.splits)
  show "arrays_ok (pcb (upd_pcb r f k) s)" for s
    using table_okD(4) [OF assms(1)] assms(3) by simp
qed (use table_okD(2,3) [OF assms(1)] in simp_all)

lemma sys_fork_table:
  assumes "table_ok k" and "\<And>c. current_process k = Some c \<Longrightarrow> created k c"
  shows "\<exists>v k'. sys_fork L k = Some (v, k') \<and> table_ok k'"
proof (cases "current_process k")
  case (Some c)
  show ?thesis
  proof (cases "test_count k < 10")
    case True
    then obtain k1 where k1: "process_create_copy L (Some c) k = Some (Some (Test_pcb (test_count k)), k1)"
      using process_create_copy_creates [OF assms(1) True assms(2) [OF Some]] by blast
    then have "table_ok k1" using table_ok_copy [OF assms(1)] by blast
    then show ?thesis using Some k1 by (simp add: sys_fork_def Let_def kinv)
  next
    case False
    then obtain k1 where "process_create_copy L (Some c) k = Some (None, k1)" "same_core k1 k"
      using process_create_copy_full [of k L c] by auto
    then show ?thesis using Some assms(1) by (simp add: sys_fork_def table_ok_same_core)
  qed
qed (use assms in \<open>simp add: sys_fork_def\<close>)

text \<open>\<open>exec\<close> on a current process, with the state before the call of the program.\<close>

definition exec_name :: "u8 list \<Rightarrow> process \<Rightarrow> process" where
  "exec_name program p = p\<lparr>p_name := cstr program @ 0 # drop (Suc (length (cstr program))) (p_name p)\<rparr>"

lemma arrays_ok_exec:
  "length (cstr program) \<le> 7 \<Longrightarrow> arrays_ok p \<Longrightarrow> arrays_ok (exec_name program p)"
  by (auto simp: arrays_ok_def exec_name_def last_drop)

lemma exec_registers_fields [simp]:
  "p_name (exec_registers e p) = p_name p" "p_pid (exec_registers e p) = p_pid p"
  "p_state (exec_registers e p) = p_state p" "r_eip (p_cpu_state (exec_registers e p)) = e"
  "r_esp (p_cpu_state (exec_registers e p)) = p_stack_base p + p_stack_size p - 4"
  "r_ebp (p_cpu_state (exec_registers e p)) = p_stack_base p + p_stack_size p - 4"
  "r_eax (p_cpu_state (exec_registers e p)) = 0"
  "p_file_descriptors (exec_registers e p) = p_file_descriptors p"
  by (simp_all add: exec_registers_def Let_def)

lemma sys_exec_cases:
  assumes "current_process k = Some c" and "terminated program" and "table_ok k"
  shows "case program_of (cstr program) of
           None \<Rightarrow> (\<exists>k'. sys_exec L (Some program) k = Some (-1, k') \<and> same_core k' k)
         | Some f \<Rightarrow> (\<exists>k'. sys_exec L (Some program) k = Some (0, k') \<and>
             same_core k' (process_exit 0
               (upd_pcb c (\<lambda>p. exec_name program (exec_registers (code_addr L f) p)) k)))"
proof -
  obtain k1 where k1: "exec_find_program program k = Some (program_of (cstr program), k1)" "same_core k1 k"
    using exec_find_program_cases [OF assms(2)] by blast
  show ?thesis
  proof (cases "program_of (cstr program)")
    case None
    obtain k2 where "kprint program (kputs ''EXEC: Program not found: '' k1) = Some k2"
      "same_core k2 (kputs ''EXEC: Program not found: '' k1)"
      using kprint_terminated [OF assms(2)] by blast
    then show ?thesis using None k1 assms(1) by (simp add: sys_exec_def) (simp add: same_core_def)
  next
    case (Some f)
    have "arrays_ok (pcb k1 c)" using table_okD(4) [OF assms(3)] k1(2) by (simp add: same_core_fields)
    then have name: "string_copy (p_name (pcb k1 c)) program =
        Some (cstr program @ 0 # drop (Suc (length (cstr program))) (p_name (pcb k1 c)))"
      using program_of_length [OF Some] by (intro string_copy_fits [OF assms(2)]) (simp add: arrays_ok_def)
    let ?k2 = "upd_pcb c (\<lambda>p. p\<lparr>p_name := cstr program @ 0 # drop (Suc (length (cstr program))) (p_name (pcb k1 c))\<rparr>)
        (upd_pcb c (exec_registers (code_addr L f)) k1)"
    let ?k3 = "kputs '' with program: '' (kprint_hex (p_pid (pcb ?k2 c)) (kputs ''EXEC: Replaced process '' ?k2))"
    obtain k4 where k4: "kprint program ?k3 = Some k4" "same_core k4 ?k3"
      using kprint_terminated [OF assms(2)] by blast
    obtain k5 where k5: "call_program f (kputs ''\<newline>'' k4) = Some k5" "same_core k5 (process_exit 0 (kputs ''\<newline>'' k4))"
      using call_program_exits [OF Some] by blast
    have "same_core (kputs ''\<newline>'' k4) (upd_pcb c (\<lambda>p. exec_name program (exec_registers (code_addr L f) p)) k)"
      using k4(2) k1(2) by (simp add: same_core_def exec_name_def)
    then have "same_core (process_exit 0 (kputs ''\<newline>'' k4))
        (process_exit 0 (upd_pcb c (\<lambda>p. exec_name program (exec_registers (code_addr L f) p)) k))"
      by (auto simp: process_exit_def same_core_def split: option.splits)
    then show ?thesis
      using Some k1(1) assms(1) name k4(1) k5 same_core_trans by (simp add: sys_exec_def Let_def)
  qed
qed

lemma sys_exec_table:
  assumes "table_ok k" and "\<And>p. program = Some p \<Longrightarrow> terminated p"
  shows "\<exists>v k'. sys_exec L program k = Some (v, k') \<and> table_ok k'"
proof (cases "current_process k = None \<or> program = None")
  case True
  then show ?thesis using assms(1)
    by (auto simp: sys_exec_def table_ok_same_core split: option.splits)
next
  case False
  then obtain c p where c: "current_process k = Some c" "program = Some p" "terminated p"
    using assms(2) by auto
  note e = sys_exec_cases [OF c(1,3) assms(1), of L]
  show ?thesis
  proof (cases "program_of (cstr p)")
    case None
    then show ?thesis using e c(2) assms(1) by (auto simp: table_ok_same_core)
  next
    case (Some f)
    have "table_ok (upd_pcb c (\<lambda>p'. exec_name p (exec_registers (code_addr L f) p')) k)"
      using program_of_length [OF Some] table_okD(4) [OF assms(1), of c]
      by (intro table_ok_upd_name [OF assms(1)] arrays_ok_exec) (simp_all add: exec_name_def arrays_ok_def)
    then have "table_ok (process_exit 0 (upd_pcb c (\<lambda>p'. exec_name p (exec_registers (code_addr L f) p')) k))"
      by (rule table_ok_exit)
    then show ?thesis using e Some c(2) by (auto simp: table_ok_same_core)
  qed
qed

lemma sys_exit_table: "table_ok k \<Longrightarrow> table_ok (fst (sys_exit code k))"
  by (auto simp: sys_exit_def Let_def table_ok_same_core kinv split: option.splits
      intro!: table_ok_schedule table_ok_current table_ok_upd)

lemma sys_kill_table: "table_ok k \<Longrightarrow> table_ok (snd (sys_kill pid sig k))"
  by (auto simp: sys_kill_def Let_def table_ok_same_core kinv split: option.splits)

lemma sys_wait_table: "table_ok k \<Longrightarrow> table_ok (snd (snd (sys_wait status k)))"
  by (cases "current_process k") (auto simp: sys_wait_find kinv split: option.splits, simp add: sys_wait_def)

section \<open>exit\<close>

lemma queue_ops_exit_code [simp]:
  "p_exit_code (pcb (add_to_ready_queue p k) r) = p_exit_code (pcb k r)"
  "p_exit_code (pcb (remove_from_ready_queue p k) r) = p_exit_code (pcb k r)"
  using unlink_eqD [OF add_to_ready_queue_unlink] unlink_eqD [OF remove_from_ready_queue_unlink]
  by simp_all

lemma queue_ops_parent_pid [simp]:
  "p_parent_pid (pcb (add_to_ready_queue p k) r) = p_parent_pid (pcb k r)"
  "p_parent_pid (pcb (remove_from_ready_queue p k) r) = p_parent_pid (pcb k r)"
  using unlink_eqD [OF add_to_ready_queue_unlink] unlink_eqD [OF remove_from_ready_queue_unlink]
  by simp_all

lemma schedule_keeps [simp]:
  "p_exit_code (pcb (fst (schedule k)) r) = p_exit_code (pcb k r)"
  "p_parent_pid (pcb (fst (schedule k)) r) = p_parent_pid (pcb k r)"
  "p_pid (pcb (fst (schedule k)) r) = p_pid (pcb k r)"
  by (auto simp: schedule_def preempt_current_def Let_def split: option.splits)

text \<open>The state in which \<open>sys_exit\<close> calls \<open>schedule\<close>.\<close>

definition exited :: "int \<Rightarrow> pcb_ref \<Rightarrow> kstate \<Rightarrow> kstate" where
  "exited code c k =
     (upd_pcb c (\<lambda>p. p\<lparr>p_state := PROCESS_TERMINATED, p_exit_code := code\<rparr>) k)\<lparr>current_process := None\<rparr>"

lemma sys_exit_schedules:
  assumes "current_process k = Some c"
  shows "\<exists>k'. sys_exit code k = schedule k' \<and> same_core k' (exited code c k)"
  using assms by (simp add: sys_exit_def Let_def exited_def)
    (rule exI, rule conjI, rule refl, simp add: same_core_def)

lemma schedule_no_current:
  assumes "current_process k = None" and "queue_rep k q"
  shows "queue_rep (fst (schedule k)) (tl q)"
    and "current_process (fst (schedule k)) = (if q = [] then None else Some (hd q))"
    and "states (fst (schedule k)) = (if q = [] then states k else (states k)(hd q := PROCESS_RUNNING))"
proof -
  have "sched_rel (fst (schedule k)) (round_robin (q, None, states k))"
    using assms by (intro schedule_refines) (simp_all add: sched_rel_def)
  then show "queue_rep (fst (schedule k)) (tl q)"
    "current_process (fst (schedule k)) = (if q = [] then None else Some (hd q))"
    "states (fst (schedule k)) = (if q = [] then states k else (states k)(hd q := PROCESS_RUNNING))"
    by (cases q; simp add: sched_rel_def round_robin_def rr_preempt_def)+
qed

lemma queue_rep_exited: "queue_rep (exited code c k) q = queue_rep k q"
  by (rule queue_rep_cong) (simp_all add: exited_def)

section \<open>Properties\<close>

lemma two_processes_table: "table_ok two_processes"
proof -
  have "test_count zero_kstate = 0" by (simp add: zero_kstate_def)
  then show ?thesis
    unfolding two_processes_def
    by (intro table_ok_current table_ok_globals(1) table_ok_test_created) (simp_all add: zero_kstate_table)
qed

lemma two_processes_queue: "queue_rep two_processes []"
  by (simp add: queue_rep_Nil two_processes_fields)

lemma two_processes_counts: "test_count two_processes = 2" "create_count two_processes = 0"
  by (simp_all add: two_processes_def zero_kstate_def test_created_def Let_def)

lemma stored_name_ok: "table_ok k \<Longrightarrow> stored_name (p_name (pcb k c)) = cstr (p_name (pcb k c))"
  using length_cstr_less [OF arrays_ok_terminated [OF table_okD(4) [of k c]]]
    arrays_okD(1) [OF table_okD(4) [of k c]] by (simp add: stored_name_def)

text \<open>
  C14. \<open>fork\<close> below ten processes: the child is a READY copy of the parent with the next PID, the same
  name and registers except \<open>eax = 0\<close> (the stack pointer is the parent's, not in the stack the
  child was given), known as a child, last in the ready queue; the parent gets its PID. With ten
  processes the result is -1 and only messages are printed.
\<close>

theorem sys_fork_correct:
  assumes "table_ok k" and "current_process k = Some c" and "created k c"
    and "queue_rep k xs" and "list_all (created k) xs"
  shows "\<exists>v k'. sys_fork L k = Some (v, k') \<and>
    (if test_count k < 10
     then v = of_nat (test_count k) + 1 \<and>
          process_find_by_pid v k' = Some (Test_pcb (test_count k)) \<and>
          queue_rep k' (xs @ [Test_pcb (test_count k)]) \<and>
          p_pid (pcb k' (Test_pcb (test_count k))) = v \<and>
          p_parent_pid (pcb k' (Test_pcb (test_count k))) = p_pid (pcb k c) \<and>
          p_state (pcb k' (Test_pcb (test_count k))) = PROCESS_READY \<and>
          cstr (p_name (pcb k' (Test_pcb (test_count k)))) = cstr (p_name (pcb k c)) \<and>
          p_cpu_state (pcb k' (Test_pcb (test_count k))) = (p_cpu_state (pcb k c))\<lparr>r_eax := 0\<rparr> \<and>
          p_stack_base (pcb k' (Test_pcb (test_count k))) = stack_of L (test_count k) \<and>
          (\<forall>r. r \<noteq> Test_pcb (test_count k) \<longrightarrow> unlink (pcb k' r) = unlink (pcb k r))
     else v = -1 \<and> same_core k' k)"
proof (cases "test_count k < 10")
  case False
  then obtain k1 where "process_create_copy L (Some c) k = Some (None, k1)" "same_core k1 k"
    using process_create_copy_full [of k L c] by auto
  then show ?thesis using False assms(2) by (simp add: sys_fork_def)
next
  case True
  let ?n = "test_count k" and ?r = "Test_pcb (test_count k)"
  obtain k1 where k1: "process_create_copy L (Some c) k = Some (Some ?r, k1)"
    "same_core k1 (upd_pcb ?r (\<lambda>p. p\<lparr>p_cpu_state := (p_cpu_state (pcb k c))\<lparr>r_eax := 0\<rparr>,
       p_memory_used := p_memory_used (pcb k c)\<rparr>)
      (test_created L (p_name (pcb k c)) (r_eip (p_cpu_state (pcb k c))) (p_priority (pcb k c)) k))"
    using process_create_copy_creates [OF assms(1) True assms(3)] by blast
  note f = same_core_fields [OF k1(2)]
  have r: "?r \<notin> set xs" "?r \<noteq> c"
    using assms(3,5) not_created_next(1) by (auto simp: list_all_iff)
  define k2 where "k2 = upd_pcb ?r (\<lambda>p. p\<lparr>p_parent_pid := p_pid (pcb k1 c)\<rparr>) k1"
  define k3 where "k3 = add_to_ready_queue (Some ?r) k2"
  have fork: "sys_fork L k = Some (p_pid (pcb k3 ?r), k3)"
    using assms(2) k1(1) by (simp add: sys_fork_def Let_def k2_def k3_def)
  have "queue_rep k2 xs"
    using r(1) assms(4) by (intro queue_rep_fresh [OF assms(4) r(1)]) (simp_all add: k2_def f)
  then have q: "queue_rep k3 (xs @ [?r])"
    unfolding k3_def using r(1) by (intro add_to_ready_queue_rep) (simp_all add: k2_def f)
  have u: "unlink (pcb k3 x) = unlink (pcb k2 x)" for x by (simp add: k3_def)
  have p2: "pcb k2 ?r = created_pcb ?n
       (stored_name (p_name (pcb k c)) @ 0 # drop (Suc (length (stored_name (p_name (pcb k c))))) (p_name (pcb k ?r)))
       (r_eip (p_cpu_state (pcb k c))) (stack_of L ?n) (p_priority (pcb k c)) (pcb k ?r)
      \<lparr>p_cpu_state := (p_cpu_state (pcb k c))\<lparr>r_eax := 0\<rparr>, p_memory_used := p_memory_used (pcb k c),
        p_parent_pid := p_pid (pcb k c)\<rparr>"
    using r(2) by (simp add: k2_def f)
  have t: "process_find_by_pid (of_nat ?n + 1) k3 = Some ?r"
    using fresh_pid_found [OF True] by (simp add: k3_def k2_def f)
  have s: "p_pid (pcb k3 ?r) = of_nat ?n + 1" "p_state (pcb k3 ?r) = PROCESS_READY"
    "p_parent_pid (pcb k3 ?r) = p_pid (pcb k c)"
    "cstr (p_name (pcb k3 ?r)) = cstr (p_name (pcb k c))"
    "p_cpu_state (pcb k3 ?r) = (p_cpu_state (pcb k c))\<lparr>r_eax := 0\<rparr>"
    "p_stack_base (pcb k3 ?r) = stack_of L ?n"
    using unlink_eqD [OF u [of ?r]] by (simp_all add: p2 stored_name_ok [OF assms(1)])
  have o: "unlink (pcb k3 x) = unlink (pcb k x)" if "x \<noteq> ?r" for x
    using that by (simp add: u) (simp add: k2_def f)
  show ?thesis using True fork q t s o by auto
qed

theorem sys_fork_correct_witness:
  "\<exists>k'. sys_fork sample_layout two_processes = Some (3, k') \<and> queue_rep k' [Test_pcb 2]"
proof -
  have "created two_processes (Test_pcb 0)" by (simp add: created_def two_processes_counts)
  then show ?thesis
    using sys_fork_correct [OF two_processes_table two_processes_fields(3) _ two_processes_queue, of sample_layout]
    by (auto simp: two_processes_counts)
qed

text \<open>
  C23. \<open>exec\<close> of a terminated program name never overruns the name buffer. For the four known programs
  the current process gets the name, the program's entry point, cleared registers and the end of
  its stack, the program runs to its end (marking a process other than the kernel's TERMINATED) and
  the result is 0; for any other name it is -1 and only messages are printed.
\<close>

theorem sys_exec_correct:
  assumes "table_ok k" and "current_process k = Some c" and "terminated program"
  shows "\<exists>v k'. sys_exec L (Some program) k = Some (v, k') \<and>
    (case program_of (cstr program) of
       None \<Rightarrow> v = -1 \<and> same_core k' k
     | Some f \<Rightarrow>
         v = 0 \<and> cstr (p_name (pcb k' c)) = cstr program \<and>
         r_eip (p_cpu_state (pcb k' c)) = code_addr L f \<and> r_eax (p_cpu_state (pcb k' c)) = 0 \<and>
         r_esp (p_cpu_state (pcb k' c)) = p_stack_base (pcb k c) + p_stack_size (pcb k c) - 4 \<and>
         p_state (pcb k' c) = (if kernel_process k = Some c then p_state (pcb k c) else PROCESS_TERMINATED) \<and>
         current_process k' = Some c \<and> (\<forall>r. r \<noteq> c \<longrightarrow> pcb k' r = pcb k r))"
proof (cases "program_of (cstr program)")
  case None
  then show ?thesis using sys_exec_cases [OF assms(2,3,1), of L] by auto
next
  case (Some f)
  then obtain k' where k': "sys_exec L (Some program) k = Some (0, k')"
    "same_core k' (process_exit 0 (upd_pcb c (\<lambda>p. exec_name program (exec_registers (code_addr L f) p)) k))"
    using sys_exec_cases [OF assms(2,3,1), of L] by auto
  then show ?thesis
    using Some assms(2)
    by (auto simp: same_core_fields [OF k'(2)] process_exit_def exec_name_def)
qed

theorem sys_exec_correct_witness:
  "\<exists>k'. sys_exec sample_layout (Some (c_literal ''calc'')) two_processes = Some (0, k') \<and>
        r_eip (p_cpu_state (pcb k' (Test_pcb 0))) = 0x200300"
proof -
  have p: "program_of (cstr (c_literal ''calc'')) = Some Demo_calc_process"
    by (simp add: program_of_def)
  have a: "code_addr sample_layout Demo_calc_process = 0x200300" by (simp add: sample_layout_def)
  show ?thesis
    using sys_exec_correct [OF two_processes_table two_processes_fields(3) terminated_c_literal,
        of sample_layout "''calc''"] unfolding p by (auto simp: a)
qed

text \<open>
  C30. \<open>exit\<close> records the code, marks the process TERMINATED and hands over to the head of the ready
  queue. The exiting process is not taken out of the queue (the test that guards this looks at the
  state after it was set): if it was the head it is made RUNNING again.
\<close>

theorem sys_exit_correct:
  assumes "current_process k = Some c" and "queue_rep k q"
  shows "queue_rep (fst (sys_exit code k)) (tl q) \<and>
         p_exit_code (pcb (fst (sys_exit code k)) c) = code \<and>
         p_state (pcb (fst (sys_exit code k)) c) =
           (if q \<noteq> [] \<and> hd q = c then PROCESS_RUNNING else PROCESS_TERMINATED) \<and>
         current_process (fst (sys_exit code k)) = (if q = [] then None else Some (hd q)) \<and>
         process_table (fst (sys_exit code k)) = process_table k \<and>
         snd (sys_exit code k) =
           (if q \<noteq> [] then Switch_to_process (hd q)
            else if kernel_process k = None then No_switch else Idle_switch None (kernel_process k))"
proof -
  obtain k1 where k1: "sys_exit code k = schedule k1" "same_core k1 (exited code c k)"
    using sys_exit_schedules [OF assms(1)] by blast
  note f = same_core_fields [OF k1(2)]
  have q: "queue_rep k1 q" "current_process k1 = None"
    using assms(2) queue_rep_same_core [OF k1(2)] queue_rep_exited by (blast, simp add: f exited_def)
  have "p_state (pcb (fst (schedule k1)) c) =
      (if q \<noteq> [] \<and> hd q = c then PROCESS_RUNNING else PROCESS_TERMINATED)"
    using fun_cong [OF schedule_no_current(3) [OF q(2,1)], of c] by (simp add: states_def f exited_def)
  moreover have "snd (schedule k1) = (if q \<noteq> [] then Switch_to_process (hd q)
      else if kernel_process k = None then No_switch else Idle_switch None (kernel_process k))"
    using queue_rep_head [OF q(1)] q(2) by (simp add: schedule_call f exited_def)
  ultimately show ?thesis
    using schedule_no_current(1,2) [OF q(2,1)] by (simp add: k1(1) f exited_def)
qed

theorem sys_exit_correct_witness:
  "snd (sys_exit 7 two_processes) = Idle_switch None (Some (Test_pcb 0)) \<and>
   p_exit_code (pcb (fst (sys_exit 7 two_processes)) (Test_pcb 0)) = 7"
  using sys_exit_correct [OF two_processes_fields(3) two_processes_queue, of 7]
  by (simp add: two_processes_fields)

text \<open>
  C31. \<open>wait\<close> reaps the terminated child with the lowest PID: it returns its PID, stores its exit code
  if a pointer was given, and cleans it up; without such a child it returns 0 and does nothing.
\<close>

theorem sys_wait_correct:
  assumes "table_ok k" and "current_process k = Some c"
  shows "(\<exists>i r. process_table k i = Some r \<and> p_pid (pcb k r) = i \<and>
             terminated_child k (p_pid (pcb k c)) i \<and> (\<forall>j < i. \<not> terminated_child k (p_pid (pcb k c)) j) \<and>
             sys_wait status k =
               (i, if status then Some (p_exit_code (pcb k r)) else None, process_cleanup (Some r) k)) \<or>
         (\<forall>i. \<not> terminated_child k (p_pid (pcb k c)) i) \<and> sys_wait status k = (0, None, k)"
proof (cases "find (terminated_child k (p_pid (pcb k c))) (map of_nat [0..<256])")
  case None
  then have "\<forall>i < 256. \<not> terminated_child k (p_pid (pcb k c)) i" by (simp only: find_u32_none)
  moreover have "terminated_child k p i \<Longrightarrow> i < 256" for p i
    using table_okD(1) [OF assms(1)] by (fastforce simp: terminated_child_def word_less_nat_alt word_le_nat_alt)
  ultimately show ?thesis using None sys_wait_find [OF assms(2)] by auto
next
  case (Some i)
  note i = find_u32_some [OF Some]
  then obtain r where r: "process_table k i = Some r" by (auto simp: terminated_child_def)
  then have "p_pid (pcb k r) = i" using table_okD(1) [OF assms(1)] by blast
  then show ?thesis using i r Some sys_wait_find [OF assms(2), of status] by auto
qed

text \<open>A parent without children, and one whose child, process 2, has exited with code 42.\<close>

definition child_exited :: kstate where
  "child_exited = upd_pcb (Test_pcb (Suc 0))
     (\<lambda>p. p\<lparr>p_parent_pid := 1, p_state := PROCESS_TERMINATED, p_exit_code := 42\<rparr>) two_processes"

theorem sys_wait_correct_witness:
  "sys_wait True two_processes = (0, None, two_processes) \<and>
   sys_wait True child_exited = (2, Some 42, process_cleanup (Some (Test_pcb (Suc 0))) child_exited)"
proof -
  have n: "\<not> terminated_child two_processes p i" for p i
    by (auto simp: terminated_child_def two_processes_fields split: if_splits)
  have t: "table_ok child_exited"
    unfolding child_exited_def by (intro table_ok_upd two_processes_table) simp_all
  have f: "process_table child_exited = [1 \<mapsto> Test_pcb 0, 2 \<mapsto> Test_pcb (Suc 0)]"
    "current_process child_exited = Some (Test_pcb 0)" "p_pid (pcb child_exited (Test_pcb 0)) = 1"
    "p_state (pcb child_exited (Test_pcb 0)) = PROCESS_READY" "p_exit_code (pcb child_exited (Test_pcb (Suc 0))) = 42"
    using table_okD(1) [OF two_processes_table, of 1] by (simp_all add: child_exited_def two_processes_fields)
  have c: "terminated_child child_exited 1 i \<longleftrightarrow> i = 2" for i
    by (auto simp: terminated_child_def f child_exited_def two_processes_fields split: if_splits)
  show ?thesis
    using sys_wait_correct [OF two_processes_table two_processes_fields(3), of True] n
      sys_wait_correct [OF t f(2), of True] by (auto simp: c f)
qed

text \<open>\<open>wait\<close> when \<open>c\<close> is the terminated child with the lowest PID.\<close>

lemma sys_wait_lowest_child:
  assumes "current_process k = Some p" and "terminated_child k (p_pid (pcb k p)) (p_pid (pcb k c))"
    and "\<And>i. i < p_pid (pcb k c) \<Longrightarrow> \<not> terminated_child k (p_pid (pcb k p)) i"
    and "process_table k (p_pid (pcb k c)) = Some c" and "table_ok k"
  shows "sys_wait True k = (p_pid (pcb k c), Some (p_exit_code (pcb k c)), process_cleanup (Some c) k)"
    "process_find_by_pid (p_pid (pcb k c)) (process_cleanup (Some c) k) = None"
proof -
  let ?P = "terminated_child k (p_pid (pcb k p))"
  have pid: "p_pid (pcb k c) < 256"
    using table_okD(1) [OF assms(5,4)] by (auto simp: word_less_nat_alt word_le_nat_alt)
  then obtain i where i: "find ?P (map of_nat [0..<256]) = Some i"
    using find_u32_none [of ?P] assms(2) by (cases "find ?P (map of_nat [0..<256])") auto
  have "i = p_pid (pcb k c)"
    using find_u32_some [OF i] assms(2,3) by (metis linorder_neqE)
  with i show "sys_wait True k = (p_pid (pcb k c), Some (p_exit_code (pcb k c)), process_cleanup (Some c) k)"
    using sys_wait_find [of k p True] assms(1,4) by simp
  show "process_find_by_pid (p_pid (pcb k c)) (process_cleanup (Some c) k) = None"
    using pid by (simp add: process_cleanup_def Let_def process_find_by_pid_def)
qed

text \<open>
  C13. The exit code reaches the parent, under these conditions: the exiting child is found under its PID and is
  not in the ready queue (a queued one may be started again instead, see the theorem on \<open>exit\<close>), and the
  parent has no terminated child with a lower PID. Then, in the state \<open>exit\<close> leaves with the parent current,
  \<open>wait\<close> returns the child's PID and the code given to \<open>exit\<close>, and the PID is free afterwards. If the
  parent is the first in the queue, \<open>exit\<close> itself makes it current.
\<close>

theorem exit_wait_roundtrip:
  assumes "table_ok k" and "current_process k = Some c" and "process_table k (p_pid (pcb k c)) = Some c"
    and "p_pid (pcb k p) = p_parent_pid (pcb k c)" and "queue_rep k q" and "c \<notin> set q"
    and "\<And>i. i < p_pid (pcb k c) \<Longrightarrow> \<not> terminated_child k (p_pid (pcb k p)) i"
    and "e = fst (sys_exit code k)"
  shows "(\<exists>k'. sys_wait True (e\<lparr>current_process := Some p\<rparr>) = (p_pid (pcb k c), Some code, k') \<and>
            process_find_by_pid (p_pid (pcb k c)) k' = None) \<and>
         (q \<noteq> [] \<and> hd q = p \<longrightarrow> e\<lparr>current_process := Some p\<rparr> = e)"
proof -
  let ?e = "e\<lparr>current_process := Some p\<rparr>"
  obtain k1 where k1: "sys_exit code k = schedule k1" "same_core k1 (exited code c k)"
    using sys_exit_schedules [OF assms(2)] by blast
  note e = assms(8) [unfolded k1(1)] and f = same_core_fields [OF k1(2)]
  have q: "queue_rep k1 q" "current_process k1 = None"
    using assms(5) queue_rep_same_core [OF k1(2)] queue_rep_exited by (blast, simp add: f exited_def)
  have st: "p_state (pcb ?e r) = (if q \<noteq> [] \<and> hd q = r then PROCESS_RUNNING
      else if r = c then PROCESS_TERMINATED else p_state (pcb k r))" for r
    using fun_cong [OF schedule_no_current(3) [OF q(2,1)], of r] by (auto simp: states_def e f exited_def)
  have pc: "p_pid (pcb ?e r) = p_pid (pcb k r)" "p_parent_pid (pcb ?e r) = p_parent_pid (pcb k r)" for r
    by (simp_all add: e f exited_def)
  have tab: "process_table ?e = process_table k" by (simp add: e f exited_def)
  have table: "table_ok ?e"
    using sys_exit_table [OF assms(1), of code] unfolding assms(8) by (rule table_ok_current)
  have lowest: "\<not> terminated_child ?e (p_pid (pcb ?e p)) i" if i: "i < p_pid (pcb ?e c)" for i
  proof
    assume "terminated_child ?e (p_pid (pcb ?e p)) i"
    then obtain r where r: "process_table k i = Some r" "p_parent_pid (pcb k r) = p_pid (pcb k p)"
      "p_state (pcb ?e r) = PROCESS_TERMINATED"
      unfolding terminated_child_def tab pc by blast
    have "i \<noteq> p_pid (pcb k c)" using i pc(1) by auto
    then have "r \<noteq> c" using table_okD(1) [OF assms(1) r(1)] by blast
    then show False
      using r assms(7) [of i] i st [of r] pc(1) by (auto simp: terminated_child_def split: if_splits)
  qed
  have "p_state (pcb ?e c) = PROCESS_TERMINATED" using st [of c] assms(6) by (cases q) auto
  then have mine: "terminated_child ?e (p_pid (pcb ?e p)) (p_pid (pcb ?e c))"
    unfolding terminated_child_def tab pc using assms(3,4) by auto
  have "sys_wait True ?e = (p_pid (pcb ?e c), Some (p_exit_code (pcb ?e c)), process_cleanup (Some c) ?e)"
    "process_find_by_pid (p_pid (pcb ?e c)) (process_cleanup (Some c) ?e) = None"
    using sys_wait_lowest_child [OF _ mine lowest _ table] by (simp_all add: tab [simplified] pc(1) [simplified] assms(3))
  moreover have "p_exit_code (pcb ?e c) = code" by (simp add: e f exited_def)
  moreover have "e\<lparr>current_process := Some p\<rparr> = e" if "q \<noteq> []" "hd q = p"
    using schedule_no_current(2) [OF q(2,1)] that e by (intro kstate.equality) simp_all
  ultimately show ?thesis using pc(1) by simp
qed

text \<open>Process 2 as the running child of process 1, which waits in the ready queue.\<close>

definition child_runs :: kstate where
  "child_runs = add_to_ready_queue (Some (Test_pcb 0))
     ((upd_pcb (Test_pcb (Suc 0)) (\<lambda>p. p\<lparr>p_parent_pid := 1, p_state := PROCESS_RUNNING\<rparr>) two_processes)
       \<lparr>current_process := Some (Test_pcb (Suc 0))\<rparr>)"

lemma two_processes_pids:
  "p_pid (pcb two_processes (Test_pcb 0)) = 1" "p_pid (pcb two_processes (Test_pcb (Suc 0))) = 2"
  using table_okD(1) [OF two_processes_table, of 1] table_okD(1) [OF two_processes_table, of 2]
  by (auto simp: two_processes_fields)

lemma child_runs_fields:
  "process_table child_runs = [1 \<mapsto> Test_pcb 0, 2 \<mapsto> Test_pcb (Suc 0)]" "current_process child_runs = Some (Test_pcb (Suc 0))"
  "p_pid (pcb child_runs (Test_pcb 0)) = 1" "p_pid (pcb child_runs (Test_pcb (Suc 0))) = 2"
  "p_parent_pid (pcb child_runs (Test_pcb (Suc 0))) = 1"
  "p_state (pcb child_runs (Test_pcb 0)) = PROCESS_READY" "p_state (pcb child_runs (Test_pcb (Suc 0))) = PROCESS_RUNNING"
  using unlink_eqD [OF add_to_ready_queue_unlink, of "Some (Test_pcb 0)" _ "Test_pcb (Suc 0)"]
  by (simp_all add: child_runs_def two_processes_fields two_processes_pids)

theorem exit_wait_roundtrip_witness:
  "\<exists>k'. sys_wait True (fst (sys_exit 42 child_runs)) = (2, Some 42, k') \<and> process_find_by_pid 2 k' = None"
proof -
  have t: "table_ok child_runs"
    unfolding child_runs_def by (intro table_ok_queue_ops(1) table_ok_current table_ok_upd two_processes_table) simp_all
  have q: "queue_rep child_runs [Test_pcb 0]"
    unfolding child_runs_def
    by (rule add_to_ready_queue_rep [of _ "[]" "Test_pcb 0", simplified])
      (simp_all add: queue_rep_Nil two_processes_fields)
  have n: "\<not> terminated_child child_runs p i" for p i
    by (auto simp: terminated_child_def child_runs_fields split: if_splits)
  have h: "process_table child_runs (p_pid (pcb child_runs (Test_pcb (Suc 0)))) = Some (Test_pcb (Suc 0))"
    "p_pid (pcb child_runs (Test_pcb 0)) = p_parent_pid (pcb child_runs (Test_pcb (Suc 0)))" "Test_pcb (Suc 0) \<notin> set [Test_pcb 0]"
    by (simp_all add: child_runs_fields)
  have "(\<exists>k'. sys_wait True ((fst (sys_exit 42 child_runs))\<lparr>current_process := Some (Test_pcb 0)\<rparr>) =
        (p_pid (pcb child_runs (Test_pcb (Suc 0))), Some 42, k') \<and>
        process_find_by_pid (p_pid (pcb child_runs (Test_pcb (Suc 0)))) k' = None) \<and>
      ([Test_pcb 0] \<noteq> [] \<and> hd [Test_pcb 0] = Test_pcb 0 \<longrightarrow>
        (fst (sys_exit 42 child_runs))\<lparr>current_process := Some (Test_pcb 0)\<rparr> = fst (sys_exit 42 child_runs))"
    by (rule exit_wait_roundtrip [OF t child_runs_fields(2) h(1,2) q h(3) n refl])
  then show ?thesis unfolding child_runs_fields(4) list.sel(1) by (elim conjE) (simp only: not_Cons_self list.distinct simp_thms)
qed

lemma free_then_fields:
  assumes "(if c then map_option (upd_pcb r f) (free_region L b k) else Some k) = Some k'"
  shows "process_table k' = process_table k" "kernel_process k' = kernel_process k"
    "x \<noteq> r \<Longrightarrow> pcb k' x = pcb k x"
  using assms free_region_fields(1,2,8) [of L b k] by (auto split: if_splits)

lemma process_kill_frame:
  assumes "process_kill_by_pid L pid k = Some (res, k')" and "kernel_process k = Some kp"
  shows "pcb k' kp = pcb k kp \<and> kernel_process k' = Some kp \<and>
    (\<forall>i. process_table k i = Some kp \<longrightarrow> process_table k' i = Some kp)"
proof (cases "pid = 1 \<or> process_find_by_pid pid k = None \<or> process_find_by_pid pid k = Some kp")
  case True
  then have "same_core k' k"
    using assms by (auto simp: process_kill_by_pid_def split: if_splits)
  then show ?thesis using assms(2) by (simp add: same_core_fields)
next
  case False
  then obtain r where r: "process_find_by_pid pid k = Some r" "r \<noteq> kp" "pid \<noteq> 1" by auto
  then have cond: "(Some r = current_process k \<and> current_process k = kernel_process k) = False"
    "(Some r = kernel_process k) = False" "(pid = 1) = False"
    using assms(2) by auto
  with r obtain k1 k2 where
    k1: "(if p_stack_base (pcb k r) \<noteq> 0
          then map_option (upd_pcb r (\<lambda>p. p\<lparr>p_stack_base := 0, p_stack_size := 0\<rparr>))
                 (free_region L (p_stack_base (pcb k r)) k) else Some k) = Some k1" and
    k2: "(if p_heap_base (pcb k1 r) \<noteq> 0
          then map_option (upd_pcb r (\<lambda>p. p\<lparr>p_heap_base := 0, p_heap_size := 0\<rparr>))
                 (free_region L (p_heap_base (pcb k1 r)) k1) else Some k1) = Some k2" and
    k': "k' = (if pid < MAX_PROCESSES then set_table pid None (upd_pcb r (\<lambda>p. p\<lparr>p_state := PROCESS_TERMINATED\<rparr>) k2)
               else upd_pcb r (\<lambda>p. p\<lparr>p_state := PROCESS_TERMINATED\<rparr>) k2)"
    using assms cond by (auto simp: process_kill_by_pid_def Let_def simp del: process_consts split del: if_split)
  have "process_table k pid = Some r" using r(1) by (simp add: process_find_by_pid_def split: if_splits)
  then show ?thesis
    using free_then_fields [OF k1] free_then_fields [OF k2] r(2) assms(2) by (auto simp: k')
qed

text \<open>
  C19. The kernel process is protected: no \<open>kill\<close> system call with any signal, and no shell kill of any
  PID, changes its control block, its table entries or \<open>kernel_process\<close> itself.
\<close>

theorem kernel_process_protected:
  assumes "kernel_process k = Some kp"
  shows "pcb (snd (sys_kill pid sig k)) kp = pcb k kp \<and>
         process_table (snd (sys_kill pid sig k)) = process_table k \<and>
         kernel_process (snd (sys_kill pid sig k)) = Some kp \<and>
         (\<forall>res k'. process_kill_by_pid L pid k = Some (res, k') \<longrightarrow>
            pcb k' kp = pcb k kp \<and> kernel_process k' = Some kp \<and>
            (\<forall>i. process_table k i = Some kp \<longrightarrow> process_table k' i = Some kp))"
proof -
  have "pcb (snd (sys_kill pid sig k)) kp = pcb k kp"
    "process_table (snd (sys_kill pid sig k)) = process_table k"
    "kernel_process (snd (sys_kill pid sig k)) = Some kp"
    using assms by (auto simp: sys_kill_def Let_def split: option.splits)
  then show ?thesis using process_kill_frame [OF _ assms] by blast
qed

theorem kernel_process_protected_witness:
  "pcb (snd (sys_kill 1 9 two_processes)) (Test_pcb 0) = pcb two_processes (Test_pcb 0)"
  using kernel_process_protected [OF two_processes_fields(2), of 1 9] by blast

text \<open>
  C32. Every system call number is handled and keeps the process table well formed, provided the current process
  is a created block and string arguments are terminated. All calls but \<open>exit\<close> return to the caller without
  a switch; \<open>exit\<close> ends in the state and the switch of its \<open>schedule\<close>, behind which nothing is claimed.
  An unknown number gives -1, and only prints a message.
\<close>

theorem syscall_handler_total:
  assumes "table_ok k" and "\<And>c. current_process k = Some c \<Longrightarrow> created k c"
    and "\<And>a s. string_at a = Some s \<Longrightarrow> terminated s"
  shows "\<exists>r. syscall_handler L string_at syscall_num arg1 arg2 arg3 k = Some r \<and> table_ok (sr_state r) \<and>
    (if syscall_num = SYS_EXIT then (sr_state r, sr_call r) = sys_exit (sint arg1) k else sr_call r = No_switch) \<and>
    (syscall_num = 0 \<or> 6 < syscall_num \<longrightarrow> sr_value r = -1 \<and> same_core (sr_state r) k)"
proof -
  have unknown: "syscall_num = 0 \<or> 6 < syscall_num \<Longrightarrow> syscall_num \<notin> {1, 2, 3, 4, 5, 6}"
    by (auto simp: word_less_nat_alt)
  consider "syscall_num = 1" | "syscall_num = 2" | "syscall_num = 3" | "syscall_num \<notin> {1, 2, 3}" by blast
  then show ?thesis
  proof cases
    case 1
    then show ?thesis
      using sys_exit_table [OF assms(1), of "sint arg1"]
      by (auto simp: syscall_handler_def sys_numbers split: prod.splits)
  next
    case 2
    then show ?thesis
      using sys_fork_table [OF assms(1,2), of L] by (auto simp: syscall_handler_def sys_numbers returns_def)
  next
    case 3
    then show ?thesis
      using sys_exec_table [OF assms(1), of "string_at arg1" L] assms(3)
      by (auto simp: syscall_handler_def sys_numbers returns_def)
  next
    case 4
    then show ?thesis
      using sys_wait_table [OF assms(1), of "arg1 \<noteq> 0"] sys_kill_table [OF assms(1), of arg1 "sint arg2"]
        assms(1) unknown
      by (auto simp: syscall_handler_def sys_numbers returns_def Let_def table_ok_same_core split: prod.splits)
  qed
qed

theorem syscall_handler_total_witness:
  "\<exists>r. syscall_handler sample_layout (\<lambda>_. Some (c_literal ''hello'')) 9 0 0 0 two_processes = Some r \<and> sr_value r = -1"
proof -
  have "created two_processes (Test_pcb 0)" by (simp add: created_def two_processes_counts)
  then show ?thesis
    using syscall_handler_total [OF two_processes_table, of "\<lambda>_. Some (c_literal ''hello'')" sample_layout 9 0 0 0]
    by (auto simp: two_processes_fields)
qed

end
