(* ===== verification/Idt.thy ===== *)
theory Idt
  imports Demo
begin

text \<open>
  The interrupt descriptor table of \<open>kernel/arch/idt.c\<close> and the set-up of the timer chip in
  \<open>timer_init\<close> (\<open>kernel/drivers/timer.c\<close>). Loading the table is the call of the assembly routine
  \<open>idt_flush\<close>, recorded in \<open>idt_flushed\<close>; writes to I/O ports are the list \<open>port_writes\<close>, latest
  last.
\<close>

section \<open>State\<close>

record idt_entry =
  base_low :: u16
  sel :: u16
  always0 :: u8
  flags :: u8
  base_high :: u16

record idt_state =
  idt_entries :: "u8 \<Rightarrow> idt_entry"
  idt_p_limit :: u16
  idt_p_base :: u32
  idt_flushed :: "u32 option"
  port_writes :: "(u16 \<times> u8) list"

definition IDT_ENTRIES :: nat where "IDT_ENTRIES = 256"
definition TIMER_FREQUENCY :: u32 where "TIMER_FREQUENCY = 100"

definition outb :: "u16 \<Rightarrow> u8 \<Rightarrow> idt_state \<Rightarrow> idt_state" where
  "outb port val i = i\<lparr>port_writes := port_writes i @ [(port, val)]\<rparr>"

definition idt_flush :: "u32 \<Rightarrow> idt_state \<Rightarrow> idt_state" where
  "idt_flush p i = i\<lparr>idt_flushed := Some p\<rparr>"

section \<open>Operations\<close>

definition idt_set_gate :: "u8 \<Rightarrow> u32 \<Rightarrow> u16 \<Rightarrow> u8 \<Rightarrow> idt_state \<Rightarrow> idt_state" where
  "idt_set_gate num base s f i =
     i\<lparr>idt_entries := (idt_entries i)(num :=
         \<lparr>base_low = ucast (base AND 0xFFFF), sel = s, always0 = 0, flags = f,
          base_high = ucast (drop_bit 16 base AND 0xFFFF)\<rparr>)\<rparr>"

text \<open>The body of the clearing loop of \<open>idt_init\<close>.\<close>

definition idt_clear_entry :: "nat \<Rightarrow> idt_state \<Rightarrow> idt_state" where
  "idt_clear_entry n i =
     i\<lparr>idt_entries := (idt_entries i)(of_nat n :=
         \<lparr>base_low = 0, sel = 0, always0 = 0, flags = 0, base_high = 0\<rparr>)\<rparr>"

definition idt_init :: "layout \<Rightarrow> idt_state \<Rightarrow> idt_state" where
  "idt_init L i =
     (let i = i\<lparr>idt_p_limit := of_nat (8 * IDT_ENTRIES - 1)\<rparr>;
          i = i\<lparr>idt_p_base := idt_entries_addr L\<rparr>;
          i = for_loop 0 IDT_ENTRIES idt_clear_entry i;
          i = idt_set_gate 0 (code_addr L Exception_handler) 0x08 0x8E i;
          i = idt_set_gate 1 (code_addr L Exception_handler) 0x08 0x8E i;
          i = idt_set_gate 2 (code_addr L Exception_handler) 0x08 0x8E i;
          i = idt_set_gate 3 (code_addr L Exception_handler) 0x08 0x8E i;
          i = idt_set_gate 4 (code_addr L Exception_handler) 0x08 0x8E i;
          i = idt_set_gate 5 (code_addr L Exception_handler) 0x08 0x8E i;
          i = idt_set_gate 6 (code_addr L Exception_handler) 0x08 0x8E i;
          i = idt_set_gate 7 (code_addr L Exception_handler) 0x08 0x8E i
      in idt_flush (idt_p_addr L) i)"

text \<open>The state in which \<open>exception_handler\<close> enters its \<open>hlt\<close> loop, which it never leaves.\<close>

definition exception_handler :: "kstate \<Rightarrow> kstate" where
  "exception_handler k =
     (let k = kset_color VGA_COLOR_WHITE VGA_COLOR_RED k
      in kputs ''\<newline>EXCEPTION OCCURRED - System Halted\<newline>'' k)"

definition timer_init :: "layout \<Rightarrow> kstate \<times> idt_state \<Rightarrow> kstate \<times> idt_state" where
  "timer_init L = (\<lambda>(k, i).
     let k = kputs ''  Initializing timer (PIT)...\<newline>'' k;
         divisor = 1193180 div TIMER_FREQUENCY;
         i = outb 0x43 0x36 i;
         i = outb 0x40 (ucast (divisor AND 0xFF)) i;
         i = outb 0x40 (ucast (drop_bit 8 divisor AND 0xFF)) i;
         i = idt_set_gate 32 (code_addr L Timer_interrupt_wrapper) 0x08 0x8E i;
         k = kputs ''  Timer initialized at '' k;
         k = kprint_hex TIMER_FREQUENCY k;
         k = kputs '' Hz\<newline>'' k
     in (k, i))"

section \<open>Lemmas\<close>

text \<open>The address the processor reads out of an entry.\<close>

definition gate_base :: "idt_entry \<Rightarrow> u32" where
  "gate_base e = ucast (base_low e) OR push_bit 16 (ucast (base_high e))"

lemma gate_base_split:
  "(ucast (ucast (w AND 0xFFFF) :: u16) :: u32) OR push_bit 16 (ucast (ucast (drop_bit 16 w AND 0xFFFF) :: u16)) = w"
  for w :: u32
proof -
  have m: "(0xFFFF :: u32) = mask 16" by (simp add: mask_eq_exp_minus_1)
  show ?thesis unfolding m by (rule bit_word_eqI) (auto simp: bit_simps)
qed

lemma idt_set_gate_base [simp]: "gate_base (idt_entries (idt_set_gate n base s f i) n) = base"
  by (simp add: idt_set_gate_def gate_base_def gate_base_split)

lemma idt_set_gate_fields [simp]:
  "flags (idt_entries (idt_set_gate n base s f i) n) = f"
  "sel (idt_entries (idt_set_gate n base s f i) n) = s"
  "always0 (idt_entries (idt_set_gate n base s f i) n) = 0"
  "m \<noteq> n \<Longrightarrow> idt_entries (idt_set_gate n base s f i) m = idt_entries i m"
  "idt_p_limit (idt_set_gate n base s f i) = idt_p_limit i"
  "idt_p_base (idt_set_gate n base s f i) = idt_p_base i"
  "idt_flushed (idt_set_gate n base s f i) = idt_flushed i"
  "port_writes (idt_set_gate n base s f i) = port_writes i"
  by (simp_all add: idt_set_gate_def)

lemma idt_clear_loop:
  "n \<le> 256 \<Longrightarrow> idt_entries (for_loop 0 n idt_clear_entry i) m =
     (if unat m < n then \<lparr>base_low = 0, sel = 0, always0 = 0, flags = 0, base_high = 0\<rparr> else idt_entries i m)"
proof (induction n)
  case (Suc n)
  have "m = of_nat n \<longleftrightarrow> unat m = n"
    using Suc.prems by (auto simp: unat_of_nat take_bit_nat_eq_self)
  with Suc show ?case by (auto simp: for_loop_Suc idt_clear_entry_def)
qed simp

lemma idt_clear_fields [simp]:
  "idt_p_limit (for_loop 0 n idt_clear_entry i) = idt_p_limit i"
  "idt_p_base (for_loop 0 n idt_clear_entry i) = idt_p_base i"
  by (rule for_loop_const, simp add: idt_clear_entry_def)+

lemma idt_init_gates:
  "gate_base (idt_entries (idt_init L i) 0) = code_addr L Exception_handler" "flags (idt_entries (idt_init L i) 8) = 0"
proof -
  define c where "c = for_loop 0 256 idt_clear_entry (i\<lparr>idt_p_limit := 2047, idt_p_base := idt_entries_addr L\<rparr>)"
  have "flags (idt_entries c 8) = 0" by (simp add: c_def idt_clear_loop)
  then show "gate_base (idt_entries (idt_init L i) 0) = code_addr L Exception_handler" "flags (idt_entries (idt_init L i) 8) = 0"
    by (simp_all add: idt_init_def Let_def IDT_ENTRIES_def idt_flush_def gate_base_def gate_base_split
        idt_set_gate_def c_def [symmetric])
qed

lemma timer_init_gates:
  "gate_base (idt_entries (snd (timer_init L (k, i))) 32) = code_addr L Timer_interrupt_wrapper"
  "flags (idt_entries (snd (timer_init L (k, i))) 32) = 0x8E"
  "n \<noteq> 32 \<Longrightarrow> idt_entries (snd (timer_init L (k, i))) n = idt_entries i n"
  by (simp_all add: timer_init_def Let_def outb_def TIMER_FREQUENCY_def)

section \<open>Properties\<close>

text \<open>
  After \<open>idt_init\<close> the table is loaded with limit 2047; the eight exception vectors are present
  interrupt gates of the kernel code segment for \<open>exception_handler\<close>, all other vectors are not
  present.
\<close>

theorem idt_init_correct:
  "idt_flushed (idt_init L i) = Some (idt_p_addr L) \<and> idt_p_limit (idt_init L i) = 2047 \<and>
   idt_p_base (idt_init L i) = idt_entries_addr L \<and>
   (\<forall>n. if unat n < 8
        then gate_base (idt_entries (idt_init L i) n) = code_addr L Exception_handler \<and>
             sel (idt_entries (idt_init L i) n) = 0x08 \<and> flags (idt_entries (idt_init L i) n) = 0x8E \<and>
             always0 (idt_entries (idt_init L i) n) = 0
        else flags (idt_entries (idt_init L i) n) = 0)"
proof -
  define c where "c = for_loop 0 256 idt_clear_entry (i\<lparr>idt_p_limit := 2047, idt_p_base := idt_entries_addr L\<rparr>)"
  have c: "idt_entries c n = \<lparr>base_low = 0, sel = 0, always0 = 0, flags = 0, base_high = 0\<rparr>" for n
    using unsigned_less [of n, where 'a = nat] by (simp add: c_def idt_clear_loop)
  have "unat n < 8 \<longleftrightarrow> n \<in> {0, 1, 2, 3, 4, 5, 6, 7}" for n :: u8
  proof
    assume "unat n < 8"
    then have "unat n \<in> {0, 1, 2, 3, 4, 5, 6, 7}" by auto
    then show "n \<in> {0, 1, 2, 3, 4, 5, 6, 7}" by (auto simp: word_eq_unat)
  qed auto
  then show ?thesis
    by (auto simp: idt_init_def Let_def IDT_ENTRIES_def idt_flush_def gate_base_def gate_base_split
        idt_set_gate_def c c_def [symmetric]) (simp_all add: c_def)
qed

text \<open>
  \<open>timer_init\<close> programs channel 0 with the mode byte and then a divisor whose low and high byte
  are 1193180 / 100, installs the timer wrapper as vector 32 and leaves every other gate alone.
\<close>

theorem timer_init_correct:
  "\<exists>lo hi. port_writes (snd (timer_init L (k, i))) = port_writes i @ [(0x43, 0x36), (0x40, lo), (0x40, hi)] \<and>
     unat hi * 256 + unat lo = 1193180 div 100 \<and>
     gate_base (idt_entries (snd (timer_init L (k, i))) 32) = code_addr L Timer_interrupt_wrapper \<and>
     flags (idt_entries (snd (timer_init L (k, i))) 32) = 0x8E \<and>
     (\<forall>n. n \<noteq> 32 \<longrightarrow> idt_entries (snd (timer_init L (k, i))) n = idt_entries i n) \<and>
     same_core (fst (timer_init L (k, i))) k"
  by (simp add: timer_init_def Let_def outb_def TIMER_FREQUENCY_def)

end
