(* ===== verification/Keyboard.thy ===== *)
theory Keyboard
  imports Vga Cstring
begin

text \<open>
  The polled keyboard driver, \<open>kernel/drivers/keyboard.{h,c}\<close>: the scancode tables with shift and
  caps lock, the modifier state, and the line editor of \<open>keyboard_get_input\<close> with its key repeat.
  Every read of the data port is an element of an input list, 0 when no key is active. One
  iteration of the polling loop is \<open>keyboard_poll\<close>; the delay loops have no effect on the state.
\<close>

section \<open>keyboard.h\<close>

record keyboard_state =
  last_scancode :: u8
  enter_cooldown :: int
  buffer_pos :: int
  input_buffer :: "u8 list"
  held_key :: u8
  key_hold_time :: int
  repeat_delay :: int
  held_key_char :: u8
  shift_pressed :: u8
  caps_lock_on :: u8
  ctrl_pressed :: u8
  alt_pressed :: u8

definition ENTER_SCANCODE :: u8 where "ENTER_SCANCODE = 0x1C"
definition BACKSPACE_SCANCODE :: u8 where "BACKSPACE_SCANCODE = 0x0E"
definition TAB_SCANCODE :: u8 where "TAB_SCANCODE = 0x0F"
definition CAPS_LOCK_SCANCODE :: u8 where "CAPS_LOCK_SCANCODE = 0x3A"
definition LEFT_SHIFT_SCANCODE :: u8 where "LEFT_SHIFT_SCANCODE = 0x2A"
definition RIGHT_SHIFT_SCANCODE :: u8 where "RIGHT_SHIFT_SCANCODE = 0x36"
definition LEFT_CTRL_SCANCODE :: u8 where "LEFT_CTRL_SCANCODE = 0x1D"
definition LEFT_ALT_SCANCODE :: u8 where "LEFT_ALT_SCANCODE = 0x38"
definition SPACE_SCANCODE :: u8 where "SPACE_SCANCODE = 0x39"

definition ENTER_COOLDOWN_CYCLES :: int where "ENTER_COOLDOWN_CYCLES = 5000"
definition KEY_REPEAT_INITIAL_DELAY :: int where "KEY_REPEAT_INITIAL_DELAY = 10000"
definition KEY_REPEAT_RATE :: int where "KEY_REPEAT_RATE = 5000"
definition KEY_REPEAT_FAST_RATE :: int where "KEY_REPEAT_FAST_RATE = 5000"
definition KEY_REPEAT_ACCELERATION_THRESHOLD :: int where "KEY_REPEAT_ACCELERATION_THRESHOLD = 20000"

lemmas key_codes = ENTER_SCANCODE_def BACKSPACE_SCANCODE_def TAB_SCANCODE_def CAPS_LOCK_SCANCODE_def
  LEFT_SHIFT_SCANCODE_def RIGHT_SHIFT_SCANCODE_def LEFT_CTRL_SCANCODE_def LEFT_ALT_SCANCODE_def
  SPACE_SCANCODE_def

lemmas key_delays = ENTER_COOLDOWN_CYCLES_def KEY_REPEAT_INITIAL_DELAY_def KEY_REPEAT_RATE_def
  KEY_REPEAT_FAST_RATE_def KEY_REPEAT_ACCELERATION_THRESHOLD_def

section \<open>Characters\<close>

text \<open>
  The switch of \<open>scancode_to_ascii\<close>: keys that shift changes, with both characters, and letters.
\<close>

definition shift_keys :: "(u8 \<times> char \<times> char) list" where
  "shift_keys =
     [(0x02, CHR ''1'', CHR ''!''), (0x03, CHR ''2'', CHR ''@''), (0x04, CHR ''3'', CHR ''#''),
      (0x05, CHR ''4'', CHR ''$''), (0x06, CHR ''5'', CHR ''%''), (0x07, CHR ''6'', CHR ''^''),
      (0x08, CHR ''7'', CHR ''&''), (0x09, CHR ''8'', CHR ''*''), (0x0A, CHR ''9'', CHR ''(''),
      (0x0B, CHR ''0'', CHR '')''), (0x0C, CHR ''-'', CHR ''_''), (0x0D, CHR ''='', CHR ''+''),
      (0x1A, CHR ''['', CHR ''{''), (0x1B, CHR '']'', CHR ''}''), (0x27, CHR '';'', CHR '':''),
      (0x28, CHR 0x27, CHR 0x22), (0x29, CHR 0x60, CHR ''~''), (0x2B, CHR 0x5C, CHR ''|''),
      (0x33, CHR '','', CHR ''<''), (0x34, CHR ''.'', CHR ''>''), (0x35, CHR ''/'', CHR ''?'')]"

definition letter_keys :: "(u8 \<times> char \<times> char) list" where
  "letter_keys =
     [(0x10, CHR ''q'', CHR ''Q''), (0x11, CHR ''w'', CHR ''W''), (0x12, CHR ''e'', CHR ''E''),
      (0x13, CHR ''r'', CHR ''R''), (0x14, CHR ''t'', CHR ''T''), (0x15, CHR ''y'', CHR ''Y''),
      (0x16, CHR ''u'', CHR ''U''), (0x17, CHR ''i'', CHR ''I''), (0x18, CHR ''o'', CHR ''O''),
      (0x19, CHR ''p'', CHR ''P''), (0x1E, CHR ''a'', CHR ''A''), (0x1F, CHR ''s'', CHR ''S''),
      (0x20, CHR ''d'', CHR ''D''), (0x21, CHR ''f'', CHR ''F''), (0x22, CHR ''g'', CHR ''G''),
      (0x23, CHR ''h'', CHR ''H''), (0x24, CHR ''j'', CHR ''J''), (0x25, CHR ''k'', CHR ''K''),
      (0x26, CHR ''l'', CHR ''L''), (0x2C, CHR ''z'', CHR ''Z''), (0x2D, CHR ''x'', CHR ''X''),
      (0x2E, CHR ''c'', CHR ''C''), (0x2F, CHR ''v'', CHR ''V''), (0x30, CHR ''b'', CHR ''B''),
      (0x31, CHR ''n'', CHR ''N''), (0x32, CHR ''m'', CHR ''M'')]"

definition scancode_to_ascii :: "keyboard_state \<Rightarrow> u8 \<Rightarrow> u8" where
  "scancode_to_ascii kb scancode =
     (case map_of shift_keys scancode of
        Some (plain, shifted) \<Rightarrow> of_char (if shift_pressed kb \<noteq> 0 then shifted else plain)
      | None \<Rightarrow>
          (case map_of letter_keys scancode of
             Some (lower, upper) \<Rightarrow>
               (let caps_effect = caps_lock_on kb \<noteq> shift_pressed kb
                in of_char (if caps_effect then upper else lower))
           | None \<Rightarrow>
               if scancode = SPACE_SCANCODE then of_char CHR '' ''
               else if scancode = TAB_SCANCODE then of_char CHR 0x09 else 0))"

section \<open>Modifiers\<close>

definition keyboard_update_modifiers :: "u8 \<Rightarrow> bool \<Rightarrow> keyboard_state \<Rightarrow> keyboard_state" where
  "keyboard_update_modifiers scancode key_released kb =
     (if key_released then
        (if scancode = LEFT_SHIFT_SCANCODE \<or> scancode = RIGHT_SHIFT_SCANCODE then kb\<lparr>shift_pressed := 0\<rparr>
         else if scancode = LEFT_CTRL_SCANCODE then kb\<lparr>ctrl_pressed := 0\<rparr>
         else if scancode = LEFT_ALT_SCANCODE then kb\<lparr>alt_pressed := 0\<rparr>
         else kb)
      else
        (if scancode = LEFT_SHIFT_SCANCODE \<or> scancode = RIGHT_SHIFT_SCANCODE then kb\<lparr>shift_pressed := 1\<rparr>
         else if scancode = LEFT_CTRL_SCANCODE then kb\<lparr>ctrl_pressed := 1\<rparr>
         else if scancode = LEFT_ALT_SCANCODE then kb\<lparr>alt_pressed := 1\<rparr>
         else if scancode = CAPS_LOCK_SCANCODE
         then kb\<lparr>caps_lock_on := (if caps_lock_on kb = 0 then 1 else 0)\<rparr>
         else kb))"

definition is_modifier :: "u8 \<Rightarrow> bool" where
  "is_modifier scancode \<longleftrightarrow>
     scancode = LEFT_SHIFT_SCANCODE \<or> scancode = RIGHT_SHIFT_SCANCODE \<or>
     scancode = LEFT_CTRL_SCANCODE \<or> scancode = LEFT_ALT_SCANCODE \<or> scancode = CAPS_LOCK_SCANCODE"

section \<open>Editing\<close>

type_synonym kbd = "keyboard_state \<times> vga_state"

abbreviation backspace :: string where "backspace \<equiv> [CHR 0x08]"

abbreviation show_cursor :: "vga_state \<Rightarrow> vga_state" where
  "show_cursor \<equiv> vga_putchar (of_char CHR ''_'')"

text \<open>\<open>kb_state.input_buffer[kb_state.buffer_pos++] = c\<close>, echoed in brown.\<close>

definition kb_insert :: "u8 \<Rightarrow> kbd \<Rightarrow> kbd" where
  "kb_insert c = (\<lambda>(kb, v).
     (kb\<lparr>input_buffer := (input_buffer kb)[nat (buffer_pos kb) := c], buffer_pos := buffer_pos kb + 1\<rparr>,
      vga_set_color VGA_COLOR_WHITE VGA_COLOR_BLACK
        (vga_putchar c (vga_set_color VGA_COLOR_LIGHT_BROWN VGA_COLOR_BLACK v))))"

definition kb_erase :: "kbd \<Rightarrow> kbd" where
  "kb_erase = (\<lambda>(kb, v).
     if buffer_pos kb > 0
     then (kb\<lparr>buffer_pos := buffer_pos kb - 1\<rparr>, vga_puts backspace (vga_puts (backspace @ '' '') v))
     else (kb, v))"

text \<open>The repetition of the held key, which the source has twice.\<close>

definition kb_repeat :: "kbd \<Rightarrow> kbd" where
  "kb_repeat = (\<lambda>(kb, v).
     let v = vga_puts backspace v;
         (kb, v) =
           (if held_key kb = BACKSPACE_SCANCODE then kb_erase (kb, v)
            else if held_key_char kb \<noteq> of_char CHR 0x08 \<and> buffer_pos kb < 255
            then kb_insert (held_key_char kb) (kb, v)
            else (kb, v));
         v = show_cursor v
     in (if key_hold_time kb > KEY_REPEAT_ACCELERATION_THRESHOLD
         then kb\<lparr>repeat_delay := KEY_REPEAT_FAST_RATE\<rparr>
         else kb\<lparr>repeat_delay := KEY_REPEAT_RATE\<rparr>, v))"

text \<open>A release (scancode with bit 7), a held key, and a poll without activity.\<close>

definition kb_release :: "u8 \<Rightarrow> keyboard_state \<Rightarrow> keyboard_state" where
  "kb_release scancode kb =
     (let released_key = scancode - 0x80;
          kb = keyboard_update_modifiers released_key True kb;
          kb = (if released_key = held_key kb
                then kb\<lparr>held_key := 0, key_hold_time := 0, repeat_delay := 0, held_key_char := 0\<rparr> else kb)
      in kb\<lparr>last_scancode := 0\<rparr>)"

definition kb_held :: "kbd \<Rightarrow> kbd" where
  "kb_held = (\<lambda>(kb, v).
     let kb = kb\<lparr>key_hold_time := s32 (key_hold_time kb + 1)\<rparr>
     in if repeat_delay kb > 0 then (kb\<lparr>repeat_delay := repeat_delay kb - 1\<rparr>, v)
        else if held_key_char kb \<noteq> 0 then kb_repeat (kb, v) else (kb, v))"

definition kb_idle :: "kbd \<Rightarrow> kbd" where
  "kb_idle = (\<lambda>(kb, v).
     if held_key kb \<noteq> 0 \<and> held_key_char kb \<noteq> 0
     then
       (let kb = kb\<lparr>key_hold_time := s32 (key_hold_time kb + 1)\<rparr>
        in if repeat_delay kb > 0 then (kb\<lparr>repeat_delay := repeat_delay kb - 1\<rparr>, v)
           else kb_repeat (kb, v))
     else (kb, v))"

text \<open>A newly pressed key; \<open>Inr\<close> is the end of the line, after which the caller returns.\<close>

definition kb_tab :: "kbd \<Rightarrow> kbd" where
  "kb_tab s = fold (\<lambda>_ s. if buffer_pos (fst s) < 252 then kb_insert (of_char CHR '' '') s else s) [0..<4] s"

definition kb_press :: "u8 \<Rightarrow> kbd \<Rightarrow> kbd + kbd" where
  "kb_press scancode = (\<lambda>(kb, v).
     let kb = kb\<lparr>last_scancode := scancode\<rparr>;
         kb = keyboard_update_modifiers scancode False kb
     in if is_modifier scancode then Inl (kb, show_cursor v)
        else
          (let kb = kb\<lparr>held_key := scancode, key_hold_time := 0, repeat_delay := KEY_REPEAT_INITIAL_DELAY\<rparr>;
               v = vga_puts backspace v
           in if scancode = ENTER_SCANCODE
              then (if enter_cooldown kb = 0
                    then Inr (kb\<lparr>input_buffer := (input_buffer kb)[nat (buffer_pos kb) := 0],
                                 enter_cooldown := ENTER_COOLDOWN_CYCLES, last_scancode := 0, held_key := 0\<rparr>,
                              vga_puts ''\<newline>'' v)
                    else Inl (kb, show_cursor v))
              else if scancode = BACKSPACE_SCANCODE
              then (let (kb, v) = kb_erase (kb, v)
                    in Inl (kb\<lparr>held_key_char := of_char CHR 0x08\<rparr>, show_cursor v))
              else if scancode = TAB_SCANCODE
              then (let (kb, v) = kb_tab (kb, v)
                    in Inl (kb\<lparr>held_key_char := 0\<rparr>, show_cursor v))
              else
                (let key = scancode_to_ascii kb scancode
                 in if key \<noteq> 0 \<and> buffer_pos kb < 255
                    then (let (kb, v) = kb_insert key (kb, v)
                          in Inl (kb\<lparr>held_key_char := key\<rparr>, show_cursor v))
                    else Inl (kb\<lparr>held_key_char := 0\<rparr>, show_cursor v))))"

section \<open>The polling loop\<close>

definition keyboard_poll :: "u8 \<Rightarrow> kbd \<Rightarrow> kbd + kbd" where
  "keyboard_poll scancode = (\<lambda>(kb, v).
     let kb = (if enter_cooldown kb > 0 then kb\<lparr>enter_cooldown := enter_cooldown kb - 1\<rparr> else kb)
     in if scancode \<ge> 0x80 then Inl (kb_release scancode kb, v)
        else if scancode > 0
        then (if scancode = held_key kb \<and> held_key kb \<noteq> 0 then Inl (kb_held (kb, v))
              else if scancode \<noteq> last_scancode kb then kb_press scancode (kb, v)
              else Inl (kb, v))
        else Inl (kb_idle (kb, v)))"

text \<open>\<open>keyboard_clear_buffer\<close> reads three values of the port and drops them.\<close>

definition keyboard_clear_buffer :: "u8 list \<Rightarrow> u8 list" where
  "keyboard_clear_buffer input = drop 3 input"

lemma keyboard_clear_buffer_drop [simp]: "keyboard_clear_buffer = drop 3"
  by (simp add: keyboard_clear_buffer_def fun_eq_iff)

text \<open>The loop over the values read from the port. \<open>None\<close>: the list ends before Enter does.\<close>

fun keyboard_loop :: "u8 list \<Rightarrow> kbd \<Rightarrow> (kbd \<times> u8 list) option" where
  "keyboard_loop [] s = None"
| "keyboard_loop (scancode # input) s =
     (case keyboard_poll scancode s of
        Inl s \<Rightarrow> keyboard_loop input s
      | Inr s \<Rightarrow> Some (s, keyboard_clear_buffer input))"

definition keyboard_get_input :: "u8 list \<Rightarrow> kbd \<Rightarrow> (kbd \<times> u8 list) option" where
  "keyboard_get_input input = (\<lambda>(kb, v).
     let kb = kb\<lparr>buffer_pos := 0\<rparr>;
         v = vga_set_color VGA_COLOR_WHITE VGA_COLOR_BLACK v;
         v = show_cursor v
     in keyboard_loop input (kb, v))"

text \<open>\<open>keyboard_init\<close> also reads and drops a hundred values.\<close>

definition keyboard_init :: "keyboard_state \<Rightarrow> u8 list \<Rightarrow> keyboard_state \<times> u8 list" where
  "keyboard_init kb input =
     (let kb = kb\<lparr>last_scancode := 0, enter_cooldown := 0, buffer_pos := 0,
                  held_key := 0, key_hold_time := 0, repeat_delay := 0, held_key_char := 0,
                  shift_pressed := 0, caps_lock_on := 0, ctrl_pressed := 0, alt_pressed := 0\<rparr>;
          kb = kb\<lparr>input_buffer := for_loop 0 256 (\<lambda>i buf. buf[i := 0]) (input_buffer kb)\<rparr>
      in (kb, drop 100 input))"

definition keyboard_getchar :: u8 where "keyboard_getchar = 0"

definition keyboard_handler_internal :: "keyboard_state \<Rightarrow> keyboard_state" where
  "keyboard_handler_internal kb = kb"

section \<open>The buffer invariant\<close>

definition line_text :: "keyboard_state \<Rightarrow> u8 list" where
  "line_text kb = take (nat (buffer_pos kb)) (input_buffer kb)"

definition kb_ok :: "keyboard_state \<Rightarrow> bool" where
  "kb_ok kb \<longleftrightarrow> 0 \<le> buffer_pos kb \<and> buffer_pos kb \<le> 255 \<and> length (input_buffer kb) = 256 \<and>
     0 \<notin> set (line_text kb) \<and> 0 \<le> enter_cooldown kb"

text \<open>Two states with the same text and the same cooldown bound.\<close>

lemma line_text_cong:
  "buffer_pos kb = buffer_pos kb' \<Longrightarrow> input_buffer kb = input_buffer kb' \<Longrightarrow> line_text kb = line_text kb'"
  by (simp add: line_text_def)

lemma kb_ok_cong:
  "buffer_pos kb = buffer_pos kb' \<Longrightarrow> input_buffer kb = input_buffer kb' \<Longrightarrow>
   enter_cooldown kb = enter_cooldown kb' \<Longrightarrow> kb_ok kb = kb_ok kb'"
  by (simp add: kb_ok_def line_text_def)

lemma length_line_text: "kb_ok kb \<Longrightarrow> length (line_text kb) = nat (buffer_pos kb)"
  by (auto simp: kb_ok_def line_text_def)

lemma kb_insert_ok:
  assumes "kb_ok kb" and "buffer_pos kb < 255" and "c \<noteq> 0"
  shows "kb_ok (fst (kb_insert c (kb, v)))"
    and "line_text (fst (kb_insert c (kb, v))) = line_text kb @ [c]"
    and "buffer_pos (fst (kb_insert c (kb, v))) = buffer_pos kb + 1"
proof -
  have p: "nat (buffer_pos kb) < length (input_buffer kb)" "nat (buffer_pos kb + 1) = Suc (nat (buffer_pos kb))"
    using assms by (auto simp: kb_ok_def)
  then show t: "line_text (fst (kb_insert c (kb, v))) = line_text kb @ [c]"
    by (simp add: line_text_def kb_insert_def take_Suc_conv_app_nth)
  show "kb_ok (fst (kb_insert c (kb, v)))"
    using assms t by (simp add: kb_ok_def) (simp add: kb_insert_def)
  show "buffer_pos (fst (kb_insert c (kb, v))) = buffer_pos kb + 1"
    by (simp add: kb_insert_def)
qed

lemma kb_erase_ok:
  assumes "kb_ok kb"
  shows "kb_ok (fst (kb_erase (kb, v)))" and "line_text (fst (kb_erase (kb, v))) = butlast (line_text kb)"
proof -
  have "nat (buffer_pos kb - 1) = nat (buffer_pos kb) - 1" by simp
  then show t: "line_text (fst (kb_erase (kb, v))) = butlast (line_text kb)"
    using assms by (auto simp: line_text_def kb_erase_def kb_ok_def butlast_take not_less)
  then have "0 \<notin> set (line_text (fst (kb_erase (kb, v))))"
    using assms by (auto simp: kb_ok_def dest: in_set_butlastD)
  with assms show "kb_ok (fst (kb_erase (kb, v)))"
    unfolding kb_ok_def by (auto simp: kb_erase_def)
qed

text \<open>Fields the two editing steps leave alone.\<close>

lemma kb_edit_fields [simp]:
  "held_key (fst (kb_insert c s)) = held_key (fst s)" "held_key (fst (kb_erase s)) = held_key (fst s)"
  "held_key_char (fst (kb_insert c s)) = held_key_char (fst s)"
  "held_key_char (fst (kb_erase s)) = held_key_char (fst s)"
  "key_hold_time (fst (kb_insert c s)) = key_hold_time (fst s)"
  "enter_cooldown (fst (kb_insert c s)) = enter_cooldown (fst s)"
  "enter_cooldown (fst (kb_erase s)) = enter_cooldown (fst s)"
  "last_scancode (fst (kb_insert c s)) = last_scancode (fst s)"
  "shift_pressed (fst (kb_insert c s)) = shift_pressed (fst s)"
  "caps_lock_on (fst (kb_insert c s)) = caps_lock_on (fst s)"
  by (simp_all add: kb_insert_def kb_erase_def split: prod.splits)

lemma update_modifiers_fields [simp]:
  "buffer_pos (keyboard_update_modifiers s r kb) = buffer_pos kb"
  "input_buffer (keyboard_update_modifiers s r kb) = input_buffer kb"
  "enter_cooldown (keyboard_update_modifiers s r kb) = enter_cooldown kb"
  "held_key (keyboard_update_modifiers s r kb) = held_key kb"
  "held_key_char (keyboard_update_modifiers s r kb) = held_key_char kb"
  "last_scancode (keyboard_update_modifiers s r kb) = last_scancode kb"
  "key_hold_time (keyboard_update_modifiers s r kb) = key_hold_time kb"
  by (simp_all add: keyboard_update_modifiers_def)

lemma update_modifiers_other:
  "\<not> is_modifier s \<Longrightarrow> keyboard_update_modifiers s r kb = kb"
  by (simp add: keyboard_update_modifiers_def is_modifier_def)

lemma kb_tab_ok:
  assumes "kb_ok (fst s)"
  shows "kb_ok (fst (kb_tab s))"
    and "line_text (fst (kb_tab s)) =
      line_text (fst s) @ replicate (min 4 (252 - length (line_text (fst s)))) (of_char CHR '' '')"
proof -
  let ?step = "\<lambda>_ s. if buffer_pos (fst s) < 252 then kb_insert (of_char CHR '' '') s else s"
  let ?l = "length (line_text (fst s))"
  have "kb_ok (fst (fold ?step [0..<m] s)) \<and>
      line_text (fst (fold ?step [0..<m] s)) = line_text (fst s) @ replicate (min m (252 - ?l)) (of_char CHR '' '')" for m
  proof (induction m)
    case 0
    then show ?case using assms by simp
  next
    case (Suc m)
    obtain kb v where kv: "fold ?step [0..<m] s = (kb, v)" by fastforce
    have ok: "kb_ok kb" and t: "line_text kb = line_text (fst s) @ replicate (min m (252 - ?l)) (of_char CHR '' '')"
      using Suc kv by simp_all
    have len: "buffer_pos kb < 252 \<longleftrightarrow> ?l + min m (252 - ?l) < 252"
      using length_line_text [OF ok] ok by (auto simp: t kb_ok_def)
    show ?case
    proof (cases "buffer_pos kb < 252")
      case True
      have e: "fold ?step [0..<Suc m] s = kb_insert (of_char CHR '' '') (kb, v)" using True kv by simp
      have c: "(of_char CHR '' '' :: u8) \<noteq> 0" by simp
      have "min m (252 - ?l) = m" "min (Suc m) (252 - ?l) = Suc m" using True len by auto
      then show ?thesis
        unfolding e using kb_insert_ok [OF ok _ c, of v] True t by (simp add: replicate_append_same)
    next
      case False
      then have "min (Suc m) (252 - ?l) = min m (252 - ?l)" using len by auto
      then show ?thesis using ok t kv False by simp
    qed
  qed
  from this [of 4] show "kb_ok (fst (kb_tab s))"
    "line_text (fst (kb_tab s)) = line_text (fst s) @ replicate (min 4 (252 - ?l)) (of_char CHR '' '')"
    by (auto simp: kb_tab_def)
qed

lemma kb_repeat_ok:
  assumes "kb_ok kb" and "held_key_char kb \<noteq> 0"
  shows "kb_ok (fst (kb_repeat (kb, v)))"
proof -
  have k: "kb_ok (fst (kb_repeat (kb, v))) = kb_ok (fst (
      if held_key kb = BACKSPACE_SCANCODE then kb_erase (kb, vga_puts backspace v)
      else if held_key_char kb \<noteq> of_char CHR 0x08 \<and> buffer_pos kb < 255
      then kb_insert (held_key_char kb) (kb, vga_puts backspace v) else (kb, vga_puts backspace v)))"
    unfolding kb_repeat_def Let_def
    by (rule kb_ok_cong) (simp_all add: split_beta)
  show ?thesis unfolding k using assms kb_insert_ok(1) kb_erase_ok(1) by auto
qed

lemma scancode_ascii_cong:
  "shift_pressed kb = shift_pressed kb' \<Longrightarrow> caps_lock_on kb = caps_lock_on kb' \<Longrightarrow>
   scancode_to_ascii kb s = scancode_to_ascii kb' s"
  by (simp only: scancode_to_ascii_def)

lemma kb_ok_updates [simp]:
  "kb_ok (kb\<lparr>last_scancode := a\<rparr>) = kb_ok kb" "kb_ok (kb\<lparr>held_key := a\<rparr>) = kb_ok kb"
  "kb_ok (kb\<lparr>key_hold_time := t\<rparr>) = kb_ok kb" "kb_ok (kb\<lparr>repeat_delay := t\<rparr>) = kb_ok kb"
  "kb_ok (kb\<lparr>held_key_char := a\<rparr>) = kb_ok kb"
  "kb_ok (keyboard_update_modifiers sc r kb) = kb_ok kb"
  by (rule kb_ok_cong; simp)+

lemma line_text_updates [simp]:
  "line_text (kb\<lparr>last_scancode := a\<rparr>) = line_text kb" "line_text (kb\<lparr>held_key := a\<rparr>) = line_text kb"
  "line_text (kb\<lparr>key_hold_time := t\<rparr>) = line_text kb" "line_text (kb\<lparr>repeat_delay := t\<rparr>) = line_text kb"
  "line_text (kb\<lparr>held_key_char := a\<rparr>) = line_text kb" "line_text (kb\<lparr>enter_cooldown := t\<rparr>) = line_text kb"
  "line_text (keyboard_update_modifiers sc r kb) = line_text kb"
  by (rule line_text_cong; simp)+

text \<open>Enter terminates the buffer behind the text.\<close>

lemma line_end:
  assumes "kb_ok kb"
  shows "cstr ((input_buffer kb)[nat (buffer_pos kb) := 0]) = line_text kb"
    and "terminated ((input_buffer kb)[nat (buffer_pos kb) := 0])"
proof -
  have p: "nat (buffer_pos kb) < length (input_buffer kb)" using assms by (auto simp: kb_ok_def)
  then have s: "(input_buffer kb)[nat (buffer_pos kb) := 0] =
      line_text kb @ 0 # drop (Suc (nat (buffer_pos kb))) (input_buffer kb)"
    by (simp add: line_text_def upd_conv_take_nth_drop)
  show "cstr ((input_buffer kb)[nat (buffer_pos kb) := 0]) = line_text kb"
    "terminated ((input_buffer kb)[nat (buffer_pos kb) := 0])"
    using assms by (simp_all add: s kb_ok_def)
qed

definition entered :: "keyboard_state \<Rightarrow> bool" where
  "entered kb \<longleftrightarrow> kb_ok kb \<and> terminated (input_buffer kb) \<and> cstr (input_buffer kb) = line_text kb"

lemma kb_entered:
  assumes "kb_ok kb"
  shows "entered (kb\<lparr>input_buffer := (input_buffer kb)[nat (buffer_pos kb) := 0],
     enter_cooldown := ENTER_COOLDOWN_CYCLES, last_scancode := 0, held_key := 0\<rparr>)"
    and "line_text (kb\<lparr>input_buffer := (input_buffer kb)[nat (buffer_pos kb) := 0],
     enter_cooldown := ENTER_COOLDOWN_CYCLES, last_scancode := 0, held_key := 0\<rparr>) = line_text kb"
proof -
  show "line_text (kb\<lparr>input_buffer := (input_buffer kb)[nat (buffer_pos kb) := 0],
     enter_cooldown := ENTER_COOLDOWN_CYCLES, last_scancode := 0, held_key := 0\<rparr>) = line_text kb"
    by (simp add: line_text_def)
  then show "entered (kb\<lparr>input_buffer := (input_buffer kb)[nat (buffer_pos kb) := 0],
     enter_cooldown := ENTER_COOLDOWN_CYCLES, last_scancode := 0, held_key := 0\<rparr>)"
    using assms line_end [OF assms] by (simp add: entered_def kb_ok_def key_delays)
qed

text \<open>The effect of a new key on the text, by kind of key.\<close>

definition ends_line :: "u8 \<Rightarrow> keyboard_state \<Rightarrow> bool" where
  "ends_line sc kb \<longleftrightarrow> sc = ENTER_SCANCODE \<and> enter_cooldown kb = 0"

definition key_text :: "u8 \<Rightarrow> keyboard_state \<Rightarrow> u8 list \<Rightarrow> bool" where
  "key_text sc kb text \<longleftrightarrow>
     (if is_modifier sc \<or> sc = ENTER_SCANCODE then text = line_text kb
      else if sc = BACKSPACE_SCANCODE then text = butlast (line_text kb)
      else if sc = TAB_SCANCODE
      then text = line_text kb @ replicate (min 4 (252 - length (line_text kb))) (of_char CHR '' '')
      else if scancode_to_ascii kb sc \<noteq> 0 \<and> length (line_text kb) < 255
      then text = line_text kb @ [scancode_to_ascii kb sc] else text = line_text kb)"

lemma kb_press_modifier:
  "is_modifier sc \<Longrightarrow> kb_press sc (kb, v) =
     Inl (keyboard_update_modifiers sc False (kb\<lparr>last_scancode := sc\<rparr>), show_cursor v)"
  by (simp add: kb_press_def Let_def)

text \<open>The state in which a key that is no modifier is handled.\<close>

definition newly_held :: "u8 \<Rightarrow> keyboard_state \<Rightarrow> keyboard_state" where
  "newly_held sc kb = kb\<lparr>last_scancode := sc, held_key := sc, key_hold_time := 0, repeat_delay := KEY_REPEAT_INITIAL_DELAY\<rparr>"

lemma newly_held_fields [simp]:
  "kb_ok (newly_held sc kb) = kb_ok kb" "line_text (newly_held sc kb) = line_text kb"
  "buffer_pos (newly_held sc kb) = buffer_pos kb" "input_buffer (newly_held sc kb) = input_buffer kb"
  "enter_cooldown (newly_held sc kb) = enter_cooldown kb"
  "held_key (newly_held sc kb) = sc" "last_scancode (newly_held sc kb) = sc"
  "shift_pressed (newly_held sc kb) = shift_pressed kb" "caps_lock_on (newly_held sc kb) = caps_lock_on kb"
  by (simp_all add: newly_held_def)

lemma newly_held_ascii [simp]: "scancode_to_ascii (newly_held sc kb) x = scancode_to_ascii kb x"
  by (rule scancode_ascii_cong) simp_all

lemma kb_press_key:
  assumes "\<not> is_modifier sc"
  shows "kb_press sc (kb, v) =
    (let kb = newly_held sc kb; v = vga_puts backspace v
     in if sc = ENTER_SCANCODE
        then (if enter_cooldown kb = 0
              then Inr (kb\<lparr>input_buffer := (input_buffer kb)[nat (buffer_pos kb) := 0],
                           enter_cooldown := ENTER_COOLDOWN_CYCLES, last_scancode := 0, held_key := 0\<rparr>,
                        vga_puts ''\<newline>'' v)
              else Inl (kb, show_cursor v))
        else if sc = BACKSPACE_SCANCODE
        then Inl ((fst (kb_erase (kb, v)))\<lparr>held_key_char := of_char CHR 0x08\<rparr>, show_cursor (snd (kb_erase (kb, v))))
        else if sc = TAB_SCANCODE
        then Inl ((fst (kb_tab (kb, v)))\<lparr>held_key_char := 0\<rparr>, show_cursor (snd (kb_tab (kb, v))))
        else if scancode_to_ascii kb sc \<noteq> 0 \<and> buffer_pos kb < 255
        then Inl ((fst (kb_insert (scancode_to_ascii kb sc) (kb, v)))\<lparr>held_key_char := scancode_to_ascii kb sc\<rparr>,
                  show_cursor (snd (kb_insert (scancode_to_ascii kb sc) (kb, v))))
        else Inl (kb\<lparr>held_key_char := 0\<rparr>, show_cursor v))"
proof -
  have "keyboard_update_modifiers sc False (kb\<lparr>last_scancode := sc\<rparr>) = kb\<lparr>last_scancode := sc\<rparr>"
    by (rule update_modifiers_other [OF assms])
  then show ?thesis
    using assms by (simp only: kb_press_def Let_def newly_held_def split_beta prod.case fst_conv snd_conv if_False)
qed

lemma kb_press_enter:
  assumes "kb_ok kb" and "kb_press sc (kb, v) = Inr (kb', v')"
  shows "ends_line sc kb \<and> entered kb' \<and> line_text kb' = line_text kb \<and> enter_cooldown kb' = ENTER_COOLDOWN_CYCLES"
proof (cases "is_modifier sc")
  case True
  then show ?thesis using assms(2) by (simp add: kb_press_modifier)
next
  case False
  then have sc: "sc = ENTER_SCANCODE" "enter_cooldown kb = 0"
    "kb' = (newly_held sc kb)\<lparr>input_buffer := (input_buffer kb)[nat (buffer_pos kb) := 0],
       enter_cooldown := ENTER_COOLDOWN_CYCLES, last_scancode := 0, held_key := 0\<rparr>"
    using assms(2) by (auto simp: kb_press_key Let_def split: if_splits)
  then show ?thesis
    using kb_entered [of "newly_held sc kb"] assms(1) by (simp add: ends_line_def)
qed

lemma kb_press_text:
  assumes "kb_ok kb" and "kb_press sc (kb, v) = Inl (kb', v')"
  shows "\<not> ends_line sc kb \<and> kb_ok kb' \<and> key_text sc kb (line_text kb')"
proof (cases "is_modifier sc")
  case True
  then show ?thesis
    using assms by (auto simp: kb_press_modifier key_text_def ends_line_def is_modifier_def key_codes)
next
  case False
  let ?v = "vga_puts backspace v" and ?kb = "newly_held sc kb"
  have len: "length (line_text kb) < 255 \<longleftrightarrow> buffer_pos kb < 255"
    using length_line_text [OF assms(1)] assms(1) by (auto simp: kb_ok_def)
  have ok: "kb_ok ?kb" using assms(1) by simp
  consider "sc = ENTER_SCANCODE" | "sc = BACKSPACE_SCANCODE" | "sc = TAB_SCANCODE"
    | (char) "sc \<notin> {ENTER_SCANCODE, BACKSPACE_SCANCODE, TAB_SCANCODE}" "scancode_to_ascii kb sc \<noteq> 0" "buffer_pos kb < 255"
    | (none) "sc \<notin> {ENTER_SCANCODE, BACKSPACE_SCANCODE, TAB_SCANCODE}" "\<not> (scancode_to_ascii kb sc \<noteq> 0 \<and> buffer_pos kb < 255)"
    by blast
  then show ?thesis
  proof cases
    case 1
    then show ?thesis using assms False
      by (auto simp: kb_press_key Let_def key_text_def ends_line_def split: if_splits)
  next
    case 2
    then have "kb' = (fst (kb_erase (?kb, ?v)))\<lparr>held_key_char := of_char CHR 0x08\<rparr>"
      using assms(2) False by (simp add: kb_press_key Let_def key_codes)
    then show ?thesis
      using 2 False kb_erase_ok [OF ok, of ?v] by (simp add: key_text_def ends_line_def) (simp add: key_codes)
  next
    case 3
    then have "kb' = (fst (kb_tab (?kb, ?v)))\<lparr>held_key_char := 0\<rparr>"
      using assms(2) False by (simp add: kb_press_key Let_def key_codes)
    then show ?thesis
      using 3 False kb_tab_ok [of "(?kb, ?v)"] ok by (simp add: key_text_def ends_line_def) (simp add: key_codes)
  next
    case char
    then have "kb' = (fst (kb_insert (scancode_to_ascii kb sc) (?kb, ?v)))\<lparr>held_key_char := scancode_to_ascii kb sc\<rparr>"
      using assms(2) False by (auto simp: kb_press_key Let_def)
    then show ?thesis
      using char False kb_insert_ok [OF ok, of "scancode_to_ascii kb sc" ?v] len
      by (auto simp: key_text_def ends_line_def)
  next
    case none
    then have "kb' = ?kb\<lparr>held_key_char := 0\<rparr>"
      using assms(2) False by (auto simp: kb_press_key Let_def split: if_splits)
    then show ?thesis using none False len ok by (auto simp: key_text_def ends_line_def)
  qed
qed

section \<open>The polling loop\<close>

text \<open>The decrement of the Enter cooldown at the start of an iteration.\<close>

definition cool :: "keyboard_state \<Rightarrow> keyboard_state" where
  "cool kb = (if enter_cooldown kb > 0 then kb\<lparr>enter_cooldown := enter_cooldown kb - 1\<rparr> else kb)"

lemma cool_fields [simp]:
  "line_text (cool kb) = line_text kb" "buffer_pos (cool kb) = buffer_pos kb"
  "held_key (cool kb) = held_key kb" "last_scancode (cool kb) = last_scancode kb"
  "held_key_char (cool kb) = held_key_char kb" "input_buffer (cool kb) = input_buffer kb"
  "shift_pressed (cool kb) = shift_pressed kb" "caps_lock_on (cool kb) = caps_lock_on kb"
  "kb_ok kb \<Longrightarrow> kb_ok (cool kb)"
  by (simp_all add: cool_def kb_ok_def)

lemma keyboard_poll_cases:
  "keyboard_poll sc (kb, v) =
     (if sc \<ge> 0x80 then Inl (kb_release sc (cool kb), v)
      else if sc > 0
      then (if sc = held_key kb \<and> held_key kb \<noteq> 0 then Inl (kb_held (cool kb, v))
            else if sc \<noteq> last_scancode kb then kb_press sc (cool kb, v) else Inl (cool kb, v))
      else Inl (kb_idle (cool kb, v)))"
  by (simp only: keyboard_poll_def Let_def prod.case cool_def [symmetric] cool_fields)

lemma kb_release_ok: "kb_ok kb \<Longrightarrow> kb_ok (kb_release sc kb)"
  by (simp add: kb_release_def Let_def)

lemma kb_held_ok: "kb_ok kb \<Longrightarrow> kb_ok (fst (kb_held (kb, v)))"
  using kb_repeat_ok [of "kb\<lparr>key_hold_time := s32 (key_hold_time kb + 1)\<rparr>" v]
  by (simp add: kb_held_def Let_def)

lemma kb_idle_ok: "kb_ok kb \<Longrightarrow> kb_ok (fst (kb_idle (kb, v)))"
  using kb_repeat_ok [of "kb\<lparr>key_hold_time := s32 (key_hold_time kb + 1)\<rparr>" v]
  by (simp add: kb_idle_def Let_def)

lemma keyboard_poll_ok:
  assumes "kb_ok kb"
  shows "case keyboard_poll sc (kb, v) of Inl s \<Rightarrow> kb_ok (fst s) | Inr s \<Rightarrow> entered (fst s)"
proof -
  have c: "kb_ok (cool kb)" using assms by simp
  have p: "case kb_press sc (cool kb, v) of Inl s \<Rightarrow> kb_ok (fst s) | Inr s \<Rightarrow> entered (fst s)"
    using kb_press_text [OF c, of sc v] kb_press_enter [OF c, of sc v]
    by (cases "kb_press sc (cool kb, v)") auto
  show ?thesis
    unfolding keyboard_poll_cases
    using p c kb_release_ok kb_held_ok kb_idle_ok by simp
qed

interpretation kbd_loop: event_loop keyboard_poll keyboard_loop keyboard_clear_buffer
  "\<lambda>s. kb_ok (fst s)" "\<lambda>s. entered (fst s)"
proof
  show "case keyboard_poll e s of Inl t \<Rightarrow> kb_ok (fst t) | Inr t \<Rightarrow> entered (fst t)" if "kb_ok (fst s)" for e s
    using keyboard_poll_ok [OF that, of e "snd s"] by simp
  show "keyboard_loop (e # es) s =
      (case keyboard_poll e s of Inl t \<Rightarrow> keyboard_loop es t | Inr t \<Rightarrow> Some (t, keyboard_clear_buffer es))" for e es s
    by (simp split: sum.splits)
  show "\<exists>used. es = used @ keyboard_clear_buffer es" for es
    unfolding keyboard_clear_buffer_def by (intro exI [of _ "take 3 es"]) simp
qed simp

section \<open>Typing\<close>

text \<open>A key that inserts a character.\<close>

definition types :: "keyboard_state \<Rightarrow> u8 \<Rightarrow> bool" where
  "types kb sc \<longleftrightarrow> 0 < sc \<and> sc < 0x80 \<and> \<not> is_modifier sc \<and>
     sc \<notin> {ENTER_SCANCODE, BACKSPACE_SCANCODE, TAB_SCANCODE} \<and> scancode_to_ascii kb sc \<noteq> 0"

text \<open>
  What the port shows while nothing is pressed: zero, or again the release of some key. And what it
  shows of one stroke \<open>(sc, held, idle)\<close>: the press, read \<open>held\<close> more times while the key is down,
  the release, and the codes of the pause after it. A key held for at most
  \<open>KEY_REPEAT_INITIAL_DELAY\<close> iterations does not repeat.
\<close>

definition idle_code :: "u8 \<Rightarrow> bool" where
  "idle_code c \<longleftrightarrow> c = 0 \<or> 0x80 \<le> c \<and> \<not> is_modifier (c - 0x80)"

type_synonym stroke = "u8 \<times> nat \<times> u8 list"

definition key_stroke :: "stroke \<Rightarrow> u8 list" where
  "key_stroke = (\<lambda>(sc, held, idle). replicate (Suc held) sc @ (sc + 0x80) # idle)"

definition stroke_ok :: "keyboard_state \<Rightarrow> stroke \<Rightarrow> bool" where
  "stroke_ok kb = (\<lambda>(sc, held, idle).
     types kb sc \<and> int held \<le> KEY_REPEAT_INITIAL_DELAY \<and> list_all idle_code idle)"

text \<open>No key is held, and no press is remembered.\<close>

definition released :: "keyboard_state \<Rightarrow> bool" where
  "released kb \<longleftrightarrow> held_key kb = 0 \<and> last_scancode kb = 0"

lemma release_code:
  assumes "sc < (0x80 :: u8)"
  shows "sc + 0x80 \<ge> 0x80" and "sc + 0x80 - 0x80 = sc"
  using assms by (simp_all add: word_le_nat_alt word_less_nat_alt unat_word_ariths)

lemma cool_bound: "0 \<le> enter_cooldown kb \<Longrightarrow> enter_cooldown (cool kb) = max 0 (enter_cooldown kb - 1)"
  by (simp add: cool_def)

text \<open>
  \<open>resting kb tx n kb'\<close>: after \<open>n\<close> iterations from \<open>kb\<close> no key is held in \<open>kb'\<close> and the line is
  \<open>tx\<close>; \<open>holding kb tx n sc j kb'\<close> is the same with the key \<open>sc\<close> down and \<open>j\<close> iterations left before
  it repeats.
\<close>

definition after_polls :: "keyboard_state \<Rightarrow> u8 list \<Rightarrow> nat \<Rightarrow> keyboard_state \<Rightarrow> bool" where
  "after_polls kb tx n kb' \<longleftrightarrow> kb_ok kb' \<and> line_text kb' = tx \<and>
     shift_pressed kb' = shift_pressed kb \<and> caps_lock_on kb' = caps_lock_on kb \<and>
     enter_cooldown kb' = max 0 (enter_cooldown kb - int n)"

definition resting :: "keyboard_state \<Rightarrow> u8 list \<Rightarrow> nat \<Rightarrow> keyboard_state \<Rightarrow> bool" where
  "resting kb tx n kb' \<longleftrightarrow> after_polls kb tx n kb' \<and> released kb'"

definition holding :: "keyboard_state \<Rightarrow> u8 list \<Rightarrow> nat \<Rightarrow> u8 \<Rightarrow> int \<Rightarrow> keyboard_state \<Rightarrow> bool" where
  "holding kb tx n sc j kb' \<longleftrightarrow> after_polls kb tx n kb' \<and> held_key kb' = sc \<and> repeat_delay kb' = j"

lemma after_polls_cool: "after_polls kb tx n kb' \<Longrightarrow> after_polls kb tx (Suc n) (cool kb')"
  using cool_bound [of kb'] by (auto simp: after_polls_def kb_ok_def)

lemma after_polls_ascii: "after_polls kb tx n kb' \<Longrightarrow> scancode_to_ascii kb' = scancode_to_ascii kb"
  by (rule ext, rule scancode_ascii_cong) (simp_all add: after_polls_def)

lemma after_polls_types: "after_polls kb tx n kb' \<Longrightarrow> types kb' sc = types kb sc"
  by (simp add: types_def after_polls_ascii)

lemma press_typed:
  assumes "resting kb0 tx n kb" and "types kb0 sc" and "length tx < 255"
  shows "\<exists>kb' v'. keyboard_poll sc (kb, v) = Inl (kb', v') \<and>
    holding kb0 (tx @ [scancode_to_ascii kb0 sc]) (Suc n) sc KEY_REPEAT_INITIAL_DELAY kb'"
proof -
  let ?c = "cool kb" and ?v = "vga_puts backspace v"
  let ?a = "scancode_to_ascii kb0 sc"
  have r: "after_polls kb0 tx n kb" "released kb" using assms(1) by (simp_all add: resting_def)
  have c: "after_polls kb0 tx (Suc n) ?c" by (rule after_polls_cool [OF r(1)])
  have a: "scancode_to_ascii ?c sc = ?a" using after_polls_ascii [OF c] by simp
  have k: "kb_ok ?c" "line_text ?c = tx" using c by (simp_all add: after_polls_def)
  have pos: "buffer_pos ?c < 255"
    using assms(3) length_line_text [OF k(1)] k by (auto simp: kb_ok_def)
  have ok: "kb_ok (newly_held sc ?c)" using k(1) by simp
  let ?kb = "(fst (kb_insert ?a (newly_held sc ?c, ?v)))\<lparr>held_key_char := ?a\<rparr>"
  have "keyboard_poll sc (kb, v) = kb_press sc (?c, v)"
    using assms(2) r(2) by (auto simp: keyboard_poll_cases types_def released_def not_le [symmetric])
  also have "\<dots> = Inl (?kb, show_cursor (snd (kb_insert ?a (newly_held sc ?c, ?v))))"
    using assms(2) pos a by (simp add: kb_press_key types_def Let_def)
  finally show ?thesis
    using kb_insert_ok [OF ok, of ?a ?v] pos assms(2) c
    by (simp add: types_def holding_def after_polls_def kb_insert_def newly_held_def)
qed

lemma hold_typed:
  assumes "holding kb0 tx n sc j kb" and "types kb0 sc" and "0 < j"
  shows "\<exists>kb'. keyboard_poll sc (kb, v) = Inl (kb', v) \<and> holding kb0 tx (Suc n) sc (j - 1) kb'"
proof -
  have h: "after_polls kb0 tx n kb" "held_key kb = sc" "repeat_delay kb = j"
    using assms(1) by (simp_all add: holding_def)
  have d: "repeat_delay (cool kb) = j" using h(3) by (simp add: cool_def)
  have "keyboard_poll sc (kb, v) = Inl (kb_held (cool kb, v))"
    using assms(2) h(2) by (auto simp: keyboard_poll_cases types_def not_le [symmetric])
  then show ?thesis
    using assms(3) after_polls_cool [OF h(1)] h(2) d
    by (simp add: kb_held_def Let_def holding_def after_polls_def)
qed

lemma hold_keys:
  "holding kb0 tx n sc j kb \<Longrightarrow> types kb0 sc \<Longrightarrow> int held \<le> j \<Longrightarrow>
   \<exists>kb'. keyboard_loop (replicate held sc @ input) (kb, v) = keyboard_loop input (kb', v) \<and>
     holding kb0 tx (n + held) sc (j - int held) kb'"
proof (induction held arbitrary: n j kb)
  case (Suc held)
  obtain kb1 where 1: "keyboard_poll sc (kb, v) = Inl (kb1, v)" "holding kb0 tx (Suc n) sc (j - 1) kb1"
    using hold_typed [OF Suc.prems(1,2), of v] Suc.prems(3) by auto
  obtain kb2 where 2: "keyboard_loop (replicate held sc @ input) (kb1, v) = keyboard_loop input (kb2, v)"
    "holding kb0 tx (Suc n + held) sc (j - 1 - int held) kb2"
    using Suc.IH [OF 1(2) Suc.prems(2)] Suc.prems(3) by auto
  have "j - 1 - int held = j - int (Suc held)" "Suc n + held = n + Suc held" by simp_all
  with 2(2) have "holding kb0 tx (n + Suc held) sc (j - int (Suc held)) kb2" by simp
  with 1(1) 2(1) show ?case by auto
qed auto

lemma release_typed:
  assumes "holding kb0 tx n sc j kb" and "types kb0 sc"
  shows "\<exists>kb'. keyboard_poll (sc + 0x80) (kb, v) = Inl (kb', v) \<and> resting kb0 tx (Suc n) kb'"
proof -
  have h: "after_polls kb0 tx n kb" "held_key kb = sc" using assms(1) by (simp_all add: holding_def)
  have sc: "sc < 0x80" "\<not> is_modifier sc" using assms(2) by (auto simp: types_def)
  have m: "keyboard_update_modifiers sc True (cool kb) = cool kb"
    by (rule update_modifiers_other [OF sc(2)])
  have "keyboard_poll (sc + 0x80) (kb, v) = Inl (kb_release (sc + 0x80) (cool kb), v)"
    using release_code [OF sc(1)] by (simp add: keyboard_poll_cases)
  moreover have "kb_release (sc + 0x80) (cool kb) =
      (cool kb)\<lparr>held_key := 0, key_hold_time := 0, repeat_delay := 0, held_key_char := 0, last_scancode := 0\<rparr>"
    unfolding kb_release_def Let_def release_code(2) [OF sc(1)] m using h(2) by simp
  ultimately show ?thesis
    using after_polls_cool [OF h(1)] by (simp add: resting_def after_polls_def released_def)
qed

lemma idle_poll:
  assumes "resting kb0 tx n kb" and "idle_code c"
  shows "\<exists>kb'. keyboard_poll c (kb, v) = Inl (kb', v) \<and> resting kb0 tx (Suc n) kb'"
proof -
  have r: "after_polls kb0 tx n kb" "released kb" using assms(1) by (simp_all add: resting_def)
  have c: "after_polls kb0 tx (Suc n) (cool kb)" by (rule after_polls_cool [OF r(1)])
  show ?thesis
  proof (cases "c = 0")
    case True
    then show ?thesis
      using r c by (simp add: keyboard_poll_cases kb_idle_def resting_def released_def)
  next
    case False
    then have i: "0x80 \<le> c" "\<not> is_modifier (c - 0x80)" using assms(2) by (auto simp: idle_code_def)
    have m: "keyboard_update_modifiers (c - 0x80) True (cool kb) = cool kb"
      by (rule update_modifiers_other [OF i(2)])
    have "keyboard_poll c (kb, v) = Inl (kb_release c (cool kb), v)"
      using i(1) by (simp add: keyboard_poll_cases)
    moreover have "resting kb0 tx (Suc n) (kb_release c (cool kb))"
      unfolding kb_release_def Let_def m using r(2) c by (simp add: resting_def released_def after_polls_def)
    ultimately show ?thesis by blast
  qed
qed

lemma idle_polls:
  "resting kb0 tx n kb \<Longrightarrow> list_all idle_code idle \<Longrightarrow>
   \<exists>kb'. keyboard_loop (idle @ input) (kb, v) = keyboard_loop input (kb', v) \<and> resting kb0 tx (n + length idle) kb'"
proof (induction idle arbitrary: n kb)
  case (Cons c idle)
  obtain kb1 where 1: "keyboard_poll c (kb, v) = Inl (kb1, v)" "resting kb0 tx (Suc n) kb1"
    using idle_poll [OF Cons.prems(1), of c v] Cons.prems(2) by auto
  then show ?case using Cons.IH [OF 1(2)] Cons.prems(2) by auto
qed auto

lemma type_key:
  assumes "resting kb0 tx n kb" and "stroke_ok kb0 st" and "length tx < 255"
  shows "\<exists>kb' v'. keyboard_loop (key_stroke st @ input) (kb, v) = keyboard_loop input (kb', v') \<and>
    resting kb0 (tx @ [scancode_to_ascii kb0 (fst st)]) (n + length (key_stroke st)) kb'"
proof -
  obtain sc held idle where st: "st = (sc, held, idle)" by (cases st) auto
  have ok: "types kb0 sc" "int held \<le> KEY_REPEAT_INITIAL_DELAY" "list_all idle_code idle"
    using assms(2) by (simp_all add: stroke_ok_def st)
  let ?t = "tx @ [scancode_to_ascii kb0 sc]"
  obtain kb1 v1 where 1: "keyboard_poll sc (kb, v) = Inl (kb1, v1)"
    "holding kb0 ?t (Suc n) sc KEY_REPEAT_INITIAL_DELAY kb1"
    using press_typed [OF assms(1) ok(1) assms(3)] by blast
  let ?rest = "(sc + 0x80) # idle @ input"
  obtain kb2 where 2: "keyboard_loop (replicate held sc @ ?rest) (kb1, v1) = keyboard_loop ?rest (kb2, v1)"
    "holding kb0 ?t (Suc n + held) sc (KEY_REPEAT_INITIAL_DELAY - int held) kb2"
    using hold_keys [OF 1(2) ok(1,2)] by blast
  obtain kb3 where 3: "keyboard_poll (sc + 0x80) (kb2, v1) = Inl (kb3, v1)" "resting kb0 ?t (Suc (Suc n + held)) kb3"
    using release_typed [OF 2(2) ok(1)] by blast
  obtain kb4 where 4: "keyboard_loop (idle @ input) (kb3, v1) = keyboard_loop input (kb4, v1)"
    "resting kb0 ?t (Suc (Suc n + held) + length idle) kb4"
    using idle_polls [OF 3(2) ok(3)] by blast
  have "n + length (key_stroke st) = Suc (Suc n + held) + length idle" by (simp add: key_stroke_def st)
  moreover have "keyboard_loop (key_stroke st @ input) (kb, v) = keyboard_loop input (kb4, v1)"
    using 1(1) 2(1) 3(1) 4(1) by (simp add: key_stroke_def st)
  ultimately show ?thesis using 4(2) st by (metis fst_conv)
qed

lemma type_keys:
  "resting kb0 tx n kb \<Longrightarrow> list_all (stroke_ok kb0) strokes \<Longrightarrow> length tx + length strokes \<le> 255 \<Longrightarrow>
   \<exists>kb' v'. keyboard_loop (concat (map key_stroke strokes) @ input) (kb, v) = keyboard_loop input (kb', v') \<and>
     resting kb0 (tx @ map (\<lambda>st. scancode_to_ascii kb0 (fst st)) strokes)
       (n + length (concat (map key_stroke strokes))) kb'"
proof (induction strokes arbitrary: tx n kb v)
  case (Cons st strokes)
  let ?t = "tx @ [scancode_to_ascii kb0 (fst st)]"
  obtain kb1 v1 where 1: "keyboard_loop (key_stroke st @ concat (map key_stroke strokes) @ input) (kb, v) =
      keyboard_loop (concat (map key_stroke strokes) @ input) (kb1, v1)"
    "resting kb0 ?t (n + length (key_stroke st)) kb1"
    using type_key [OF Cons.prems(1), of st "concat (map key_stroke strokes) @ input" v] Cons.prems(2,3) by auto
  have l: "list_all (stroke_ok kb0) strokes" "length ?t + length strokes \<le> 255" using Cons.prems(2,3) by simp_all
  show ?case using Cons.IH [OF 1(2) l, of v1] 1(1) by (simp add: add.assoc)
qed auto

text \<open>Enter at rest: it ends the line when the cooldown is over with this iteration, and is ignored otherwise.\<close>

lemma type_enter:
  assumes "resting kb0 tx n kb"
  shows "enter_cooldown kb0 \<le> int n + 1 \<Longrightarrow>
      \<exists>kb' v'. keyboard_poll ENTER_SCANCODE (kb, v) = Inr (kb', v') \<and> entered kb' \<and> line_text kb' = tx \<and>
        released kb' \<and> enter_cooldown kb' = ENTER_COOLDOWN_CYCLES"
    and "int n + 1 < enter_cooldown kb0 \<Longrightarrow> \<exists>kb' v'. keyboard_poll ENTER_SCANCODE (kb, v) = Inl (kb', v')"
proof -
  have r: "after_polls kb0 tx n kb" "released kb" using assms by (simp_all add: resting_def)
  have c: "enter_cooldown (cool kb) = max 0 (enter_cooldown kb0 - int (Suc n))"
    using after_polls_cool [OF r(1)] by (simp add: after_polls_def)
  have m: "\<not> is_modifier ENTER_SCANCODE" by (simp add: is_modifier_def key_codes)
  have p: "keyboard_poll ENTER_SCANCODE (kb, v) = kb_press ENTER_SCANCODE (cool kb, v)"
    using r(2) by (simp add: keyboard_poll_cases released_def) (simp add: key_codes)
  let ?e = "(newly_held ENTER_SCANCODE (cool kb))\<lparr>input_buffer := (input_buffer kb)[nat (buffer_pos kb) := 0],
       enter_cooldown := ENTER_COOLDOWN_CYCLES, last_scancode := 0, held_key := 0\<rparr>"
  show "\<exists>kb' v'. keyboard_poll ENTER_SCANCODE (kb, v) = Inr (kb', v') \<and> entered kb' \<and> line_text kb' = tx \<and>
      released kb' \<and> enter_cooldown kb' = ENTER_COOLDOWN_CYCLES" if "enter_cooldown kb0 \<le> int n + 1"
  proof -
    have "keyboard_poll ENTER_SCANCODE (kb, v) = Inr (?e, vga_puts ''\<newline>'' (vga_puts backspace v))"
      using that m c by (simp add: p kb_press_key Let_def)
    moreover have "entered ?e" "line_text ?e = line_text kb" "released ?e"
      using kb_entered [of "newly_held ENTER_SCANCODE (cool kb)"] r(1) by (simp_all add: released_def after_polls_def)
    ultimately show ?thesis using r(1) by (simp add: after_polls_def)
  qed
  show "\<exists>kb' v'. keyboard_poll ENTER_SCANCODE (kb, v) = Inl (kb', v')" if "int n + 1 < enter_cooldown kb0"
    using that m c by (simp add: p kb_press_key Let_def)
qed

lemma type_line:
  assumes "resting kb0 tx n kb" and "list_all idle_code idle" and "list_all (stroke_ok kb0) strokes"
    and "length strokes \<le> 255" and "tx = []"
  shows "\<exists>kb' v'. keyboard_loop ((idle @ concat (map key_stroke strokes)) @ rest) (kb, v) = keyboard_loop rest (kb', v') \<and>
    resting kb0 (map (\<lambda>st. scancode_to_ascii kb0 (fst st)) strokes)
      (n + length (idle @ concat (map key_stroke strokes))) kb'"
proof -
  obtain kb1 where 1: "keyboard_loop (idle @ concat (map key_stroke strokes) @ rest) (kb, v) =
      keyboard_loop (concat (map key_stroke strokes) @ rest) (kb1, v)" "resting kb0 tx (n + length idle) kb1"
    using idle_polls [OF assms(1,2)] by blast
  then show ?thesis using type_keys [OF 1(2) assms(3), of rest v] assms(4,5) by (simp add: add.assoc)
qed

section \<open>Properties\<close>

definition boot_keyboard :: keyboard_state where
  "boot_keyboard = \<lparr>last_scancode = 0, enter_cooldown = 0, buffer_pos = 0, input_buffer = replicate 256 0,
     held_key = 0, key_hold_time = 0, repeat_delay = 0, held_key_char = 0,
     shift_pressed = 0, caps_lock_on = 0, ctrl_pressed = 0, alt_pressed = 0\<rparr>"

lemma boot_keyboard_ok: "kb_ok boot_keyboard" "released boot_keyboard"
  by (simp_all add: boot_keyboard_def kb_ok_def line_text_def released_def)

text \<open>The same keyboard after a line has just been entered.\<close>

definition armed_keyboard :: keyboard_state where
  "armed_keyboard = boot_keyboard\<lparr>enter_cooldown := ENTER_COOLDOWN_CYCLES\<rparr>"

lemma armed_keyboard_ok: "kb_ok armed_keyboard" "released armed_keyboard"
  using boot_keyboard_ok by (simp_all add: armed_keyboard_def kb_ok_def released_def key_delays line_text_def)

text \<open>
  C7. Typing a line. From a released keyboard, in any state of the Enter cooldown and so after any
  earlier line, let the port show an optional pause, then at most 255 strokes of character keys, each
  held for at most \<open>KEY_REPEAT_INITIAL_DELAY\<close> iterations and followed by a pause of any length, then
  Enter. If the iterations up to Enter outlast the cooldown, \<open>keyboard_get_input\<close> returns exactly the
  characters of the keys as a terminated string and leaves the keyboard released with the cooldown
  armed for the next line; if they do not, Enter does not end the line.
\<close>

theorem keyboard_typing:
  assumes "kb_ok kb" and "released kb"
    and "list_all idle_code idle" and "list_all (stroke_ok kb) strokes" and "length strokes \<le> 255"
  shows "(let typed = idle @ concat (map key_stroke strokes) in
     if enter_cooldown kb \<le> int (length typed) + 1
     then \<exists>kb' v'. keyboard_get_input (typed @ ENTER_SCANCODE # input) (kb, v) = Some ((kb', v'), drop 3 input) \<and>
            terminated (input_buffer kb') \<and>
            cstr (input_buffer kb') = map (\<lambda>st. scancode_to_ascii kb (fst st)) strokes \<and>
            kb_ok kb' \<and> released kb' \<and> enter_cooldown kb' = ENTER_COOLDOWN_CYCLES
     else keyboard_get_input (typed @ [ENTER_SCANCODE]) (kb, v) = None)"
proof -
  let ?kb = "kb\<lparr>buffer_pos := 0\<rparr>" and ?v = "show_cursor (vga_set_color VGA_COLOR_WHITE VGA_COLOR_BLACK v)"
  let ?typed = "idle @ concat (map key_stroke strokes)"
  let ?line = "map (\<lambda>st. scancode_to_ascii kb (fst st)) strokes"
  have "resting kb [] 0 ?kb"
    using assms(1,2) by (simp add: resting_def after_polls_def kb_ok_def line_text_def released_def)
  then have line: "\<exists>kb' v'. keyboard_get_input (?typed @ rest) (kb, v) = keyboard_loop rest (kb', v') \<and>
      resting kb ?line (length ?typed) kb'" for rest
    using type_line [OF _ assms(3-5) refl, of 0 ?kb rest ?v] by (simp add: keyboard_get_input_def Let_def)
  show ?thesis
  proof (cases "enter_cooldown kb \<le> int (length ?typed) + 1")
    case True
    obtain kb1 v1 where 1: "keyboard_get_input (?typed @ ENTER_SCANCODE # input) (kb, v) =
        keyboard_loop (ENTER_SCANCODE # input) (kb1, v1)" "resting kb ?line (length ?typed) kb1"
      using line by blast
    then show ?thesis using type_enter(1) [OF 1(2) True, of v1] True by (auto simp: entered_def Let_def)
  next
    case False
    obtain kb1 v1 where 1: "keyboard_get_input (?typed @ [ENTER_SCANCODE]) (kb, v) =
        keyboard_loop [ENTER_SCANCODE] (kb1, v1)" "resting kb ?line (length ?typed) kb1"
      using line by blast
    then show ?thesis using type_enter(2) [OF 1(2), of v1] False by (auto simp: Let_def)
  qed
qed

text \<open>
  Instances: the first line after boot, and a next line with the cooldown armed, which needs the
  pause before its Enter; without it the same keys do not end the line.
\<close>

theorem keyboard_typing_witness:
  "(\<exists>kb' v'. keyboard_get_input (concat (map key_stroke [(0x19, 2, []), (0x1F, 0, [0x9F])]) @ [ENTER_SCANCODE])
       (boot_keyboard, boot_vga) = Some ((kb', v'), []) \<and> cstr (input_buffer kb') = c_chars ''ps'') \<and>
   (\<exists>kb' v'. keyboard_get_input (replicate 5000 0 @ concat (map key_stroke [(0x19, 0, []), (0x1F, 0, [])]) @ [ENTER_SCANCODE])
       (armed_keyboard, boot_vga) = Some ((kb', v'), []) \<and> cstr (input_buffer kb') = c_chars ''ps'') \<and>
   keyboard_get_input (concat (map key_stroke [(0x19, 0, []), (0x1F, 0, [])]) @ [ENTER_SCANCODE])
     (armed_keyboard, boot_vga) = None"
proof -
  have t: "scancode_to_ascii boot_keyboard 0x19 = of_char CHR ''p''"
    "scancode_to_ascii boot_keyboard 0x1F = of_char CHR ''s''"
    by (simp_all add: scancode_to_ascii_def boot_keyboard_def shift_keys_def letter_keys_def)
  have u: "scancode_to_ascii armed_keyboard = scancode_to_ascii boot_keyboard"
    by (rule ext, rule scancode_ascii_cong) (simp_all add: armed_keyboard_def)
  have ok: "list_all (stroke_ok kb) [(0x19, 2, []), (0x1F, 0, [0x9F])]"
    "list_all (stroke_ok kb) [(0x19, 0, []), (0x1F, 0, [])]" if "scancode_to_ascii kb = scancode_to_ascii boot_keyboard" for kb
    using that by (simp_all add: stroke_ok_def types_def t is_modifier_def key_codes key_delays idle_code_def)
  have z: "list_all idle_code (replicate 5000 0)" by (simp add: idle_code_def list_all_iff)
  have e: "\<not> enter_cooldown armed_keyboard \<le> 5" "enter_cooldown armed_keyboard \<le> 5005" "enter_cooldown boot_keyboard \<le> 8"
    by (simp_all add: armed_keyboard_def boot_keyboard_def key_delays)
  show ?thesis
    using keyboard_typing [OF boot_keyboard_ok _ ok(1) [OF refl], of "[]" "[]" boot_vga]
      keyboard_typing [OF armed_keyboard_ok z ok(2) [OF u], of "[]" boot_vga]
      keyboard_typing [OF armed_keyboard_ok _ ok(2) [OF u], of "[]" "[]" boot_vga] e
    by (auto simp: t u key_stroke_def Let_def)
qed

lemma keyboard_get_input_ok:
  assumes "kb_ok kb" and "keyboard_get_input input (kb, v) = Some ((kb', v'), rest)"
  shows "entered kb'"
proof -
  have "kb_ok (kb\<lparr>buffer_pos := 0\<rparr>)" using assms(1) by (simp add: kb_ok_def line_text_def)
  then show ?thesis
    using assms(2) kbd_loop.loop_finished [of "(kb\<lparr>buffer_pos := 0\<rparr>, show_cursor (vga_set_color VGA_COLOR_WHITE VGA_COLOR_BLACK v))"
        input "(kb', v')" rest] by (simp add: keyboard_get_input_def Let_def)
qed

text \<open>
  C20. Whatever is read from the port, the editor never writes outside its 256 byte buffer: every
  iteration keeps the position within 0 and 255, and a returned buffer is a terminated string that
  holds exactly the text up to the position.
\<close>

theorem keyboard_input_safe:
  assumes "kb_ok kb"
  shows "(case keyboard_poll scancode (kb, v) of
            Inl (kb', _) \<Rightarrow> kb_ok kb'
          | Inr (kb', _) \<Rightarrow> kb_ok kb' \<and> terminated (input_buffer kb') \<and> cstr (input_buffer kb') = line_text kb') \<and>
         (\<forall>kb' v' rest. keyboard_get_input input (kb, v) = Some ((kb', v'), rest) \<longrightarrow>
            kb_ok kb' \<and> terminated (input_buffer kb') \<and> cstr (input_buffer kb') = line_text kb')"
proof -
  have "entered kb'" if "keyboard_get_input input (kb, v) = Some ((kb', v'), rest)" for kb' v' rest
    using that keyboard_get_input_ok [OF assms] by blast
  then show ?thesis
    using keyboard_poll_ok [OF assms, of scancode v]
    by (auto simp: entered_def split: sum.splits)
qed

theorem keyboard_input_safe_witness:
  "case keyboard_poll 0x0E (boot_keyboard, boot_vga) of Inl (kb', _) \<Rightarrow> kb_ok kb' | Inr (kb', _) \<Rightarrow> kb_ok kb'"
  using keyboard_input_safe [OF boot_keyboard_ok(1), where scancode = "0x0E" and v = boot_vga] by (auto split: sum.splits)

text \<open>
  C22. What a newly pressed key does to the line. A modifier, or Enter during its cooldown, leaves the text alone;
  Enter otherwise ends the line: the buffer becomes exactly the text as a terminated string, and the cooldown
  starts. Backspace removes the last character, if any; tab adds four spaces, or as many as keep the line at 252
  characters; a character key appends its character unless 255 are there, and any other key nothing.
\<close>

theorem keyboard_press_edits:
  assumes "kb_ok kb"
  shows "case kb_press scancode (kb, v) of
           Inl (kb', _) \<Rightarrow> \<not> (scancode = ENTER_SCANCODE \<and> enter_cooldown kb = 0) \<and> kb_ok kb' \<and>
             line_text kb' =
               (if is_modifier scancode \<or> scancode = ENTER_SCANCODE then line_text kb
                else if scancode = BACKSPACE_SCANCODE then butlast (line_text kb)
                else if scancode = TAB_SCANCODE
                then line_text kb @ replicate (min 4 (252 - length (line_text kb))) (of_char CHR '' '')
                else if scancode_to_ascii kb scancode \<noteq> 0 \<and> length (line_text kb) < 255
                then line_text kb @ [scancode_to_ascii kb scancode] else line_text kb)
         | Inr (kb', _) \<Rightarrow> scancode = ENTER_SCANCODE \<and> enter_cooldown kb = 0 \<and>
             terminated (input_buffer kb') \<and> cstr (input_buffer kb') = line_text kb \<and>
             enter_cooldown kb' = ENTER_COOLDOWN_CYCLES"
proof (cases "kb_press scancode (kb, v)")
  case (Inl s)
  then show ?thesis
    using kb_press_text [OF assms, of scancode v "fst s" "snd s"]
    by (cases s) (simp add: ends_line_def key_text_def split: if_splits)
next
  case (Inr s)
  then show ?thesis
    using kb_press_enter [OF assms, of scancode v] by (cases s) (auto simp: ends_line_def entered_def)
qed

theorem keyboard_press_edits_witness:
  "case kb_press TAB_SCANCODE (boot_keyboard, boot_vga) of
     Inl (kb', _) \<Rightarrow> line_text kb' = replicate 4 (of_char CHR '' '') | Inr _ \<Rightarrow> False"
proof -
  have t: "line_text boot_keyboard = []" "\<not> is_modifier TAB_SCANCODE" "TAB_SCANCODE \<noteq> ENTER_SCANCODE"
    "TAB_SCANCODE \<noteq> BACKSPACE_SCANCODE"
    by (simp_all add: line_text_def boot_keyboard_def is_modifier_def key_codes)
  then show ?thesis
    using keyboard_press_edits [OF boot_keyboard_ok(1), where scancode = TAB_SCANCODE and v = boot_vga]
    by (auto simp: eval_nat_numeral split: sum.splits)
qed

text \<open>
  Shift and caps lock: a letter key gives the lower case letter without modifiers and with both,
  the upper case letter with either; caps lock toggles on press and ignores releases, shift lasts
  until its release, and symbol keys follow shift alone.
\<close>

theorem keyboard_letter_case:
  assumes "map_of letter_keys sc = Some (lower, upper)" and "shift_pressed kb = 0" and "caps_lock_on kb = 0"
  shows "scancode_to_ascii kb sc = of_char lower \<and>
    scancode_to_ascii (keyboard_update_modifiers LEFT_SHIFT_SCANCODE False kb) sc = of_char upper \<and>
    scancode_to_ascii (keyboard_update_modifiers CAPS_LOCK_SCANCODE False kb) sc = of_char upper \<and>
    scancode_to_ascii (keyboard_update_modifiers CAPS_LOCK_SCANCODE True
      (keyboard_update_modifiers CAPS_LOCK_SCANCODE False kb)) sc = of_char upper \<and>
    scancode_to_ascii (keyboard_update_modifiers LEFT_SHIFT_SCANCODE False
      (keyboard_update_modifiers CAPS_LOCK_SCANCODE False kb)) sc = of_char lower \<and>
    scancode_to_ascii (keyboard_update_modifiers RIGHT_SHIFT_SCANCODE True
      (keyboard_update_modifiers LEFT_SHIFT_SCANCODE False kb)) sc = of_char lower"
proof -
  have "map_of shift_keys sc = None"
    using assms(1) by (auto simp: letter_keys_def shift_keys_def split: if_splits)
  then show ?thesis
    using assms by (simp add: scancode_to_ascii_def keyboard_update_modifiers_def key_codes)
qed

theorem keyboard_letter_case_witness:
  "scancode_to_ascii (keyboard_update_modifiers LEFT_SHIFT_SCANCODE False boot_keyboard) 0x1E = of_char CHR ''A''"
  using keyboard_letter_case [of "0x1E" "CHR ''a''" "CHR ''A''" boot_keyboard]
  by (simp add: letter_keys_def boot_keyboard_def)

end
