(* ===== verification/Shell.thy ===== *)
theory Shell
  imports Syscall_Props Idt Keyboard
begin

text \<open>
  The interactive shell and the boot sequence of \<open>kernel/kernel.c\<close>. A command runs on the kernel
  state; \<open>Inl\<close> is an early \<open>return\<close>, \<open>Inr\<close> falls through to the final newline. The command
  \<open>schedule\<close> may leave the shell's context, so the result of a command line carries the pending call
  of an assembly routine.
\<close>

section \<open>State\<close>

text \<open>
  The whole machine: kernel state, interrupt table and ports, keyboard, the values the keyboard port
  will give, the status values the serial port will give and what was sent to it.
\<close>

record machine =
  kern :: kstate
  idt :: idt_state
  keyb :: keyboard_state
  key_input :: "u8 list"
  serial_status :: "u8 list"
  serial_out :: "u8 list"

definition upd_kern :: "(kstate \<Rightarrow> kstate) \<Rightarrow> machine \<Rightarrow> machine" where
  "upd_kern f m = m\<lparr>kern := f (kern m)\<rparr>"

definition kclear :: "kstate \<Rightarrow> kstate" where
  "kclear k = k\<lparr>vga := vga_clear (vga k)\<rparr>"

abbreviation white :: "kstate \<Rightarrow> kstate" where "white \<equiv> kset_color VGA_COLOR_WHITE VGA_COLOR_BLACK"
abbreviation cyan :: "kstate \<Rightarrow> kstate" where "cyan \<equiv> kset_color VGA_COLOR_LIGHT_CYAN VGA_COLOR_BLACK"
abbreviation green :: "kstate \<Rightarrow> kstate" where "green \<equiv> kset_color VGA_COLOR_LIGHT_GREEN VGA_COLOR_BLACK"
abbreviation red :: "kstate \<Rightarrow> kstate" where "red \<equiv> kset_color VGA_COLOR_LIGHT_RED VGA_COLOR_BLACK"
abbreviation brown :: "kstate \<Rightarrow> kstate" where "brown \<equiv> kset_color VGA_COLOR_LIGHT_BROWN VGA_COLOR_BLACK"
abbreviation magenta :: "kstate \<Rightarrow> kstate" where "magenta \<equiv> kset_color VGA_COLOR_LIGHT_MAGENTA VGA_COLOR_BLACK"

text \<open>A sequence of \<open>vga_print\<close> calls with literals.\<close>

definition kputs_all :: "string list \<Rightarrow> kstate \<Rightarrow> kstate" where
  "kputs_all ls k = fold kputs ls k"

section \<open>Commands that only print\<close>

definition cmd_help :: "kstate \<Rightarrow> kstate" where
  "cmd_help k =
     (let k = cyan k;
          k = kputs ''Available Commands:\<newline>'' k;
          k = white k
      in kputs_all
        [''  help     - Show this help message\<newline>'',
         ''  about    - About SimpleOS\<newline>'',
         ''  status   - System status\<newline>'',
         ''  memory   - Memory information\<newline>'',
         ''  clear    - Clear screen\<newline>'',
         ''  version  - Show version info\<newline>'',
         ''  keytest  - Test enhanced keyboard features\<newline>'',
         ''  ps       - List all processes\<newline>'',
         ''  proc     - Current process info\<newline>'',
         ''  spawn <name>    - Create process with name\<newline>'',
         ''  pkill <pid>     - Kill process by PID\<newline>'',
         ''                    (Note: PID 1 kernel_idle is protected)\<newline>'',
         ''  pstatus <pid> <status> - Set process status (READY/PAUSED/WAITING)\<newline>'',
         ''  fork            - Fork current process\<newline>'',
         ''  exec <prog>     - Execute program\<newline>'',
         ''  getpid          - Get current process ID\<newline>'',
         ''  schedule        - Trigger manual scheduler\<newline>'',
         ''  sysinfo         - Show system protection info\<newline>''] k)"

definition cmd_about :: "kstate \<Rightarrow> kstate" where
  "cmd_about k =
     (let k = magenta k;
          k = kputs ''About SimpleOS:\<newline>'' k;
          k = white k
      in kputs_all
        [''SimpleOS is a custom operating system built\<newline>'',
         ''entirely from scratch using x86 assembly and C.\<newline>'',
         ''It features a custom bootloader, protected mode\<newline>'',
         ''kernel, and interactive command interface.\<newline>''] k)"

definition cmd_status :: "kstate \<Rightarrow> kstate" where
  "cmd_status k =
     (let k = green k;
          k = kputs ''System Status:\<newline>'' k;
          k = white k
      in kputs_all
        [''  CPU Mode: 32-bit Protected Mode\<newline>'',
         ''  Memory: Initialized\<newline>'',
         ''  VGA: 80x25 Text Mode\<newline>'',
         ''  Interrupts: Disabled (safe mode)\<newline>'',
         ''  Shell: Active\<newline>''] k)"

text \<open>The kilobyte figures of the memory report: one digit, or three.\<close>

definition kput_kb :: "u32 \<Rightarrow> kstate \<Rightarrow> kstate" where
  "kput_kb kb k =
     (if kb < 10 then kput_digit kb k
      else kput_digit (kb mod 10) (kput_digit (kb div 10 mod 10) (kput_digit (kb div 100) k)))"

definition cmd_memory :: "kstate \<Rightarrow> kstate" where
  "cmd_memory k =
     (let k = brown k;
          k = kputs ''Memory Information:\<newline>'' k;
          k = white k;
          k = kputs_all
            [''  Kernel loaded at: 0x1000\<newline>'',
             ''  Stack pointer: 0x90000\<newline>'',
             ''  VGA buffer: 0xB8000\<newline>'',
             ''  Available RAM: 128MB (QEMU)\<newline>'',
             ''  Heap start: 0x100000 (1MB)\<newline>'',
             ''  Heap size: 1MB\<newline>''] k;
          used = heap_current (heap k) - heap_start (heap k);
          total = heap_end (heap k) - heap_start (heap k);
          used_kb = used div 1024;
          total_kb = total div 1024;
          k = kputs ''  Heap used: '' k;
          k = kput_kb used_kb k;
          k = kputs ''KB / '' k;
          k = kput_kb total_kb k
      in kputs ''KB\<newline>'' k)"

definition cmd_clear :: "kstate \<Rightarrow> kstate" where
  "cmd_clear k =
     (let k = kclear k;
          k = cyan k;
          k = kputs ''Screen cleared.\<newline>'' k
      in white k)"

definition cmd_version :: "kstate \<Rightarrow> kstate" where
  "cmd_version k =
     (let k = cyan k;
          k = kputs ''SimpleOS Version Information:\<newline>'' k;
          k = white k
      in kputs_all
        [''  Kernel: v1.2.2 - Enhanced Keyboard Driver with Special Characters\<newline>'',
         ''  Features: Caps Lock, Shift, Tab, Special chars, Full ASCII support\<newline>'',
         ''  Previous: v1.2.1 - Full Process Management with Context Switching\<newline>'',
         ''  Bootloader: v1.0\<newline>'',
         ''  Architecture: x86 (i386)\<newline>'',
         ''  Build: Custom from scratch\<newline>''] k)"

definition cmd_sysinfo :: "kstate \<Rightarrow> kstate" where
  "cmd_sysinfo k =
     (let k = cyan k;
          k = kputs ''System Protection Information:\<newline>'' k;
          k = white k
      in kputs_all
        [''  Protected Processes:\<newline>'',
         ''    PID 1 (kernel_idle) - Cannot be killed\<newline>'',
         ''    Current kernel process - System critical\<newline>'',
         ''\<newline>'',
         ''  Security Features:\<newline>'',
         ''    - Kernel process protection enabled\<newline>'',
         ''    - Critical PID protection (PID 1)\<newline>'',
         ''    - Memory cleanup on process termination\<newline>'',
         ''    - Process state validation\<newline>'',
         ''\<newline>'',
         ''  Process Management:\<newline>'',
         ''    - Maximum processes: 256\<newline>'',
         ''    - Static memory allocation for safety\<newline>'',
         ''    - Context switching with timer interrupts\<newline>'',
         ''    - Preemptive scheduling at 100Hz\<newline>''] k)"

section \<open>keytest\<close>

lemma keyboard_get_input_shorter:
  "keyboard_get_input input s = Some (s', rest) \<Longrightarrow> length rest < length input"
  using kbd_loop.loop_shorter by (auto simp: keyboard_get_input_def Let_def split: prod.splits)

definition read_line :: "machine \<Rightarrow> machine option" where
  "read_line m = do {
     ((kb, v), rest) \<leftarrow> keyboard_get_input (key_input m) (keyb m, vga (kern m));
     Some (m\<lparr>kern := (kern m)\<lparr>vga := v\<rparr>, keyb := kb, key_input := rest\<rparr>)
   }"

lemma read_line_shorter: "read_line m = Some m' \<Longrightarrow> length (key_input m') < length (key_input m)"
  using keyboard_get_input_shorter by (auto simp: read_line_def split: prod.splits)

text \<open>The report on one tested line.\<close>

definition keytest_report :: "u8 list \<Rightarrow> kstate \<Rightarrow> kstate option" where
  "keytest_report test_input k = do {
     let k = kputs (''You typed: '' @ [CHR 0x27]) k;
     let k = brown k;
     k \<leftarrow> kprint test_input k;
     let k = white k;
     let k = kputs ([CHR 0x27] @ '' (length: '') k;
     len \<leftarrow> string_length test_input;
     let k = kput_dec2 (of_nat len) k;
     Some (kputs '')\<newline>'' k)
   }"

function keytest_loop :: "machine \<Rightarrow> machine option" where
  "keytest_loop m =
     (case read_line (upd_kern (\<lambda>k. white (kputs ''KeyTest> '' (green k))) m) of
        None \<Rightarrow> None
      | Some m' \<Rightarrow>
          do {
            exit \<leftarrow> string_compare (input_buffer (keyb m')) (c_literal ''exit'');
            if exit then Some (upd_kern (kputs ''Keyboard test completed!\<newline>'') m')
            else do {
              k \<leftarrow> keytest_report (input_buffer (keyb m')) (kern m');
              keytest_loop (m'\<lparr>kern := k\<rparr>)
            }
          })"
  by pat_completeness auto

termination
  by (relation "measure (\<lambda>m. length (key_input m))")
     (auto dest: read_line_shorter simp: upd_kern_def)

definition cmd_keytest :: "machine \<Rightarrow> machine option" where
  "cmd_keytest m =
     keytest_loop (upd_kern (\<lambda>k.
       kputs_all
         [''Test these features:\<newline>'',
          ''  - Letters: abcdefghijklmnopqrstuvwxyz\<newline>'',
          ''  - Numbers: 1234567890\<newline>'',
          ''  - Shift+Numbers: !@#$%^&*()\<newline>'',
          ''  - Special chars: []{}'' @ [CHR 0x5C] @ ''|;:'' @ [CHR 0x27, CHR 0x22] @ ''<>,./?`~-=_+\<newline>'',
          ''  - Caps Lock (toggle with Caps Lock key)\<newline>'',
          ''  - Tab (inserts 4 spaces)\<newline>'',
          ''  - Backspace (deletes characters)\<newline>'',
          ''\<newline>Type anything to test, '' @ [CHR 0x27] @ ''exit'' @ [CHR 0x27] @ '' to return:\<newline>'']
         (white (kputs ''Enhanced Keyboard Test Mode:\<newline>'' (cyan k)))) m)"

declare keytest_loop.simps [simp del]

section \<open>Process commands\<close>

definition cmd_ps :: "kstate \<Rightarrow> kstate option" where
  "cmd_ps k =
     (let k = cyan k;
          k = kputs ''Process List:\<newline>'' k;
          k = white k
      in process_list_all k)"

definition state_text :: "process_state \<Rightarrow> string" where
  "state_text s =
     (case s of
        PROCESS_READY \<Rightarrow> ''READY'' | PROCESS_RUNNING \<Rightarrow> ''RUNNING'' | PROCESS_BLOCKED \<Rightarrow> ''BLOCKED''
      | PROCESS_TERMINATED \<Rightarrow> ''TERMINATED'' | PROCESS_STATE_OTHER _ \<Rightarrow> ''UNKNOWN'')"

definition priority_text :: "process_priority \<Rightarrow> string" where
  "priority_text p =
     (case p of
        PRIORITY_HIGH \<Rightarrow> ''HIGH'' | PRIORITY_NORMAL \<Rightarrow> ''NORMAL'' | PRIORITY_LOW \<Rightarrow> ''LOW''
      | PRIORITY_OTHER _ \<Rightarrow> '''')"

definition cmd_proc :: "kstate \<Rightarrow> kstate option" where
  "cmd_proc k =
     (let k = cyan k;
          k = kputs ''Current Process Information:\<newline>'' k;
          k = white k
      in case current_process k of
           Some c \<Rightarrow>
             do {
               let p = pcb k c;
               let k = kputs ''  PID: '' k;
               let k = kprint_hex (p_pid p) k;
               let k = kputs ''\<newline>  Name: '' k;
               k \<leftarrow> kprint (p_name p) k;
               let k = kputs ''\<newline>  State: '' k;
               let k = kputs (state_text (p_state p)) k;
               let k = kputs ''\<newline>  Priority: '' k;
               let k = kputs (priority_text (p_priority p)) k;
               Some (kputs ''\<newline>'' k)
             }
         | None \<Rightarrow> Some (kputs ''No current process (kernel mode)\<newline>'' k))"

text \<open>The local buffers \<open>char cmd[64], arg1[64], arg2[64]\<close>; their first bytes are set before use.\<close>

definition parse_command :: "u8 list \<Rightarrow> (nat \<times> u8 list \<times> u8 list \<times> u8 list) option" where
  "parse_command command = parse_arguments command (replicate 64 0) (replicate 64 0) (replicate 64 0)"

text \<open>A red message with the colour set back.\<close>

definition kerror :: "string list \<Rightarrow> kstate \<Rightarrow> kstate" where
  "kerror ls k = white (kputs_all ls (red k))"

definition cmd_spawn :: "layout \<Rightarrow> u8 list \<Rightarrow> kstate \<Rightarrow> (kstate + kstate) option" where
  "cmd_spawn L command k = do {
     (argc, cmd, arg1, arg2) \<leftarrow> parse_command command;
     if argc < 2
     then Some (Inl (kerror [''Usage: spawn <name>\<newline>'', ''Example: spawn myprocess\<newline>''] k))
     else do {
       let k = green k;
       let k = kputs (''Creating process '' @ [CHR 0x27]) k;
       k \<leftarrow> kprint arg1 k;
       let k = kputs ([CHR 0x27] @ ''...\<newline>'') k;
       let k = white k;
       (new_process, k) \<leftarrow> process_create_test L (Some arg1) (code_addr L Demo_counter_process) PRIORITY_NORMAL k;
       Some (Inr (case new_process of
                    Some _ \<Rightarrow> kputs ''Process created successfully!\<newline>'' k
                  | None \<Rightarrow> kerror [''Failed to create process!\<newline>''] k))
     }
   }"

text \<open>\<open>while (*pidstr >= '0' && *pidstr <= '9') pid = pid * 10 + (*pidstr - '0');\<close>\<close>

fun parse_pid :: "u8 list \<Rightarrow> u32 \<Rightarrow> (u32 \<times> u8 list) option" where
  "parse_pid [] pid = None"
| "parse_pid (c # pidstr) pid =
     (if sint c \<ge> sint (chr8 CHR ''0'') \<and> sint c \<le> sint (chr8 CHR ''9'')
      then parse_pid pidstr (pid * 10 + (ucast c - ucast (chr8 CHR ''0'')))
      else Some (pid, c # pidstr))"

definition cmd_pkill :: "layout \<Rightarrow> u8 list \<Rightarrow> kstate \<Rightarrow> (kstate + kstate) option" where
  "cmd_pkill L command k = do {
     (argc, cmd, arg1, arg2) \<leftarrow> parse_command command;
     if argc < 2
     then Some (Inl (kerror [''Usage: pkill <pid>\<newline>'', ''Example: pkill 1\<newline>''] k))
     else do {
       (pid, pidstr) \<leftarrow> parse_pid arg1 0;
       if pid = 0 \<or> hd pidstr \<noteq> 0
       then Some (Inl (kerror [''Invalid PID format!\<newline>''] k))
       else do {
         let k = brown k;
         let k = kputs ''Killing process PID '' k;
         k \<leftarrow> kprint arg1 k;
         let k = kputs ''...\<newline>'' k;
         let k = white k;
         (result, k) \<leftarrow> process_kill_by_pid L pid k;
         Some (Inr (if result = PROCESS_SUCCESS then kputs ''Process killed successfully.\<newline>'' k
                    else if result = PROCESS_PROTECTED then white k
                    else if result = PROCESS_NOT_FOUND then kerror [''Process not found!\<newline>''] k
                    else kerror [''Failed to kill process!\<newline>''] k))
       }
     }
   }"

definition parse_status :: "u8 list \<Rightarrow> process_state option option" where
  "parse_status arg2 = do {
     r \<leftarrow> string_compare arg2 (c_literal ''READY'');
     if r then Some (Some PROCESS_READY)
     else do {
       p \<leftarrow> string_compare arg2 (c_literal ''PAUSED'');
       if p then Some (Some PROCESS_BLOCKED)
       else do {
         w \<leftarrow> string_compare arg2 (c_literal ''WAITING'');
         Some (if w then Some PROCESS_BLOCKED else None)
       }
     }
   }"

definition cmd_pstatus :: "u8 list \<Rightarrow> kstate \<Rightarrow> (kstate + kstate) option" where
  "cmd_pstatus command k = do {
     (argc, cmd, arg1, arg2) \<leftarrow> parse_command command;
     if argc < 3
     then Some (Inl (kerror [''Usage: pstatus <pid> <status>\<newline>'',
                             ''Status options: READY, PAUSED, WAITING\<newline>'',
                             ''Example: pstatus 1 PAUSED\<newline>''] k))
     else do {
       (pid, pidstr) \<leftarrow> parse_pid arg1 0;
       if pid = 0 \<or> hd pidstr \<noteq> 0
       then Some (Inl (kerror [''Invalid PID format!\<newline>''] k))
       else do {
         status \<leftarrow> parse_status arg2;
         (case status of
            None \<Rightarrow> Some (Inl (kerror [''Invalid status! Use: READY, PAUSED, or WAITING\<newline>''] k))
          | Some status \<Rightarrow>
              do {
                let k = cyan k;
                let k = kputs ''Setting process PID '' k;
                k \<leftarrow> kprint arg1 k;
                let k = kputs '' to '' k;
                k \<leftarrow> kprint arg2 k;
                let k = kputs ''...\<newline>'' k;
                let k = white k;
                let (updated, k) = process_set_status pid status k;
                Some (Inr (if updated \<noteq> 0 then kputs ''Process status updated successfully.\<newline>'' k
                           else kerror [''Failed to update process status!\<newline>''] k))
              })
       }
     }
   }"

definition cmd_fork :: "layout \<Rightarrow> kstate \<Rightarrow> kstate option" where
  "cmd_fork L k = do {
     let k = green k;
     let k = kputs ''Forking current process...\<newline>'' k;
     let k = white k;
     (child_pid, k) \<leftarrow> sys_fork L k;
     Some (if child_pid > 0
           then kputs ''\<newline>'' (kprint_hex child_pid (kputs ''Child process created with PID: '' k))
           else kerror [''Fork failed!\<newline>''] k)
   }"

definition cmd_exec :: "layout \<Rightarrow> u8 list \<Rightarrow> kstate \<Rightarrow> kstate option" where
  "cmd_exec L command k = do {
     let program_name = drop 5 command;
     let k = green k;
     let k = kputs ''Executing program: '' k;
     k \<leftarrow> kprint program_name k;
     let k = kputs ''\<newline>'' k;
     let k = white k;
     (result, k) \<leftarrow> sys_exec L (Some program_name) k;
     Some (if result = 0 then kputs ''Program executed successfully\<newline>'' k
           else kerror [''Exec failed!\<newline>''] k)
   }"

definition cmd_getpid :: "kstate \<Rightarrow> kstate" where
  "cmd_getpid k =
     (let current_pid = sys_getpid k;
          k = cyan k;
          k = kputs ''Current process PID: '' k;
          k = kprint_hex current_pid k;
          k = kputs ''\<newline>'' k
      in white k)"

definition change_current_process :: "u32 \<Rightarrow> kstate \<Rightarrow> kstate option" where
  "change_current_process pid k =
     (if pid = 1 then Some (kputs ''ERROR: Cannot switch to kernel process (PID 1)\<newline>'' k)
      else
        (case process_find_by_pid pid k of
           None \<Rightarrow>
             (let k = kputs ''ERROR: Process not found for PID: '' k;
                  k = kprint_hex pid k
              in Some (kputs ''\<newline>'' k))
         | Some proc \<Rightarrow>
             do {
               let k = k\<lparr>current_process := Some proc\<rparr>;
               let k = upd_pcb proc (\<lambda>p. p\<lparr>p_state := PROCESS_RUNNING\<rparr>) k;
               let k = kputs ''Switched to process PID: '' k;
               let k = kprint_hex pid k;
               let k = kputs '' (Name: '' k;
               k \<leftarrow> kprint (p_name (pcb k proc)) k;
               Some (kputs '')\<newline>'' k)
             }))"

definition cmd_pch :: "u8 list \<Rightarrow> kstate \<Rightarrow> (kstate + kstate) option" where
  "cmd_pch command k =
     (if command ! 4 = 1
      then Some (Inl (kerror [''ERROR: Cannot switch to kernel process (PID 1)\<newline>''] k))
      else do {
        (ok, out) \<leftarrow> string_to_uint32 (Some (drop 4 command)) True;
        if ok then map_option Inr (change_current_process (case out of Some pid \<Rightarrow> pid | None \<Rightarrow> 0) k)
        else Some (Inr (kerror [''ERROR: Invalid PID\<newline>''] k))
      })"

definition cmd_unknown :: "u8 list \<Rightarrow> kstate \<Rightarrow> kstate option" where
  "cmd_unknown command k = do {
     let k = red k;
     let k = kputs ''Unknown command: '' k;
     k \<leftarrow> kprint command k;
     let k = kputs ''\<newline>'' k;
     let k = white k;
     Some (kputs (''Type '' @ [CHR 0x27] @ ''help'' @ [CHR 0x27] @ '' for available commands.\<newline>'') k)
   }"

section \<open>Dispatch\<close>

datatype shell_command =
    Help | About | Status | Memory_info | Clear | Version | Keytest | Ps | Proc | Spawn | Pkill | Pstatus
  | Fork | Exec | Getpid | Schedule | Sysinfo | Pch | Unknown

text \<open>
  \<open>command[0] == w[0] && ... && (command[n] == ' ' || command[n] == '\0')\<close>: later characters are read
  only when the earlier ones matched.
\<close>

fun match_word :: "string \<Rightarrow> u8 list \<Rightarrow> bool option" where
  "match_word w [] = None"
| "match_word [] (c # command) = Some (c = of_char CHR '' '' \<or> c = 0)"
| "match_word (x # w) (c # command) = (if c = of_char x then match_word w command else Some False)"

fun match_chars :: "string \<Rightarrow> u8 list \<Rightarrow> bool option" where
  "match_chars [] command = Some True"
| "match_chars (x # w) [] = None"
| "match_chars (x # w) (c # command) = (if c = of_char x then match_chars w command else Some False)"

text \<open>The chain of tests of \<open>process_command\<close>, in its order.\<close>

definition command_tests :: "((u8 list \<Rightarrow> bool option) \<times> shell_command) list" where
  "command_tests =
     [(\<lambda>c. string_compare c (c_literal ''help''), Help),
      (\<lambda>c. string_compare c (c_literal ''about''), About),
      (\<lambda>c. string_compare c (c_literal ''status''), Status),
      (\<lambda>c. string_compare c (c_literal ''memory''), Memory_info),
      (\<lambda>c. string_compare c (c_literal ''clear''), Clear),
      (\<lambda>c. string_compare c (c_literal ''version''), Version),
      (\<lambda>c. string_compare c (c_literal ''keytest''), Keytest),
      (\<lambda>c. string_compare c (c_literal ''ps''), Ps),
      (\<lambda>c. string_compare c (c_literal ''proc''), Proc),
      (match_word ''spawn'', Spawn),
      (match_word ''pkill'', Pkill),
      (match_word ''pstatus'', Pstatus),
      (\<lambda>c. string_compare c (c_literal ''fork''), Fork),
      (\<lambda>c. string_starts_with c (c_literal ''exec ''), Exec),
      (\<lambda>c. string_compare c (c_literal ''getpid''), Getpid),
      (\<lambda>c. string_compare c (c_literal ''schedule''), Schedule),
      (\<lambda>c. string_compare c (c_literal ''sysinfo''), Sysinfo),
      (match_chars ''pch '', Pch)]"

fun first_match :: "((u8 list \<Rightarrow> bool option) \<times> shell_command) list \<Rightarrow> u8 list \<Rightarrow> shell_command option" where
  "first_match [] command = Some Unknown"
| "first_match ((test, c) # rest) command = do {
     matched \<leftarrow> test command;
     if matched then Some c else first_match rest command
   }"

text \<open>The end of a command: returned early, fallen through, or stopped in a context switch.\<close>

definition finish :: "machine \<Rightarrow> kstate \<Rightarrow> machine \<times> switch_call" where
  "finish m k = (m\<lparr>kern := kputs ''\<newline>'' k\<rparr>, No_switch)"

definition finish_flow :: "machine \<Rightarrow> kstate + kstate \<Rightarrow> machine \<times> switch_call" where
  "finish_flow m r = (case r of Inl k \<Rightarrow> (m\<lparr>kern := k\<rparr>, No_switch) | Inr k \<Rightarrow> finish m k)"

text \<open>What runs after \<open>schedule\<close> returns to the command.\<close>

definition after_schedule :: "kstate \<Rightarrow> kstate" where
  "after_schedule k = kputs ''\<newline>'' (kputs ''Scheduler executed\<newline>'' k)"

definition cmd_schedule :: "machine \<Rightarrow> kstate \<Rightarrow> machine \<times> switch_call" where
  "cmd_schedule m k =
     (let k = cyan k;
          k = kputs ''Triggering manual scheduler...\<newline>'' k;
          k = white k;
          (k, call) = schedule k
      in case call of
           No_switch \<Rightarrow> (m\<lparr>kern := after_schedule k\<rparr>, No_switch)
         | _ \<Rightarrow> (m\<lparr>kern := k\<rparr>, call))"

definition process_command :: "layout \<Rightarrow> u8 list \<Rightarrow> machine \<Rightarrow> (machine \<times> switch_call) option" where
  "process_command L command m = do {
     let k = white (kern m);
     c \<leftarrow> first_match command_tests command;
     (case c of
        Help \<Rightarrow> Some (finish m (cmd_help k))
      | About \<Rightarrow> Some (finish m (cmd_about k))
      | Status \<Rightarrow> Some (finish m (cmd_status k))
      | Memory_info \<Rightarrow> Some (finish m (cmd_memory k))
      | Clear \<Rightarrow> Some (finish m (cmd_clear k))
      | Version \<Rightarrow> Some (finish m (cmd_version k))
      | Keytest \<Rightarrow> map_option (\<lambda>m. finish m (kern m)) (cmd_keytest (m\<lparr>kern := k\<rparr>))
      | Ps \<Rightarrow> map_option (finish m) (cmd_ps k)
      | Proc \<Rightarrow> map_option (finish m) (cmd_proc k)
      | Spawn \<Rightarrow> map_option (finish_flow m) (cmd_spawn L command k)
      | Pkill \<Rightarrow> map_option (finish_flow m) (cmd_pkill L command k)
      | Pstatus \<Rightarrow> map_option (finish_flow m) (cmd_pstatus command k)
      | Fork \<Rightarrow> map_option (finish m) (cmd_fork L k)
      | Exec \<Rightarrow> map_option (finish m) (cmd_exec L command k)
      | Getpid \<Rightarrow> Some (finish m (cmd_getpid k))
      | Schedule \<Rightarrow> Some (cmd_schedule m k)
      | Sysinfo \<Rightarrow> Some (finish m (cmd_sysinfo k))
      | Pch \<Rightarrow> map_option (finish_flow m) (cmd_pch command k)
      | Unknown \<Rightarrow> map_option (finish m) (cmd_unknown command k))
   }"

section \<open>Shell loop and boot\<close>

definition print_prompt :: "kstate \<Rightarrow> kstate" where
  "print_prompt k =
     (let k = green k;
          k = kputs ''SimpleOS-v1.2.2'' k;
          k = white k
      in kputs ''> '' k)"

text \<open>One round of \<open>interactive_shell\<close>: \<open>None\<close> also when the input ends before a line does.\<close>

definition shell_round :: "layout \<Rightarrow> machine \<Rightarrow> (machine \<times> switch_call) option" where
  "shell_round L m = do {
     m \<leftarrow> read_line (upd_kern print_prompt m);
     n \<leftarrow> string_length (input_buffer (keyb m));
     if n > 0 then process_command L (input_buffer (keyb m)) m else Some (m, No_switch)
   }"

text \<open>
  The serial port: \<open>serial_write_char\<close> polls the line status until bit 5 is set; \<open>None\<close> when the given
  status values never have it.
\<close>

fun serial_wait :: "u8 list \<Rightarrow> u8 list option" where
  "serial_wait [] = None"
| "serial_wait (s # status) = (if s AND 0x20 = 0 then serial_wait status else Some status)"

definition serial_write_char :: "u8 \<Rightarrow> machine \<Rightarrow> machine option" where
  "serial_write_char c m =
     map_option (\<lambda>status. m\<lparr>serial_status := status, serial_out := serial_out m @ [c]\<rparr>)
       (serial_wait (serial_status m))"

fun serial_write_string :: "u8 list \<Rightarrow> machine \<Rightarrow> machine option" where
  "serial_write_string [] m = None"
| "serial_write_string (c # str) m =
     (if c \<noteq> 0 then do { m \<leftarrow> serial_write_char c m; serial_write_string str m } else Some m)"

definition show_welcome_screen :: "machine \<Rightarrow> machine option" where
  "show_welcome_screen m = do {
     m \<leftarrow> serial_write_string (c_literal ''SERIAL: Starting welcome screen function\<newline>'') m;
     let k = kputs ''DEBUG: Starting welcome screen function\<newline>'' (kern m);
     let k = cyan k;
     let k = kputs ''========= SimpleOS =========\<newline>\<newline>'' k;
     let k = white k;
     let k = kputs_all
       [''Commands: help, about, status, memory, version, clear\<newline>'',
        ''Process:  ps, proc, spawn <name>, pkill <pid>, pstatus <pid> <status>\<newline>'',
        ''\<newline>''] k;
     let k = green k;
     let k = kputs ''Try any command!\<newline>\<newline>'' k;
     let k = kputs ''DEBUG: Welcome screen completed\<newline>'' k;
     Some (m\<lparr>kern := k\<rparr>)
   }"

definition shell_start :: "machine \<Rightarrow> machine" where
  "shell_start m =
     upd_kern (\<lambda>k. kputs ''Starting interactive shell...\<newline>\<newline>''
                     (kset_color VGA_COLOR_LIGHT_GREY VGA_COLOR_BLACK k)) m"

text \<open>\<open>kernel_main\<close> up to the endless loop of the shell.\<close>

definition kernel_main :: "layout \<Rightarrow> machine \<Rightarrow> machine option" where
  "kernel_main L m = do {
     let m = upd_kern (\<lambda>k. k\<lparr>vga := vga_init (vga k)\<rparr>) m;
     let m = upd_kern kclear m;
     m \<leftarrow> serial_write_string (c_literal ''SERIAL: Kernel started\<newline>'') m;
     let m = upd_kern (kputs ''SimpleOS Kernel Starting...\<newline>'') m;
     let m = upd_kern (kputs ''Initializing memory...\<newline>'') m;
     let m = upd_kern (\<lambda>k. k\<lparr>heap := memory_init (heap k)\<rparr>) m;
     let m = upd_kern (kputs ''Initializing IDT...\<newline>'') m;
     let m = m\<lparr>idt := idt_init L (idt m)\<rparr>;
     let m = upd_kern (kputs ''Initializing timer...\<newline>'') m;
     let m = (let (k, i) = timer_init L (kern m, idt m) in m\<lparr>kern := k, idt := i\<rparr>);
     let m = upd_kern (kputs ''Initializing keyboard...\<newline>'') m;
     let m = (let (kb, rest) = keyboard_init (keyb m) (key_input m) in m\<lparr>keyb := kb, key_input := rest\<rparr>);
     let m = upd_kern (kputs ''Initializing process management...\<newline>'') m;
     let m = upd_kern process_init m;
     let m = upd_kern (kputs ''Initializing scheduler...\<newline>'') m;
     let m = upd_kern scheduler_init m;
     let m = upd_kern (kputs ''Enabling process execution...\<newline>'') m;
     k \<leftarrow> enable_process_execution L (kern m);
     let m = m\<lparr>kern := kputs ''Showing welcome screen...\<newline>'' k\<rparr>;
     m \<leftarrow> show_welcome_screen m;
     let m = upd_kern (kputs ''DEBUG: Welcome screen shown, starting shell...\<newline>'') m;
     Some (shell_start m)
   }"

end
