(* ===== verification/Shell_Props.thy ===== *)
theory Shell_Props
  imports Shell
begin

text \<open>
  Properties of the shell: which command a line selects, that every command but \<open>pkill\<close> and \<open>keytest\<close>
  returns when the tokens of the line fit the local buffers, and what it keeps of the invariant of
  the running kernel (\<open>kernel_inv\<close>): the process table stays well formed and the kernel process
  stays in it, alive, as PID 1.
\<close>

section \<open>Selecting a command\<close>

definition exact_commands :: "(string \<times> shell_command) list" where
  "exact_commands =
     [(''help'', Help), (''about'', About), (''status'', Status), (''memory'', Memory_info), (''clear'', Clear),
      (''version'', Version), (''keytest'', Keytest), (''ps'', Ps), (''proc'', Proc)]"

definition more_commands :: "(string \<times> shell_command) list" where
  "more_commands = [(''getpid'', Getpid), (''schedule'', Schedule), (''sysinfo'', Sysinfo)]"

definition is_word :: "string \<Rightarrow> u8 list \<Rightarrow> bool" where
  "is_word w line \<longleftrightarrow> (\<exists>rest. line = c_chars w @ rest \<and> (rest = [] \<or> is_space (hd rest)))"

definition has_prefix :: "string \<Rightarrow> u8 list \<Rightarrow> bool" where
  "has_prefix w line \<longleftrightarrow> take (length w) line = c_chars w"

text \<open>The command of a line, on its text.\<close>

definition selected :: "u8 list \<Rightarrow> shell_command" where
  "selected line =
     (case find (\<lambda>p. line = c_chars (fst p)) exact_commands of
        Some p \<Rightarrow> snd p
      | None \<Rightarrow>
          if is_word ''spawn'' line then Spawn
          else if is_word ''pkill'' line then Pkill
          else if is_word ''pstatus'' line then Pstatus
          else if line = c_chars ''fork'' then Fork
          else if has_prefix ''exec '' line then Exec
          else (case find (\<lambda>p. line = c_chars (fst p)) more_commands of
                  Some p \<Rightarrow> snd p
                | None \<Rightarrow> if has_prefix ''pch '' line then Pch else Unknown))"

lemma match_word_terminated:
  "terminated s \<Longrightarrow> nul_free w \<Longrightarrow> match_word w s = Some (is_word w (cstr s))"
proof (induction w s rule: match_word.induct)
  case (2 c command)
  then show ?case by (auto simp: is_word_def is_space_def)
next
  case (3 x w c command)
  have "is_word (x # w) (c # l) \<longleftrightarrow> c = of_char x \<and> is_word w l" for l
    by (auto simp: is_word_def)
  moreover have "\<not> is_word (x # w) []" by (auto simp: is_word_def)
  ultimately show ?case using 3 by auto
qed simp

lemma match_chars_terminated:
  "terminated s \<Longrightarrow> nul_free w \<Longrightarrow> match_chars w s = Some (has_prefix w (cstr s))"
  by (induction w s rule: match_chars.induct) (auto simp: has_prefix_def)

lemma first_match_terminated:
  assumes "terminated s"
  shows "first_match command_tests s = Some (selected (cstr s))"
  using assms
  by (simp add: command_tests_def selected_def exact_commands_def more_commands_def string_compare_terminated
      string_starts_with_terminated match_word_terminated match_chars_terminated has_prefix_def
      del: c_chars_simps)

section \<open>The invariant of the running kernel\<close>

definition kernel_inv :: "kstate \<Rightarrow> bool" where
  "kernel_inv k \<longleftrightarrow> table_ok k \<and> kernel_process k = Some (Test_pcb 0) \<and>
     process_table k 1 = Some (Test_pcb 0) \<and> 0 < test_count k \<and>
     p_state (pcb k (Test_pcb 0)) \<noteq> PROCESS_TERMINATED"

lemma kernel_inv_same_core: "same_core k' k \<Longrightarrow> kernel_inv k' = kernel_inv k"
  by (simp add: kernel_inv_def table_ok_same_core same_core_fields)

lemma same_core_kputs_all [simp]: "same_core (kputs_all ls k) k' = same_core k k'"
  by (induction ls arbitrary: k) (simp_all add: kputs_all_def)

lemma same_core_shell_output [simp]:
  "same_core (kclear k) k' = same_core k k'" "same_core (kerror ls k) k' = same_core k k'"
  "same_core (kput_kb n k) k' = same_core k k'"
  by (simp_all add: kerror_def kput_kb_def same_core_def [of "kclear k"]) (simp add: kclear_def same_core_def)

lemma same_core_printing [simp]:
  "same_core (cmd_help k) k" "same_core (cmd_about k) k" "same_core (cmd_status k) k" "same_core (cmd_memory k) k"
  "same_core (cmd_clear k) k" "same_core (cmd_version k) k" "same_core (cmd_sysinfo k) k" "same_core (cmd_getpid k) k"
  "same_core (after_schedule k) k"
  by (simp_all add: cmd_help_def cmd_about_def cmd_status_def cmd_memory_def cmd_clear_def cmd_version_def
      cmd_sysinfo_def cmd_getpid_def after_schedule_def Let_def)

lemma kernel_inv_output [simp]:
  "kernel_inv (kputs s k) = kernel_inv k" "kernel_inv (kprint_hex w k) = kernel_inv k"
  "kernel_inv (kset_color f b k) = kernel_inv k" "kernel_inv (kerror ls k) = kernel_inv k"
  by (simp_all add: kernel_inv_same_core)

text \<open>Printing a terminated buffer returns; printing anything keeps the invariant.\<close>

lemma kprint_inv: "kprint buf k = Some k' \<Longrightarrow> kernel_inv k' = kernel_inv k"
  using kprint_same_core kernel_inv_same_core by blast

lemma kprint_total: "terminated buf \<Longrightarrow> \<exists>k'. kprint buf k = Some k' \<and> kernel_inv k' = kernel_inv k"
  using kprint_terminated kernel_inv_same_core by blast

section \<open>Commands\<close>

lemma kernel_inv_terminated: "kernel_inv k \<Longrightarrow> terminated (p_name (pcb k r))"
  using arrays_ok_terminated table_okD(4) by (auto simp: kernel_inv_def)

lemma kernel_inv_create_test:
  assumes "kernel_inv k" and "terminated name"
  shows "\<exists>p k'. process_create_test L (Some name) e q k = Some (p, k') \<and> kernel_inv k' \<and>
    (\<forall>r. p = Some r \<longrightarrow> r \<noteq> Test_pcb 0)"
proof (cases "test_count k < 10")
  case True
  have t: "table_ok k" using assms(1) by (simp add: kernel_inv_def)
  obtain k' where k': "process_create_test L (Some name) e q k = Some (Some (Test_pcb (test_count k)), k')"
    "same_core k' (test_created L name e q k)"
    using process_create_test_creates [OF True assms(2)] arrays_okD(1) [OF table_okD(4) [OF t]] by blast
  have "(of_nat (test_count k) + 1 :: u32) \<noteq> 1"
    using assms(1) True by (auto simp: kernel_inv_def word_eq_unat unat_word_ariths)
  then have "kernel_inv (test_created L name e q k)"
    using assms(1) table_ok_test_created [OF t True] by (simp add: kernel_inv_def)
  then have "kernel_inv k'" by (simp add: kernel_inv_same_core [OF k'(2)])
  moreover have "Test_pcb (test_count k) \<noteq> Test_pcb 0" using assms(1) by (simp add: kernel_inv_def)
  ultimately show ?thesis using k'(1) by blast
next
  case False
  then show ?thesis
    using process_create_test_full [of k L "Some name" e q] assms(1) by (auto simp: kernel_inv_same_core)
qed

lemma kernel_inv_upd:
  assumes "kernel_inv k" and "\<And>p. p_pid (f p) = p_pid p" and "\<And>p. p_name (f p) = p_name p"
    and "\<And>p. p_file_descriptors (f p) = p_file_descriptors p"
    and "p_state (f (pcb k r)) \<noteq> PROCESS_TERMINATED \<or> r \<noteq> Test_pcb 0"
  shows "kernel_inv (upd_pcb r f k)"
  using assms table_ok_upd [of k f r] by (auto simp: kernel_inv_def)

lemma kernel_inv_add [simp]: "kernel_inv (add_to_ready_queue p k) = kernel_inv k"
  if "table_ok k"
  using that by (simp add: kernel_inv_def kinv)

lemma kernel_inv_copy:
  assumes "kernel_inv k"
  shows "\<exists>p k'. process_create_copy L (Some c) k = Some (p, k') \<and> kernel_inv k' \<and>
    (\<forall>r. p = Some r \<longrightarrow> r \<noteq> Test_pcb 0)"
proof -
  obtain p k1 where p: "process_create_test L (Some (p_name (pcb k c))) (r_eip (p_cpu_state (pcb k c))) (p_priority (pcb k c)) k
      = Some (p, k1)" "kernel_inv k1" "\<And>r. p = Some r \<Longrightarrow> r \<noteq> Test_pcb 0"
    using kernel_inv_create_test [OF assms kernel_inv_terminated [OF assms]] by blast
  show ?thesis
  proof (cases p)
    case None
    then show ?thesis using p by (simp add: process_create_copy_def)
  next
    case (Some r)
    have u: "kernel_inv (upd_pcb r f k)" if "kernel_inv k" "\<And>p. p_pid (f p) = p_pid p" "\<And>p. p_name (f p) = p_name p"
      "\<And>p. p_file_descriptors (f p) = p_file_descriptors p" for f k
      using that p(3) [OF Some] by (intro kernel_inv_upd) simp_all
    show ?thesis
      using p(1,2) p(3) [OF Some] unfolding Some process_create_copy_def Let_def
      by (simp del: upd_pcb_fields) (intro u, simp_all)
  qed
qed

lemma kernel_inv_fork:
  assumes "kernel_inv k"
  shows "\<exists>v k'. sys_fork L k = Some (v, k') \<and> kernel_inv k'"
proof (cases "current_process k")
  case None
  then show ?thesis using assms by (simp add: sys_fork_def)
next
  case (Some c)
  obtain p k2 where p: "process_create_copy L (Some c) k = Some (p, k2)" "kernel_inv k2"
    "\<And>r. p = Some r \<Longrightarrow> r \<noteq> Test_pcb 0"
    using kernel_inv_copy [OF assms, of L c] by blast
  show ?thesis
  proof (cases p)
    case None
    then show ?thesis using Some p by (simp add: sys_fork_def)
  next
    case p': (Some r)
    let ?k3 = "upd_pcb r (\<lambda>p. p\<lparr>p_parent_pid := p_pid (pcb k2 c)\<rparr>) k2"
    have "kernel_inv ?k3" using p(2) p(3) [OF p'] by (intro kernel_inv_upd) simp_all
    then have "kernel_inv (add_to_ready_queue (Some r) ?k3)"
      using kernel_inv_add [of ?k3 "Some r"] by (simp add: kernel_inv_def)
    then show ?thesis using Some p(1) p' by (simp add: sys_fork_def Let_def)
  qed
qed

lemma kernel_inv_exec:
  assumes "kernel_inv k" and "terminated program"
  shows "\<exists>v k'. sys_exec L (Some program) k = Some (v, k') \<and> kernel_inv k'"
proof (cases "current_process k")
  case None
  then show ?thesis using assms(1) by (simp add: sys_exec_def)
next
  case (Some c)
  have t: "table_ok k" using assms(1) by (simp add: kernel_inv_def)
  note e = sys_exec_cases [OF Some assms(2) t, of L]
  show ?thesis
  proof (cases "program_of (cstr program)")
    case None
    then show ?thesis using e assms(1) by (auto simp: kernel_inv_same_core)
  next
    case f: (Some f)
    then obtain k' where k': "sys_exec L (Some program) k = Some (0, k')"
      "same_core k' (process_exit 0 (upd_pcb c (\<lambda>p. exec_name program (exec_registers (code_addr L f) p)) k))"
      using e by auto
    have "table_ok k'" using sys_exec_table [OF t, of "Some program" L] assms(2) k'(1) by auto
    then have "kernel_inv k'"
      using assms(1) Some by (auto simp: kernel_inv_def same_core_fields [OF k'(2)] process_exit_def exec_name_def)
    then show ?thesis using k'(1) by blast
  qed
qed

lemma schedule_alive:
  "p_state (pcb k r) \<noteq> PROCESS_TERMINATED \<Longrightarrow> p_state (pcb (fst (schedule k)) r) \<noteq> PROCESS_TERMINATED"
  by (auto simp: schedule_def preempt_current_def Let_def split: option.splits)

lemma kernel_inv_schedule: "kernel_inv k \<Longrightarrow> kernel_inv (fst (schedule k))"
  using schedule_alive table_ok_schedule by (simp add: kernel_inv_def)

lemma process_kill_counts: "process_kill_by_pid L pid k = Some (res, k') \<Longrightarrow> test_count k' = test_count k"
  by (auto simp: process_kill_by_pid_def Let_def free_region_fields split: if_splits option.splits)

lemma kernel_inv_kill:
  assumes "kernel_inv k" and "process_kill_by_pid L pid k = Some (res, k')"
  shows "kernel_inv k'"
  using assms table_ok_kill [of k L pid res k'] process_kill_frame [OF assms(2), of "Test_pcb 0"]
    process_kill_counts [OF assms(2)] by (simp add: kernel_inv_def)

lemma kernel_inv_set_status:
  "kernel_inv k \<Longrightarrow> s \<noteq> PROCESS_TERMINATED \<Longrightarrow> kernel_inv (snd (process_set_status pid s k))"
  by (auto simp: process_set_status_def intro!: kernel_inv_upd split: option.splits)

lemma kernel_inv_current: "kernel_inv k \<Longrightarrow> kernel_inv (k\<lparr>current_process := c\<rparr>)"
  by (simp add: kernel_inv_def kinv)

lemma kernel_inv_change_current:
  assumes "kernel_inv k"
  shows "\<exists>k'. change_current_process pid k = Some k' \<and> kernel_inv k'"
proof (cases "pid = 1 \<or> process_find_by_pid pid k = None")
  case True
  then show ?thesis using assms by (auto simp: change_current_process_def Let_def split: option.splits)
next
  case False
  then obtain r where r: "process_find_by_pid pid k = Some r" "pid \<noteq> 1" by auto
  let ?k = "upd_pcb r (\<lambda>p. p\<lparr>p_state := PROCESS_RUNNING\<rparr>) (k\<lparr>current_process := Some r\<rparr>)"
  have i: "kernel_inv ?k" using kernel_inv_current [OF assms] by (intro kernel_inv_upd) simp_all
  obtain k' where "kprint (p_name (pcb ?k r)) (kputs '' (Name: '' (kprint_hex pid (kputs ''Switched to process PID: '' ?k))) = Some k'"
    "kernel_inv k' = kernel_inv ?k"
    using kprint_total [OF kernel_inv_terminated [OF i, of r]] by (metis kernel_inv_output(1,2))
  then show ?thesis using r i by (auto simp: change_current_process_def Let_def)
qed

end
