(* ===== verification/Shell_Safety.thy ===== *)
theory Shell_Safety
  imports Shell_Props
begin

text \<open>
  Whole command lines of the shell: each command returns and keeps the invariant of the running
  kernel, a line is run by the command its text selects, and the cases in which a command does not do
  what its message says.
\<close>

section \<open>Whole command lines\<close>

definition fits_buffers :: "u8 list \<Rightarrow> bool" where
  "fits_buffers line \<longleftrightarrow> (\<forall>t \<in> set (take 3 (tokens line)). length t < 64)"

lemma parse_command_cases:
  assumes "terminated command"
  shows "if fits_buffers (cstr command)
    then \<exists>c a1 a2. parse_command command = Some (min 3 (length (tokens (cstr command))), c, a1, a2) \<and>
           terminated a1 \<and> terminated a2 \<and> cstr a1 = arg_at (tokens (cstr command)) 1 \<and>
           cstr a2 = arg_at (tokens (cstr command)) 2
    else parse_command command = None"
  using parse_arguments_tokens [OF assms refl, of "replicate 64 0" 64 "replicate 64 0" "replicate 64 0"]
  by (auto simp: fits_buffers_def parse_command_def split: if_splits)

lemma parse_pid_total: "terminated s \<Longrightarrow> \<exists>p r. parse_pid s n = Some (p, r) \<and> r \<noteq> []"
  by (induction s n rule: parse_pid.induct) auto

definition status_of :: "u8 list \<Rightarrow> process_state option" where
  "status_of text =
     (if text = c_chars ''READY'' then Some PROCESS_READY
      else if text = c_chars ''PAUSED'' \<or> text = c_chars ''WAITING'' then Some PROCESS_BLOCKED else None)"

lemma status_of_alive: "status_of text \<noteq> Some PROCESS_TERMINATED"
  by (simp add: status_of_def)

lemma parse_status_terminated: "terminated a \<Longrightarrow> parse_status a = Some (status_of (cstr a))"
  by (simp add: parse_status_def status_of_def string_compare_terminated del: c_chars_simps)

definition flow_state :: "kstate + kstate \<Rightarrow> kstate" where
  "flow_state r = (case r of Inl k \<Rightarrow> k | Inr k \<Rightarrow> k)"

lemma flow_state_simps [simp]: "flow_state (Inl k) = k" "flow_state (Inr k) = k"
  by (simp_all add: flow_state_def)

lemma cmd_spawn_ok:
  assumes "kernel_inv k" and "terminated command" and "fits_buffers (cstr command)"
  shows "\<exists>r. cmd_spawn L command k = Some r \<and> kernel_inv (flow_state r)"
proof -
  obtain n c a1 a2 where p: "parse_command command = Some (n, c, a1, a2)" "terminated a1"
    using parse_command_cases [OF assms(2)] assms(3) by auto
  obtain k1 where k1: "kprint a1 (kputs (''Creating process '' @ [CHR 0x27]) (green k)) = Some k1" "kernel_inv k1"
    using kprint_total [OF p(2), of "kputs (''Creating process '' @ [CHR 0x27]) (green k)"] assms(1)
    by (auto simp only: kernel_inv_output)
  have "kernel_inv (white (kputs ([CHR 0x27] @ ''...\<newline>'') k1))" using k1(2) by (simp only: kernel_inv_output)
  then obtain q k2 where k2: "process_create_test L (Some a1) (code_addr L Demo_counter_process) PRIORITY_NORMAL
      (white (kputs ([CHR 0x27] @ ''...\<newline>'') k1)) = Some (q, k2)" "kernel_inv k2"
    using kernel_inv_create_test [OF _ p(2)] by blast
  show ?thesis
  proof (cases "n < 2")
    case True
    then show ?thesis using p(1) assms(1) by (simp add: cmd_spawn_def)
  next
    case False
    then show ?thesis
      using p(1) k1(1) k2 by (cases q) (simp_all only: cmd_spawn_def Let_def bind.bind_lunit prod.case if_False,
        simp_all)
  qed
qed

lemma cmd_pstatus_ok:
  assumes "kernel_inv k" and "terminated command" and "fits_buffers (cstr command)"
  shows "\<exists>r. cmd_pstatus command k = Some r \<and> kernel_inv (flow_state r)"
proof -
  obtain n c a1 a2 where p: "parse_command command = Some (n, c, a1, a2)" "terminated a1" "terminated a2"
    using parse_command_cases [OF assms(2)] assms(3) by auto
  obtain pid rest where pid: "parse_pid a1 0 = Some (pid, rest)"
    using parse_pid_total [OF p(2)] by blast
  obtain s where s: "parse_status a2 = Some s" "s \<noteq> Some PROCESS_TERMINATED"
    using parse_status_terminated [OF p(3)] status_of_alive by blast
  obtain k1 where k1: "kprint a1 (kputs ''Setting process PID '' (cyan k)) = Some k1" "kernel_inv k1"
    using kprint_total [OF p(2), of "kputs ''Setting process PID '' (cyan k)"] assms(1)
    by (auto simp only: kernel_inv_output)
  obtain k2 where k2: "kprint a2 (kputs '' to '' k1) = Some k2" "kernel_inv k2"
    using kprint_total [OF p(3), of "kputs '' to '' k1"] k1(2) by (auto simp only: kernel_inv_output)
  show ?thesis
  proof (cases s)
    case None
    then show ?thesis using p pid s assms(1) by (simp add: cmd_pstatus_def)
  next
    case (Some st)
    have "kernel_inv (snd (process_set_status pid st (white (kputs ''...\<newline>'' k2))))"
      using k2(2) s(2) Some by (intro kernel_inv_set_status) simp_all
    then show ?thesis using p pid s k1(1) k2(1) Some assms(1)
      by (simp add: cmd_pstatus_def Let_def split_beta)
  qed
qed

lemma cmd_pkill_inv:
  assumes "kernel_inv k" and "cmd_pkill L command k = Some r"
  shows "kernel_inv (flow_state r)"
proof -
  obtain n c a1 a2 where p: "parse_command command = Some (n, c, a1, a2)"
    using assms(2) by (cases "parse_command command") (auto simp: cmd_pkill_def)
  show ?thesis
  proof (cases "n < 2")
    case True
    then show ?thesis using p assms by (auto simp: cmd_pkill_def)
  next
    case False
    then obtain pid rest where pid: "parse_pid a1 0 = Some (pid, rest)"
      using p assms(2) by (cases "parse_pid a1 0") (auto simp: cmd_pkill_def)
    show ?thesis
    proof (cases "pid = 0 \<or> hd rest \<noteq> 0")
      case True
      then show ?thesis using p pid False assms by (auto simp: cmd_pkill_def)
    next
      case valid: False
      let ?k = "kputs ''Killing process PID '' (brown k)"
      obtain k1 where k1: "kprint a1 ?k = Some k1"
        using p pid False valid assms(2) by (cases "kprint a1 ?k") (simp_all add: cmd_pkill_def Let_def)
      let ?k1 = "white (kputs ''...\<newline>'' k1)"
      obtain res k2 where k2: "process_kill_by_pid L pid ?k1 = Some (res, k2)"
        using p pid False valid k1 assms(2)
        by (cases "process_kill_by_pid L pid ?k1") (auto simp add: cmd_pkill_def Let_def)
      have "kernel_inv k2"
        using kernel_inv_kill [OF _ k2] kprint_inv [OF k1] assms(1) by simp
      then show ?thesis
        using p pid False valid k1 k2 assms(2) by (auto simp add: cmd_pkill_def Let_def)
    qed
  qed
qed

lemma cmd_fork_ok: "kernel_inv k \<Longrightarrow> \<exists>k'. cmd_fork L k = Some k' \<and> kernel_inv k'"
proof -
  assume "kernel_inv k"
  then obtain v k' where "sys_fork L (white (kputs ''Forking current process...\<newline>'' (green k))) = Some (v, k')"
    "kernel_inv k'"
    using kernel_inv_fork [of "white (kputs ''Forking current process...\<newline>'' (green k))" L] by auto
  then show ?thesis by (simp add: cmd_fork_def Let_def)
qed

lemma cmd_ps_ok:
  assumes "kernel_inv k"
  shows "\<exists>k'. cmd_ps k = Some k' \<and> kernel_inv k'"
proof -
  let ?k = "white (kputs ''Process List:\<newline>'' (cyan k))"
  have i: "kernel_inv ?k" using assms by simp
  then obtain k' where "process_list_all ?k = Some k'" "same_core k' ?k"
    using process_list_all_ok [of ?k] by (auto simp: kernel_inv_def)
  then show ?thesis using i by (auto simp: cmd_ps_def Let_def kernel_inv_same_core)
qed

lemma cmd_proc_ok:
  assumes "kernel_inv k"
  shows "\<exists>k'. cmd_proc k = Some k' \<and> kernel_inv k'"
proof (cases "current_process k")
  case None
  then show ?thesis using assms by (simp add: cmd_proc_def Let_def)
next
  case (Some c)
  define k1 where "k1 = white (kputs ''Current Process Information:\<newline>'' (cyan k))"
  have k1: "kernel_inv k1" "current_process k1 = Some c" "pcb k1 = pcb k" using assms Some by (simp_all add: k1_def)
  define k2 where "k2 = kputs ''\<newline>  Name: '' (kprint_hex (p_pid (pcb k1 c)) (kputs ''  PID: '' k1))"
  obtain k3 where k3: "kprint (p_name (pcb k1 c)) k2 = Some k3" "kernel_inv k3"
    using kprint_total [OF kernel_inv_terminated [OF k1(1), of c], of k2] k1(1) by (auto simp: k2_def)
  have "cmd_proc k = Some (kputs ''\<newline>'' (kputs (priority_text (p_priority (pcb k1 c))) (kputs ''\<newline>  Priority: ''
      (kputs (state_text (p_state (pcb k1 c))) (kputs ''\<newline>  State: '' k3)))))"
    using k3(1) Some unfolding k2_def by (simp add: cmd_proc_def Let_def k1_def)
  then show ?thesis using k3(2) by simp
qed

lemma cmd_unknown_ok:
  assumes "kernel_inv k" and "terminated command"
  shows "\<exists>k'. cmd_unknown command k = Some k' \<and> kernel_inv k'"
  using kprint_total [OF assms(2), of "kputs ''Unknown command: '' (red k)"] assms(1)
  by (auto simp: cmd_unknown_def Let_def)

lemma terminated_drop: "terminated s \<Longrightarrow> n \<le> length (cstr s) \<Longrightarrow> terminated (drop n s) \<and> cstr (drop n s) = drop n (cstr s)"
proof (induction n arbitrary: s)
  case (Suc n)
  then show ?case by (cases s) (auto split: if_splits)
qed simp

lemma has_prefix_length: "has_prefix w l \<Longrightarrow> length w \<le> length l"
  by (auto simp: has_prefix_def c_chars_def dest!: arg_cong [where f = length])

lemma cmd_exec_ok:
  assumes "kernel_inv k" and "terminated command" and "has_prefix ''exec '' (cstr command)"
  shows "\<exists>k'. cmd_exec L command k = Some k' \<and> kernel_inv k'"
proof -
  have d: "terminated (drop 5 command)"
    using terminated_drop [OF assms(2), of 5] has_prefix_length [OF assms(3)] by simp
  obtain k1 where k1: "kprint (drop 5 command) (kputs ''Executing program: '' (green k)) = Some k1" "kernel_inv k1"
    using kprint_total [OF d, of "kputs ''Executing program: '' (green k)"] assms(1)
    by (auto simp only: kernel_inv_output)
  have "kernel_inv (white (kputs ''\<newline>'' k1))" using k1(2) by (simp only: kernel_inv_output)
  then obtain v k2 where "sys_exec L (Some (drop 5 command)) (white (kputs ''\<newline>'' k1)) = Some (v, k2)" "kernel_inv k2"
    using kernel_inv_exec [OF _ d] by blast
  then show ?thesis using k1 by (simp add: cmd_exec_def Let_def)
qed

lemma cmd_pch_ok:
  assumes "kernel_inv k" and "terminated command" and "has_prefix ''pch '' (cstr command)"
  shows "\<exists>r. cmd_pch command k = Some r \<and> kernel_inv (flow_state r)"
proof (cases "command ! 4 = 1")
  case True
  then show ?thesis using assms(1) by (simp add: cmd_pch_def)
next
  case False
  have d: "terminated (drop 4 command)"
    using terminated_drop [OF assms(2), of 4] has_prefix_length [OF assms(3)] by simp
  obtain ok out where "string_to_uint32 (Some (drop 4 command)) True = Some (ok, out)"
    using string_to_uint32_terminated [OF d] by (auto split: if_splits)
  moreover obtain k' where "change_current_process (case out of Some pid \<Rightarrow> pid | None \<Rightarrow> 0) k = Some k'" "kernel_inv k'"
    using kernel_inv_change_current [OF assms(1)] by blast
  ultimately show ?thesis using False assms(1) by (cases ok) (auto simp: cmd_pch_def)
qed

section \<open>The machine\<close>

definition machine_inv :: "machine \<Rightarrow> bool" where
  "machine_inv m \<longleftrightarrow> kernel_inv (kern m) \<and> kb_ok (keyb m)"

lemma upd_kern_fields [simp]:
  "kern (upd_kern f m) = f (kern m)" "idt (upd_kern f m) = idt m" "keyb (upd_kern f m) = keyb m"
  "key_input (upd_kern f m) = key_input m" "serial_status (upd_kern f m) = serial_status m"
  "serial_out (upd_kern f m) = serial_out m"
  by (simp_all add: upd_kern_def)

lemma machine_inv_simps [simp]:
  "machine_inv (m\<lparr>kern := k\<rparr>) = (kernel_inv k \<and> kb_ok (keyb m))"
  "machine_inv (upd_kern f m) = (kernel_inv (f (kern m)) \<and> kb_ok (keyb m))"
  "machine_inv (m\<lparr>key_input := i\<rparr>) = machine_inv m"
  by (simp_all add: machine_inv_def upd_kern_def)

lemma kernel_inv_print [simp]:
  "kernel_inv (cmd_help k) = kernel_inv k" "kernel_inv (cmd_about k) = kernel_inv k"
  "kernel_inv (cmd_status k) = kernel_inv k" "kernel_inv (cmd_memory k) = kernel_inv k"
  "kernel_inv (cmd_clear k) = kernel_inv k" "kernel_inv (cmd_version k) = kernel_inv k"
  "kernel_inv (cmd_sysinfo k) = kernel_inv k" "kernel_inv (cmd_getpid k) = kernel_inv k"
  "kernel_inv (after_schedule k) = kernel_inv k"
  by (rule kernel_inv_same_core, rule same_core_printing)+

lemma kernel_inv_vga [simp]: "kernel_inv (k\<lparr>vga := v\<rparr>) = kernel_inv k"
  by (rule kernel_inv_same_core) (simp add: same_core_def)

lemma kernel_inv_kputs_all [simp]: "kernel_inv (kputs_all ls k) = kernel_inv k"
  by (rule kernel_inv_same_core) simp

lemma read_line_ok:
  assumes "machine_inv m" and "read_line m = Some m'"
  shows "machine_inv m'" and "terminated (input_buffer (keyb m'))"
    and "cstr (input_buffer (keyb m')) = line_text (keyb m')"
proof -
  obtain kb v rest where r: "keyboard_get_input (key_input m) (keyb m, vga (kern m)) = Some ((kb, v), rest)"
    "m' = m\<lparr>kern := (kern m)\<lparr>vga := v\<rparr>, keyb := kb, key_input := rest\<rparr>"
    using assms(2) unfolding read_line_def
    by (cases "keyboard_get_input (key_input m) (keyb m, vga (kern m))") auto
  then have "entered kb" using keyboard_get_input_ok assms(1) by (fastforce simp: machine_inv_def)
  then show "machine_inv m'" "terminated (input_buffer (keyb m'))"
    "cstr (input_buffer (keyb m')) = line_text (keyb m')"
    using assms(1) r(2) by (simp_all add: machine_inv_def entered_def)
qed

lemma kernel_inv_kput_dec2 [simp]: "kernel_inv (kput_dec2 n k) = kernel_inv k"
  by (rule kernel_inv_same_core) simp

lemma keytest_report_ok:
  assumes "terminated line" and "kernel_inv k"
  shows "\<exists>k'. keytest_report line k = Some k' \<and> kernel_inv k'"
  using kprint_total [OF assms(1), of "brown (kputs (''You typed: '' @ [CHR 0x27]) k)"] assms
  by (auto simp: keytest_report_def Let_def string_length_terminated)

lemma keytest_loop_inv: "keytest_loop m = Some m' \<Longrightarrow> machine_inv m \<Longrightarrow> machine_inv m'"
proof (induction m rule: keytest_loop.induct)
  case (1 m)
  let ?m = "upd_kern (\<lambda>k. white (kputs ''KeyTest> '' (green k))) m"
  obtain m1 where m1: "read_line ?m = Some m1"
    using 1(2) by (cases "read_line ?m") (simp_all add: keytest_loop.simps [of m])
  have "machine_inv ?m" using 1(3) by (simp add: machine_inv_def)
  note inv = read_line_ok [OF this m1]
  obtain e where e: "string_compare (input_buffer (keyb m1)) (c_literal ''exit'') = Some e"
    using inv(2) by (simp add: string_compare_terminated)
  show ?case
  proof (cases e)
    case True
    then have "m' = upd_kern (kputs ''Keyboard test completed!\<newline>'') m1"
      using 1(2) m1 e by (simp add: keytest_loop.simps [of m])
    then show ?thesis using inv(1) by (simp add: machine_inv_def)
  next
    case False
    obtain k where k: "keytest_report (input_buffer (keyb m1)) (kern m1) = Some k" "kernel_inv k"
      using keytest_report_ok [OF inv(2)] inv(1) by (auto simp: machine_inv_def)
    have "keytest_loop (m1\<lparr>kern := k\<rparr>) = Some m'"
      using 1(2) m1 e k(1) False by (simp add: keytest_loop.simps [of m])
    then show ?thesis
      using 1(1) [OF m1 e False k(1)] inv(1) k(2) by (simp add: machine_inv_def)
  qed
qed

lemma cmd_keytest_inv:
  assumes "machine_inv m" and "cmd_keytest m = Some m'"
  shows "machine_inv m'"
  using assms(2) unfolding cmd_keytest_def
  by (rule keytest_loop_inv) (use assms(1) in \<open>simp add: machine_inv_def\<close>)

lemma finish_inv [simp]:
  "machine_inv (fst (finish m k)) = (kernel_inv k \<and> kb_ok (keyb m))"
  "machine_inv (fst (finish_flow m r)) = (kernel_inv (flow_state r) \<and> kb_ok (keyb m))"
  by (simp add: finish_def) (simp add: finish_flow_def finish_def split: sum.splits)

lemma cmd_schedule_inv: "machine_inv m \<Longrightarrow> kernel_inv k \<Longrightarrow> machine_inv (fst (cmd_schedule m k))"
proof -
  assume m: "machine_inv m" "kernel_inv k"
  let ?k = "white (kputs ''Triggering manual scheduler...\<newline>'' (cyan k))"
  have "kernel_inv (fst (schedule ?k))" using m by (intro kernel_inv_schedule) simp
  then show ?thesis
    using m by (cases "schedule ?k") (simp add: cmd_schedule_def Let_def machine_inv_def split: switch_call.splits)
qed

text \<open>The commands that may not return, and those that need room for their arguments.\<close>

definition returns_always :: "u8 list \<Rightarrow> bool" where
  "returns_always line \<longleftrightarrow>
     selected line \<noteq> Keytest \<and> selected line \<noteq> Pkill \<and>
     (selected line = Spawn \<or> selected line = Pstatus \<longrightarrow> fits_buffers line)"

lemma process_command_selected:
  "terminated command \<Longrightarrow> process_command L command m =
     (case selected (cstr command) of
        Help \<Rightarrow> Some (finish m (cmd_help (white (kern m))))
      | About \<Rightarrow> Some (finish m (cmd_about (white (kern m))))
      | Status \<Rightarrow> Some (finish m (cmd_status (white (kern m))))
      | Memory_info \<Rightarrow> Some (finish m (cmd_memory (white (kern m))))
      | Clear \<Rightarrow> Some (finish m (cmd_clear (white (kern m))))
      | Version \<Rightarrow> Some (finish m (cmd_version (white (kern m))))
      | Keytest \<Rightarrow> map_option (\<lambda>m. finish m (kern m)) (cmd_keytest (m\<lparr>kern := white (kern m)\<rparr>))
      | Ps \<Rightarrow> map_option (finish m) (cmd_ps (white (kern m)))
      | Proc \<Rightarrow> map_option (finish m) (cmd_proc (white (kern m)))
      | Spawn \<Rightarrow> map_option (finish_flow m) (cmd_spawn L command (white (kern m)))
      | Pkill \<Rightarrow> map_option (finish_flow m) (cmd_pkill L command (white (kern m)))
      | Pstatus \<Rightarrow> map_option (finish_flow m) (cmd_pstatus command (white (kern m)))
      | Fork \<Rightarrow> map_option (finish m) (cmd_fork L (white (kern m)))
      | Exec \<Rightarrow> map_option (finish m) (cmd_exec L command (white (kern m)))
      | Getpid \<Rightarrow> Some (finish m (cmd_getpid (white (kern m))))
      | Schedule \<Rightarrow> Some (cmd_schedule m (white (kern m)))
      | Sysinfo \<Rightarrow> Some (finish m (cmd_sysinfo (white (kern m))))
      | Pch \<Rightarrow> map_option (finish_flow m) (cmd_pch command (white (kern m)))
      | Unknown \<Rightarrow> map_option (finish m) (cmd_unknown command (white (kern m))))"
  by (simp only: process_command_def first_match_terminated Let_def bind.bind_lunit)

lemma selected_prefix:
  "selected line = Exec \<Longrightarrow> has_prefix ''exec '' line"
  "selected line = Pch \<Longrightarrow> has_prefix ''pch '' line"
  by (auto simp: selected_def exact_commands_def more_commands_def split: if_splits simp del: c_chars_simps)

lemma process_command_returns:
  assumes "machine_inv m" and "terminated command" and "returns_always (cstr command)"
  shows "\<exists>m' call. process_command L command m = Some (m', call) \<and> machine_inv m'"
proof -
  have k: "kernel_inv (white (kern m))" "kb_ok (keyb m)" using assms(1) by (simp_all add: machine_inv_def)
  have ret: ?thesis if "process_command L command m = Some r" "machine_inv (fst r)" for r
    using that by (cases r) auto
  have flow: ?thesis if r: "process_command L command m = map_option (finish_flow m) x"
    and e: "\<exists>r. x = Some r \<and> kernel_inv (flow_state r)" for x
  proof -
    obtain r where "x = Some r" "kernel_inv (flow_state r)" using e by blast
    then show ?thesis using ret [of "finish_flow m r"] r k(2) by simp
  qed
  have plain: ?thesis if r: "process_command L command m = map_option (finish m) x"
    and e: "\<exists>k'. x = Some k' \<and> kernel_inv k'" for x
  proof -
    obtain k' where "x = Some k'" "kernel_inv k'" using e by blast
    then show ?thesis using ret [of "finish m k'"] r k(2) by simp
  qed
  note sel = process_command_selected [OF assms(2), of L m]
  note fits = assms(3) [unfolded returns_always_def]
  show ?thesis
  proof (cases "selected (cstr command)")
    case Ps
    then show ?thesis using plain [OF _ cmd_ps_ok [OF k(1)]] sel by simp
  next
    case Proc
    then show ?thesis using plain [OF _ cmd_proc_ok [OF k(1)]] sel by simp
  next
    case Spawn
    then show ?thesis using flow [OF _ cmd_spawn_ok [OF k(1) assms(2)]] sel fits by simp
  next
    case Pstatus
    then show ?thesis using flow [OF _ cmd_pstatus_ok [OF k(1) assms(2)]] sel fits by simp
  next
    case Fork
    then show ?thesis using plain [OF _ cmd_fork_ok [OF k(1)]] sel by simp
  next
    case Exec
    then show ?thesis using plain [OF _ cmd_exec_ok [OF k(1) assms(2)]] sel selected_prefix(1) by simp
  next
    case Pch
    then show ?thesis using flow [OF _ cmd_pch_ok [OF k(1) assms(2)]] sel selected_prefix(2) by simp
  next
    case Unknown
    then show ?thesis using plain [OF _ cmd_unknown_ok [OF k(1) assms(2)]] sel by simp
  next
    case Schedule
    then show ?thesis using ret [OF _ cmd_schedule_inv [OF assms(1) k(1)]] sel by simp
  qed (use ret sel k fits in \<open>simp_all del: split_paired_Ex\<close>)
qed

lemma process_command_inv:
  assumes "machine_inv m" and "terminated command" and "process_command L command m = Some (m', call)"
  shows "machine_inv m'"
proof -
  have k: "kernel_inv (white (kern m))" "kb_ok (keyb m)" using assms(1) by (simp_all add: machine_inv_def)
  show ?thesis
  proof (cases "selected (cstr command) = Spawn \<or> selected (cstr command) = Pstatus")
    case True
    then have "fits_buffers (cstr command)"
      using assms(2,3) parse_command_cases [OF assms(2)] process_command_selected [OF assms(2), of L m]
      by (auto simp: cmd_spawn_def cmd_pstatus_def split: if_splits)
    then show ?thesis
      using True process_command_returns [OF assms(1,2), of L] assms(3) by (auto simp: returns_always_def)
  next
    case no_args: False
    show ?thesis
    proof (cases "returns_always (cstr command)")
      case True
      then show ?thesis using process_command_returns [OF assms(1,2), of L] assms(3) by auto
    next
      case False
      then consider "selected (cstr command) = Keytest" | "selected (cstr command) = Pkill"
        using no_args by (auto simp: returns_always_def)
      then show ?thesis
      proof cases
        case 1
        then obtain m1 where m1: "cmd_keytest (m\<lparr>kern := white (kern m)\<rparr>) = Some m1" "m' = fst (finish m1 (kern m1))"
          using assms(3) process_command_selected [OF assms(2), of L m] by auto
        have "machine_inv m1"
          by (rule cmd_keytest_inv [OF _ m1(1)]) (use k in \<open>simp add: machine_inv_def\<close>)
        then show ?thesis using m1(2) by (simp add: machine_inv_def [of m1])
      next
        case 2
        then obtain r where "cmd_pkill L command (white (kern m)) = Some r" "m' = fst (finish_flow m r)"
          using assms(3) process_command_selected [OF assms(2), of L m] by auto
        then show ?thesis using cmd_pkill_inv [OF k(1)] k(2) by simp
      qed
    qed
  qed
qed

section \<open>The kernel at boot\<close>

lemma kernel_inv_enable:
  assumes "table_ok k" and "kernel_process k = None" and "test_count k = 0"
  shows "\<exists>k'. enable_process_execution L k = Some k' \<and> kernel_inv k' \<and>
    current_process k' = Some (Test_pcb 0) \<and> p_state (pcb k' (Test_pcb 0)) = PROCESS_RUNNING \<and>
    cstr (p_name (pcb k' (Test_pcb 0))) = c_chars ''kernel_idle'' \<and>
    r_eip (p_cpu_state (pcb k' (Test_pcb 0))) = code_addr L Process_idle_task \<and>
    ready_queue_head k' = ready_queue_head k \<and> ready_queue_tail k' = ready_queue_tail k \<and>
    test_count k' = 1"
proof -
  let ?k = "kputs ''Enabling real process execution with context switching!\<newline>'' k"
  have t: "table_ok ?k" using assms(1) by (simp add: kinv)
  obtain k1 where k1: "process_create_test L (Some (c_literal ''kernel_idle'')) (code_addr L Process_idle_task) PRIORITY_LOW ?k =
      Some (Some (Test_pcb 0), k1)"
    "same_core k1 (test_created L (c_literal ''kernel_idle'') (code_addr L Process_idle_task) PRIORITY_LOW ?k)"
    using process_create_test_creates [of ?k "c_literal ''kernel_idle''" L "code_addr L Process_idle_task" PRIORITY_LOW]
      arrays_okD(1) [OF table_okD(4) [OF t]] assms(3) by auto
  define k2 where "k2 = (upd_pcb (Test_pcb 0) (\<lambda>p. p\<lparr>p_state := PROCESS_RUNNING\<rparr>)
      (k1\<lparr>kernel_process := Some (Test_pcb 0)\<rparr>))\<lparr>current_process := Some (Test_pcb 0)\<rparr>"
  have "table_ok (test_created L (c_literal ''kernel_idle'') (code_addr L Process_idle_task) PRIORITY_LOW ?k)"
    using table_ok_test_created [OF t] assms(3) by simp
  then have "table_ok k2"
    using table_ok_same_core [OF k1(2)] by (simp add: k2_def kinv)
  moreover have "enable_process_execution L k =
      Some (kputs ''Process execution enabled - ready for multitasking!\<newline>'' k2)"
    using k1(1) assms(2) by (simp add: enable_process_execution_def Let_def k2_def)
  ultimately show ?thesis
    using assms(3) by (simp add: kernel_inv_def k2_def same_core_fields [OF k1(2)] stored_name_def kinv
        test_created_def Let_def cstr_append_zero [OF zero_notin_stored [of "c_literal ''kernel_idle''", unfolded stored_name_def]])
qed

definition idle_kernel :: kstate where
  "idle_kernel = the (enable_process_execution sample_layout zero_kstate)"

lemma idle_kernel_inv:
  "kernel_inv idle_kernel" "current_process idle_kernel = Some (Test_pcb 0)" "test_count idle_kernel = 1"
  "ready_queue_head idle_kernel = None"
proof -
  have z: "kernel_process zero_kstate = None" "test_count zero_kstate = 0" "ready_queue_head zero_kstate = None"
    by (simp_all add: zero_kstate_def)
  obtain k where k: "enable_process_execution sample_layout zero_kstate = Some k" "kernel_inv k"
    "current_process k = Some (Test_pcb 0)" "test_count k = 1" "ready_queue_head k = None"
    using kernel_inv_enable [OF zero_kstate_table z(1,2), of sample_layout] z(3) by auto
  then show "kernel_inv idle_kernel" "current_process idle_kernel = Some (Test_pcb 0)" "test_count idle_kernel = 1"
    "ready_queue_head idle_kernel = None"
    by (simp_all add: idle_kernel_def)
qed

definition idle_machine :: machine where
  "idle_machine = \<lparr>kern = idle_kernel,
     idt = \<lparr>idt_entries = (\<lambda>_. \<lparr>base_low = 0, sel = 0, always0 = 0, flags = 0, base_high = 0\<rparr>),
       idt_p_limit = 0, idt_p_base = 0, idt_flushed = None, port_writes = []\<rparr>,
     keyb = boot_keyboard, key_input = [], serial_status = replicate 64 0x20, serial_out = []\<rparr>"

lemma idle_machine_inv: "machine_inv idle_machine"
  by (simp add: machine_inv_def idle_machine_def idle_kernel_inv boot_keyboard_ok)

section \<open>What the process commands do\<close>

lemma parse_pid_foldl:
  "terminated s \<Longrightarrow> \<exists>rest. parse_pid s (of_nat v) =
     Some (of_nat (foldl (\<lambda>v c. v * 10 + (unat c - 48)) v (takeWhile is_digit (cstr s))), rest) \<and>
     (hd rest = 0 \<longleftrightarrow> list_all is_digit (cstr s))"
proof (induction s arbitrary: v)
  case (Cons c s)
  have test: "(sint c \<ge> sint (chr8 CHR ''0'') \<and> sint c \<le> sint (chr8 CHR ''9'')) = is_digit c"
    using signed_digit_test [of c] by (simp only: not_less de_Morgan_disj)
  show ?case
  proof (cases "is_digit c")
    case True
    then have "(of_nat v * 10 + (ucast c - ucast (chr8 CHR ''0'')) :: u32) = of_nat (v * 10 + (unat c - 48))"
      by (simp only: digit_value of_nat_add of_nat_mult of_nat_numeral)
    then have "parse_pid (c # s) (of_nat v) = parse_pid s (of_nat (v * 10 + (unat c - 48)))"
      using True by (simp only: parse_pid.simps test if_True)
    moreover have "cstr (c # s) = c # cstr s" "terminated s"
      using Cons.prems digit_not_zero [OF True] by simp_all
    ultimately show ?thesis
      using Cons.IH [of "v * 10 + (unat c - 48)"] True
      by (simp del: parse_pid.simps of_nat_add of_nat_mult)
  next
    case False
    then have "parse_pid (c # s) (of_nat v) = Some (of_nat v, c # s)"
      by (simp only: parse_pid.simps test if_False)
    then show ?thesis using False by simp
  qed
qed simp

lemma parse_pid_terminated:
  assumes "terminated s"
  obtains rest where "parse_pid s 0 = Some (of_nat (dec_value (takeWhile is_digit (cstr s))), rest)"
    "hd rest = 0 \<longleftrightarrow> list_all is_digit (cstr s)"
  using parse_pid_foldl [OF assms, of 0] by (auto simp: dec_value_def)

text \<open>
  The chain of tests in \<open>process_command\<close> runs the command the text of the line selects, and
  reads no byte after its terminator.
\<close>

theorem shell_selects_command:
  assumes "terminated command"
  shows "first_match command_tests command = Some (selected (cstr command))"
  by (rule first_match_terminated [OF assms])

theorem shell_selects_command_witness:
  "first_match command_tests (c_literal ''spawn worker'') = Some Spawn"
proof -
  have "selected (c_chars ''spawn worker'') = Spawn"
    by (simp add: selected_def exact_commands_def is_word_def is_space_def)
  then show ?thesis using shell_selects_command [OF terminated_c_literal, of "''spawn worker''"] by simp
qed

text \<open>Only \<open>schedule\<close> can leave a switch pending; every other command line ends without one.\<close>

lemma process_command_call:
  assumes "terminated command" and "process_command L command m = Some (m', call)"
  shows "call = (if selected (cstr command) = Schedule then snd (schedule (kern m)) else No_switch)"
proof -
  have "snd (cmd_schedule m (white (kern m))) = snd (schedule (kern m))"
    by (cases "schedule (white (kputs ''Triggering manual scheduler...\<newline>'' (cyan (white (kern m)))))")
      (use schedule_call [of "white (kputs ''Triggering manual scheduler...\<newline>'' (cyan (white (kern m))))"] in
        \<open>auto simp: cmd_schedule_def Let_def schedule_call [of "kern m"] split: switch_call.splits option.splits\<close>)
  moreover have "snd (finish m k) = No_switch" "snd (finish_flow m r) = No_switch" for m k r
    by (simp_all add: finish_flow_def finish_def split: sum.split)
  ultimately show ?thesis
    using assms(2) process_command_selected [OF assms(1), of L m]
    by (cases "selected (cstr command)") (auto dest: arg_cong [where f = snd])
qed

text \<open>
  C6. What becomes of every command line but those of \<open>keytest\<close>, a loop of its own, and \<open>pkill\<close>, which
  frees memory. A \<open>spawn\<close> or \<open>pstatus\<close> line with a word too long for its 64 byte buffer writes past it.
  Every other line runs through, leaves a well formed process table in which the kernel process is alive as
  PID 1, and returns without a switch, except that \<open>schedule\<close> leaves the switch its call of the scheduler asks for,
  if any, and returns only when it asks for none.
\<close>

theorem shell_command_returns:
  assumes "machine_inv m" and "terminated command" and "selected (cstr command) \<notin> {Keytest, Pkill}"
  shows "if selected (cstr command) \<in> {Spawn, Pstatus} \<and> \<not> fits_buffers (cstr command)
    then process_command L command m = None
    else \<exists>m' call. process_command L command m = Some (m', call) \<and> machine_inv m' \<and>
      call = (if selected (cstr command) = Schedule then snd (schedule (kern m)) else No_switch)"
proof (cases "selected (cstr command) \<in> {Spawn, Pstatus} \<and> \<not> fits_buffers (cstr command)")
  case True
  then have "parse_command command = None" using parse_command_cases [OF assms(2)] by simp
  then show ?thesis
    using True process_command_selected [OF assms(2), of L m] by (auto simp: cmd_spawn_def cmd_pstatus_def)
next
  case False
  then have "returns_always (cstr command)" using assms(3) by (auto simp: returns_always_def)
  then show ?thesis
    using False process_command_returns [OF assms(1,2), of L] process_command_call [OF assms(2), of L m] by auto
qed

theorem shell_command_returns_witness:
  "\<exists>m' call. process_command sample_layout (c_literal ''ps'') idle_machine = Some (m', call) \<and> machine_inv m' \<and> call = No_switch"
proof -
  have "selected (cstr (c_literal ''ps'')) = Ps" by (simp add: selected_def exact_commands_def)
  then show ?thesis using shell_command_returns [OF idle_machine_inv terminated_c_literal, of "''ps''" sample_layout] by simp
qed

text \<open>
  No command line damages the kernel: whatever a terminated line makes \<open>process_command\<close> do, \<open>pkill\<close>
  of any PID and a whole \<open>keytest\<close> session included, the process table stays well formed, the kernel
  process stays in it and alive, and the line editor stays within its buffer.
\<close>

theorem shell_keeps_kernel:
  assumes "machine_inv m" and "terminated command" and "process_command L command m = Some (m', call)"
  shows "machine_inv m'"
  by (rule process_command_inv [OF assms])

theorem shell_keeps_kernel_witness:
  "\<exists>m' call. process_command sample_layout (c_literal ''help'') idle_machine = Some (m', call) \<and> machine_inv m'"
proof -
  have "selected (c_chars ''help'') = Help" by (simp add: selected_def exact_commands_def)
  then obtain m' call where r: "process_command sample_layout (c_literal ''help'') idle_machine = Some (m', call)"
    using process_command_selected [OF terminated_c_literal, of sample_layout "''help''" idle_machine]
    by (cases "finish idle_machine (cmd_help (white (kern idle_machine)))") simp
  then show ?thesis using shell_keeps_kernel [OF idle_machine_inv terminated_c_literal r] by blast
qed

text \<open>
  C38. A word of 64 or more characters among the first three makes \<open>spawn\<close>, \<open>pkill\<close> and \<open>pstatus\<close>
  write past a local buffer: \<open>parse_arguments\<close> checks no bound, although the line may have 255 characters.
\<close>

theorem shell_argument_overflow:
  assumes "terminated command" and "\<not> fits_buffers (cstr command)"
    and "selected (cstr command) \<in> {Spawn, Pkill, Pstatus}"
  shows "process_command L command m = None"
proof -
  have "parse_command command = None" using parse_command_cases [OF assms(1)] assms(2) by simp
  then show ?thesis
    using assms(3) process_command_selected [OF assms(1), of L m]
    by (auto simp: cmd_spawn_def cmd_pkill_def cmd_pstatus_def)
qed

lemma same_core_right [simp]:
  "same_core k (kputs s k') = same_core k k'" "same_core k (kset_color f b k') = same_core k k'"
  by (auto simp: same_core_def)

theorem shell_argument_overflow_witness:
  "process_command sample_layout (c_literal ''spawn xxxxxxxxxxxxxxxxxxxxxxxxxxxxxxxxxxxxxxxxxxxxxxxxxxxxxxxxxxxxxxxx'') idle_machine = None"
proof -
  let ?line = "''spawn xxxxxxxxxxxxxxxxxxxxxxxxxxxxxxxxxxxxxxxxxxxxxxxxxxxxxxxxxxxxxxxx''"
  have c: "cstr (c_literal ?line) = c_chars ?line" by simp
  have t: "tokens (c_chars ?line) = [c_chars ''spawn'', c_chars (drop 6 ?line)]"
    by (simp add: tokens.simps is_space_def)
  have "\<not> fits_buffers (cstr (c_literal ?line))" unfolding c fits_buffers_def t by simp
  moreover have "selected (cstr (c_literal ?line)) = Spawn" unfolding c
    by (simp add: selected_def exact_commands_def is_word_def is_space_def)
  ultimately show ?thesis
    using shell_argument_overflow [OF terminated_c_literal, of ?line sample_layout idle_machine] by simp
qed

text \<open>
  C28. \<open>spawn\<close>: below ten processes it creates the process it was asked for, READY with the name of
  the line (63 characters of it), at the counter program, and reports success. Nothing enqueues it:
  the ready queue and every other block are untouched, so the new process never runs.
\<close>

theorem shell_spawn_correct:
  assumes "kernel_inv k" and "terminated command" and "fits_buffers (cstr command)"
    and "2 \<le> length (tokens (cstr command))" and "test_count k < 10"
  shows "\<exists>k'. cmd_spawn L command k = Some (Inr k') \<and> kernel_inv k' \<and>
    process_find_by_pid (of_nat (test_count k) + 1) k' = Some (Test_pcb (test_count k)) \<and>
    cstr (p_name (pcb k' (Test_pcb (test_count k)))) = take 63 (arg_at (tokens (cstr command)) 1) \<and>
    p_state (pcb k' (Test_pcb (test_count k))) = PROCESS_READY \<and>
    r_eip (p_cpu_state (pcb k' (Test_pcb (test_count k)))) = code_addr L Demo_counter_process \<and>
    ready_queue_head k' = ready_queue_head k \<and> ready_queue_tail k' = ready_queue_tail k \<and>
    (\<forall>r. r \<noteq> Test_pcb (test_count k) \<longrightarrow> pcb k' r = pcb k r)"
proof -
  obtain n c a1 a2 where p: "parse_command command = Some (n, c, a1, a2)" "terminated a1"
      "cstr a1 = arg_at (tokens (cstr command)) 1" "\<not> n < 2"
    using parse_command_cases [OF assms(2)] assms(3,4) by auto
  obtain k1 where k1: "kprint a1 (kputs (''Creating process '' @ [CHR 0x27]) (green k)) = Some k1"
    using kprint_terminated [OF p(2)] by blast
  define k0 where "k0 = white (kputs ([CHR 0x27] @ ''...\<newline>'') k1)"
  have core: "same_core k0 k" using kprint_same_core [OF k1] by (simp add: k0_def)
  note f = same_core_fields [OF core]
  have i: "kernel_inv k0" using assms(1) by (simp only: kernel_inv_same_core [OF core])
  then have t: "table_ok k0" by (simp add: kernel_inv_def)
  have "test_count k0 < 10" using f assms(5) by simp
  then obtain k2 where k2: "process_create_test L (Some a1) (code_addr L Demo_counter_process) PRIORITY_NORMAL k0 =
      Some (Some (Test_pcb (test_count k)), k2)"
    "same_core k2 (test_created L a1 (code_addr L Demo_counter_process) PRIORITY_NORMAL k0)"
    using process_create_test_creates [OF _ p(2), of k0 L "code_addr L Demo_counter_process" PRIORITY_NORMAL]
      arrays_okD(1) [OF table_okD(4) [OF t]] f by auto
  have inv: "kernel_inv k2"
    using kernel_inv_create_test [OF i p(2), of L "code_addr L Demo_counter_process" PRIORITY_NORMAL] k2(1) by auto
  have r: "cmd_spawn L command k = Some (Inr (kputs ''Process created successfully!\<newline>'' k2))"
    using p(1,4) k1 k2(1) unfolding k0_def by (simp only: cmd_spawn_def Let_def bind.bind_lunit prod.case if_False option.case)
  show ?thesis
    unfolding r p(3) [symmetric] using inv assms(5)
    by (simp add: same_core_fields [OF k2(2)] f stored_name_def fresh_pid_found test_created_def Let_def
        cstr_append_zero [OF zero_notin_stored [of a1, unfolded stored_name_def]])
qed

theorem shell_spawn_correct_witness:
  "\<exists>k'. cmd_spawn sample_layout (c_literal ''spawn ab'') idle_kernel = Some (Inr k') \<and>
     cstr (p_name (pcb k' (Test_pcb (Suc 0)))) = c_chars ''ab''"
proof -
  have t: "tokens (c_chars ''spawn ab'') = [c_chars ''spawn'', c_chars ''ab'']"
    by (simp add: tokens.simps is_space_def)
  have f: "fits_buffers (cstr (c_literal ''spawn ab''))" "2 \<le> length (tokens (cstr (c_literal ''spawn ab'')))"
    by (simp_all add: fits_buffers_def t [simplified])
  show ?thesis
    using shell_spawn_correct [OF idle_kernel_inv(1) terminated_c_literal f, of sample_layout]
    by (auto simp: idle_kernel_inv t [simplified] arg_at_def)
qed

lemma cmd_pstatus_parsed:
  assumes "kernel_inv k" and "terminated command" and "fits_buffers (cstr command)"
    and "tokens (cstr command) = w # arg1 # arg2 # ts" and "pid = of_nat (dec_value (takeWhile is_digit arg1))"
  shows "if pid = 0 \<or> \<not> list_all is_digit arg1 \<or> status_of arg2 = None
    then \<exists>k'. cmd_pstatus command k = Some (Inl k') \<and> same_core k' k
    else \<exists>k'. cmd_pstatus command k = Some (Inr k') \<and>
      same_core k' (case process_find_by_pid pid k of
                      None \<Rightarrow> k
                    | Some r \<Rightarrow> upd_pcb r (\<lambda>p. p\<lparr>p_state := the (status_of arg2)\<rparr>) k)"
proof -
  obtain n c a1 a2 where p: "parse_command command = Some (n, c, a1, a2)" "terminated a1" "terminated a2"
      "cstr a1 = arg1" "cstr a2 = arg2" "\<not> n < 3"
    using parse_command_cases [OF assms(2)] assms(3,4) by (auto simp: arg_at_def)
  obtain rest where pid: "parse_pid a1 0 = Some (pid, rest)" "hd rest = 0 \<longleftrightarrow> list_all is_digit arg1"
    using parse_pid_terminated [OF p(2)] p(4) assms(5) by metis
  have st: "parse_status a2 = Some (status_of arg2)" using parse_status_terminated [OF p(3)] p(5) by simp
  show ?thesis
  proof (cases "pid = 0 \<or> \<not> list_all is_digit arg1 \<or> status_of arg2 = None")
    case True
    then show ?thesis using p pid st by (auto simp: cmd_pstatus_def)
  next
    case False
    then obtain s where s: "status_of arg2 = Some s" by auto
    then have alive: "s = PROCESS_READY \<or> s = PROCESS_BLOCKED" by (auto simp: status_of_def split: if_splits)
    obtain k1 where k1: "kprint a1 (kputs ''Setting process PID '' (cyan k)) = Some k1"
      using kprint_terminated [OF p(2)] by blast
    obtain k2 where k2: "kprint a2 (kputs '' to '' k1) = Some k2"
      using kprint_terminated [OF p(3)] by blast
    let ?k = "white (kputs ''...\<newline>'' k2)"
    have core: "same_core ?k k" using kprint_same_core [OF k1] kprint_same_core [OF k2]
      by (auto intro: same_core_trans)
    obtain v k3 where k3: "process_set_status pid s ?k = (v, k3)" by fastforce
    have r: "cmd_pstatus command k = Some (Inr (if v \<noteq> 0 then kputs ''Process status updated successfully.\<newline>'' k3
        else kerror [''Failed to update process status!\<newline>''] k3))"
      using False p(1,6) pid st s k1 k2 k3
      by (simp only: cmd_pstatus_def Let_def bind.bind_lunit prod.case if_False option.case simp_thms) simp
    have "same_core k3 (case process_find_by_pid pid k of
        None \<Rightarrow> k | Some r \<Rightarrow> upd_pcb r (\<lambda>p. p\<lparr>p_state := s\<rparr>) k)"
      using k3 core alive
      by (auto simp: process_set_status_def process_find_by_pid_def same_core_def split: option.splits if_splits)
    then show ?thesis using False unfolding r s by (simp cong: option.case_cong)
  qed
qed

text \<open>
  C29. \<open>pstatus\<close>, on every line whose words fit their buffers. With fewer than three words, with a second word
  that is not a decimal number other than 0 (mod 2 ^ 32), or with an unknown status it is an error that only
  prints. Otherwise the state of the process found is set, the kernel process included, and nothing else:
  READY does not put it into the ready queue. If no process has the PID, nothing is set.
\<close>

theorem shell_pstatus_correct:
  assumes "kernel_inv k" and "terminated command" and "fits_buffers (cstr command)"
  shows "case tokens (cstr command) of
      w # arg1 # arg2 # ts \<Rightarrow>
        (let pid = of_nat (dec_value (takeWhile is_digit arg1)) in
         if pid = 0 \<or> \<not> list_all is_digit arg1 \<or> status_of arg2 = None
         then \<exists>k'. cmd_pstatus command k = Some (Inl k') \<and> same_core k' k
         else \<exists>k'. cmd_pstatus command k = Some (Inr k') \<and>
           same_core k' (case process_find_by_pid pid k of
                           None \<Rightarrow> k
                         | Some r \<Rightarrow> upd_pcb r (\<lambda>p. p\<lparr>p_state := the (status_of arg2)\<rparr>) k))
    | _ \<Rightarrow> \<exists>k'. cmd_pstatus command k = Some (Inl k') \<and> same_core k' k"
proof (cases "length (tokens (cstr command)) < 3")
  case True
  then obtain n c a1 a2 where "parse_command command = Some (n, c, a1, a2)" "n < 3"
    using parse_command_cases [OF assms(2)] assms(3) by auto
  then show ?thesis using True by (auto simp: cmd_pstatus_def split: list.splits)
next
  case False
  then obtain w arg1 arg2 ts where t: "tokens (cstr command) = w # arg1 # arg2 # ts"
    by (auto simp: not_less numeral_3_eq_3 Suc_le_length_iff)
  then show ?thesis using cmd_pstatus_parsed [OF assms t refl] t by (simp add: Let_def)
qed

theorem shell_pstatus_correct_witness:
  "(\<exists>k'. cmd_pstatus (c_literal ''pstatus 1 PAUSED'') idle_kernel = Some (Inr k') \<and>
     p_state (pcb k' (Test_pcb 0)) = PROCESS_BLOCKED) \<and>
   (\<exists>k'. cmd_pstatus (c_literal ''pstatus 1'') idle_kernel = Some (Inl k') \<and> same_core k' idle_kernel)"
proof -
  let ?line = "''pstatus 1 PAUSED''" and ?short = "''pstatus 1''"
  have t: "tokens (cstr (c_literal ?line)) = [c_chars ''pstatus'', c_chars ''1'', c_chars ''PAUSED'']"
    "tokens (cstr (c_literal ?short)) = [c_chars ''pstatus'', c_chars ''1'']"
    by (simp_all add: tokens.simps is_space_def)
  then have f: "fits_buffers (cstr (c_literal ?line))" "fits_buffers (cstr (c_literal ?short))"
    by (simp_all add: fits_buffers_def)
  have pid: "(of_nat (dec_value (takeWhile is_digit (c_chars ''1''))) :: u32) = 1"
    by (simp add: dec_value_def is_digit_def)
  have k: "process_find_by_pid 1 idle_kernel = Some (Test_pcb 0)"
    using idle_kernel_inv(1) by (simp add: kernel_inv_def process_find_by_pid_def word_le_nat_alt)
  show ?thesis
    using shell_pstatus_correct [OF idle_kernel_inv(1) terminated_c_literal f(1)]
      shell_pstatus_correct [OF idle_kernel_inv(1) terminated_c_literal f(2)]
    unfolding t list.case pid Let_def
    by (auto simp: k status_of_def is_digit_def same_core_fields)
qed

text \<open>
  \<open>pch\<close>: the guard for PID 1 compares with the byte 1, not the digit, and never fires on typed
  text, but \<open>change_current_process\<close> checks again: the command returns, and the current process is the
  old one or a process of the table other than the kernel process, now RUNNING.
\<close>

theorem shell_pch_protects_kernel:
  assumes "kernel_inv k" and "terminated command" and "has_prefix ''pch '' (cstr command)"
  shows "\<exists>r. cmd_pch command k = Some r \<and> kernel_inv (flow_state r) \<and>
    (current_process (flow_state r) = current_process k \<or>
     (\<exists>p pid. current_process (flow_state r) = Some p \<and> process_find_by_pid pid k = Some p \<and>
        p \<noteq> Test_pcb 0 \<and> p_state (pcb (flow_state r) p) = PROCESS_RUNNING))"
proof -
  obtain r where r: "cmd_pch command k = Some r" "kernel_inv (flow_state r)"
    using cmd_pch_ok [OF assms] by blast
  have change: "current_process k' = current_process k \<or>
      (\<exists>p pid. current_process k' = Some p \<and> process_find_by_pid pid k = Some p \<and> p \<noteq> Test_pcb 0 \<and>
         p_state (pcb k' p) = PROCESS_RUNNING)"
    if c: "change_current_process pid k = Some k'" for pid k'
  proof (cases "pid = 1 \<or> process_find_by_pid pid k = None")
    case True
    then show ?thesis using c by (auto simp: change_current_process_def Let_def split: if_splits)
  next
    case False
    then obtain p where p: "process_find_by_pid pid k = Some p" "pid \<noteq> 1" by auto
    then have "p_pid (pcb k p) = pid" "p_pid (pcb k (Test_pcb 0)) = 1"
      using assms(1) table_okD(1) [of k] by (auto simp: kernel_inv_def process_find_by_pid_def split: if_splits)
    then have "p \<noteq> Test_pcb 0" using p(2) by auto
    moreover define k1 where "k1 = upd_pcb p (\<lambda>p. p\<lparr>p_state := PROCESS_RUNNING\<rparr>) (k\<lparr>current_process := Some p\<rparr>)"
    moreover obtain k2 where "kprint (p_name (pcb k1 p)) (kputs '' (Name: '' (kprint_hex pid (kputs ''Switched to process PID: '' k1))) = Some k2"
        "k' = kputs '')\<newline>'' k2"
      using c p by (auto simp: change_current_process_def Let_def k1_def)
    moreover have "same_core k2 k1" using kprint_same_core [OF calculation(3)] by (simp add: same_core_def)
    ultimately show ?thesis using p(1) by (auto simp: same_core_fields)
  qed
  have err: "current_process (kerror ls k) = current_process k" for ls
    using same_core_fields [of "kerror ls k" k] by simp
  show ?thesis
  proof (cases "command ! 4 = 1")
    case True
    then show ?thesis using r err by (auto simp: cmd_pch_def)
  next
    case False
    then obtain ok out where n: "string_to_uint32 (Some (drop 4 command)) True = Some (ok, out)"
      using r(1) by (cases "string_to_uint32 (Some (drop 4 command)) True") (auto simp: cmd_pch_def)
    then consider "r = Inr (kerror [''ERROR: Invalid PID\<newline>''] k)"
      | k' where "change_current_process (case out of Some pid \<Rightarrow> pid | None \<Rightarrow> 0) k = Some k'" "r = Inr k'"
      using r(1) False by (auto simp: cmd_pch_def split: if_splits)
    then show ?thesis using r change err by cases auto
  qed
qed

theorem shell_pch_protects_kernel_witness:
  "\<exists>r. cmd_pch (c_literal ''pch 1'') idle_kernel = Some r \<and> current_process (flow_state r) = Some (Test_pcb 0)"
proof -
  have "has_prefix ''pch '' (cstr (c_literal ''pch 1''))" by (simp add: has_prefix_def)
  then obtain r where "cmd_pch (c_literal ''pch 1'') idle_kernel = Some r"
    using shell_pch_protects_kernel [OF idle_kernel_inv(1) terminated_c_literal] by blast
  moreover have "string_to_uint32 (Some (c_literal ''1'')) True = Some (True, Some 1)"
    by (simp add: string_to_uint32_terminated is_digit_def dec_value_def)
  moreover have "drop 4 (c_literal ''pch 1'') = c_literal ''1''" "c_literal ''pch 1'' ! 4 \<noteq> 1"
    by (simp_all add: c_literal_def)
  ultimately have "cmd_pch (c_literal ''pch 1'') idle_kernel =
      Some (Inr (kputs ''ERROR: Cannot switch to kernel process (PID 1)\<newline>'' idle_kernel))"
    by (simp add: cmd_pch_def change_current_process_def)
  then show ?thesis by (simp add: idle_kernel_inv)
qed

text \<open>
  \<open>fork\<close> in a process when ten exist: \<open>sys_fork\<close> returns -1, the test \<open>child_pid > 0\<close> is on an
  unsigned value, and the command reports a child with PID FFFFFFFF although nothing was created.
\<close>

theorem shell_fork_at_limit:
  assumes "kernel_inv k" and "test_count k = 10" and "current_process k = Some c"
  shows "\<exists>k1. same_core k1 k \<and>
    cmd_fork L k = Some (kputs ''\<newline>'' (kprint_hex 0xFFFFFFFF (kputs ''Child process created with PID: '' k1)))"
proof -
  let ?k = "white (kputs ''Forking current process...\<newline>'' (green k))"
  obtain k1 where k1: "process_create_test L (Some (p_name (pcb k c))) (r_eip (p_cpu_state (pcb k c)))
      (p_priority (pcb k c)) ?k = Some (None, k1)" "same_core k1 ?k"
    using process_create_test_full [of ?k L "Some (p_name (pcb k c))" "r_eip (p_cpu_state (pcb k c))" "p_priority (pcb k c)"]
      assms(2) by auto
  then have "sys_fork L ?k = Some (-1, k1)"
    using assms(3) by (simp add: sys_fork_def process_create_copy_def)
  then have "cmd_fork L k = Some (kputs ''\<newline>'' (kprint_hex (-1) (kputs ''Child process created with PID: '' k1)))"
    using word_gt_0 [of "-1 :: u32"] by (simp add: cmd_fork_def Let_def)
  moreover have "(-1 :: u32) = 0xFFFFFFFF" by simp
  ultimately show ?thesis
    using k1(2) by (auto simp del: word_exp_length_eq_0)
qed

theorem shell_fork_at_limit_witness:
  "\<exists>k1. cmd_fork sample_layout (idle_kernel\<lparr>test_count := 10\<rparr>) =
     Some (kputs ''\<newline>'' (kprint_hex 0xFFFFFFFF (kputs ''Child process created with PID: '' k1)))"
proof -
  have "created (idle_kernel\<lparr>test_count := 10\<rparr>) r" if "created idle_kernel r" for r
    using that idle_kernel_inv(3) by (auto simp: created_def split: pcb_ref.splits)
  then have "kernel_inv (idle_kernel\<lparr>test_count := 10\<rparr>)"
    using idle_kernel_inv(1) by (simp add: kernel_inv_def table_ok_def)
  then show ?thesis
    using shell_fork_at_limit [of "idle_kernel\<lparr>test_count := 10\<rparr>" "Test_pcb 0" sample_layout] idle_kernel_inv(2)
    by auto
qed

end
