(* ===== verification/Kernel.thy ===== *)
theory Kernel
  imports Shell_Safety
begin

text \<open>
  The running kernel: what \<open>kernel_main\<close> leaves behind, the steps the machine takes from there, and the
  invariant every state it reaches has. The steps are the rounds of the shell, the timer interrupt,
  the return from an assembly switch, scan codes arriving, and a program of the current process running
  to its end; an interrupt falls between two of them.
\<close>

section \<open>The serial port\<close>

text \<open>A status value with bit 5, the transmitter being empty.\<close>

definition transmitter_empty :: "u8 \<Rightarrow> bool" where
  "transmitter_empty s \<longleftrightarrow> s AND 0x20 \<noteq> 0"

definition sendable :: "machine \<Rightarrow> nat" where
  "sendable m = length (filter transmitter_empty (serial_status m))"

lemma transmitter_busy: "s AND 0x20 = 0 \<longleftrightarrow> \<not> transmitter_empty s"
  by (simp add: transmitter_empty_def)

lemma serial_wait_cases:
  "if filter transmitter_empty status = [] then serial_wait status = None
   else \<exists>st. serial_wait status = Some st \<and>
          Suc (length (filter transmitter_empty st)) = length (filter transmitter_empty status)"
  by (induction status) (auto simp: transmitter_busy)

lemma serial_write_char_cases:
  "if sendable m = 0 then serial_write_char c m = None
   else \<exists>st. serial_write_char c m = Some (m\<lparr>serial_status := st, serial_out := serial_out m @ [c]\<rparr>) \<and>
          Suc (length (filter transmitter_empty st)) = sendable m"
  using serial_wait_cases [of "serial_status m"]
  by (auto simp: sendable_def serial_write_char_def split: if_splits)

lemma serial_write_string_cases:
  "0 \<notin> set s \<Longrightarrow>
   if length s \<le> sendable m
   then \<exists>st. serial_write_string (s @ [0]) m = Some (m\<lparr>serial_status := st, serial_out := serial_out m @ s\<rparr>) \<and>
          length (filter transmitter_empty st) + length s = sendable m
   else serial_write_string (s @ [0]) m = None"
proof (induction s arbitrary: m)
  case (Cons c s)
  show ?case
  proof (cases "sendable m = 0")
    case True
    then show ?thesis using Cons.prems serial_write_char_cases [of m c] by auto
  next
    case False
    then obtain st where st: "serial_write_char c m = Some (m\<lparr>serial_status := st, serial_out := serial_out m @ [c]\<rparr>)"
        "Suc (length (filter transmitter_empty st)) = sendable m"
      using serial_write_char_cases [of m c] by auto
    let ?m = "m\<lparr>serial_status := st, serial_out := serial_out m @ [c]\<rparr>"
    have n: "sendable ?m = length (filter transmitter_empty st)" by (simp add: sendable_def)
    have "serial_write_string ((c # s) @ [0]) m = serial_write_string (s @ [0]) ?m"
      using Cons.prems st(1) by simp
    moreover have "if length s \<le> sendable ?m
       then \<exists>st'. serial_write_string (s @ [0]) ?m = Some (m\<lparr>serial_status := st', serial_out := serial_out m @ c # s\<rparr>) \<and>
              length (filter transmitter_empty st') + length s = sendable ?m
       else serial_write_string (s @ [0]) ?m = None"
      using Cons.IH [of ?m] Cons.prems by (auto split: if_splits)
    ultimately show ?thesis using st(2) unfolding n by (auto split: if_splits)
  qed
next
  case Nil
  show ?case by (simp add: sendable_def exI [of _ "serial_status m"])
qed

section \<open>Boot\<close>

text \<open>\<open>kernel_main\<close> between the first message of the serial port and the first process.\<close>

definition init_devices :: "layout \<Rightarrow> machine \<Rightarrow> machine" where
  "init_devices L m =
     (let m = upd_kern (kputs ''SimpleOS Kernel Starting...\<newline>'') m;
          m = upd_kern (kputs ''Initializing memory...\<newline>'') m;
          m = upd_kern (\<lambda>k. k\<lparr>heap := memory_init (heap k)\<rparr>) m;
          m = upd_kern (kputs ''Initializing IDT...\<newline>'') m;
          m = m\<lparr>idt := idt_init L (idt m)\<rparr>;
          m = upd_kern (kputs ''Initializing timer...\<newline>'') m;
          m = (let (k, i) = timer_init L (kern m, idt m) in m\<lparr>kern := k, idt := i\<rparr>);
          m = upd_kern (kputs ''Initializing keyboard...\<newline>'') m;
          m = (let (kb, rest) = keyboard_init (keyb m) (key_input m) in m\<lparr>keyb := kb, key_input := rest\<rparr>);
          m = upd_kern (kputs ''Initializing process management...\<newline>'') m;
          m = upd_kern process_init m;
          m = upd_kern (kputs ''Initializing scheduler...\<newline>'') m;
          m = upd_kern scheduler_init m
      in upd_kern (kputs ''Enabling process execution...\<newline>'') m)"

lemma kernel_main_split:
  "kernel_main L m =
     serial_write_string (c_literal ''SERIAL: Kernel started\<newline>'')
       (upd_kern kclear (upd_kern (\<lambda>k. k\<lparr>vga := vga_init (vga k)\<rparr>) m)) \<bind>
     (\<lambda>m. enable_process_execution L (kern (init_devices L m)) \<bind>
     (\<lambda>k. show_welcome_screen ((init_devices L m)\<lparr>kern := kputs ''Showing welcome screen...\<newline>'' k\<rparr>) \<bind>
     (\<lambda>m. Some (shell_start (upd_kern (kputs ''DEBUG: Welcome screen shown, starting shell...\<newline>'') m)))))"
  unfolding kernel_main_def init_devices_def Let_def by (rule refl)

lemma init_devices_fields [simp]:
  "kernel_process (kern (init_devices L m)) = None"
  "test_count (kern (init_devices L m)) = test_count (kern m)"
  "ready_queue_head (kern (init_devices L m)) = None" "ready_queue_tail (kern (init_devices L m)) = None"
  "heap (kern (init_devices L m)) = memory_init (heap (kern m))"
  "keyb (init_devices L m) = fst (keyboard_init (keyb m) (key_input m))"
  "key_input (init_devices L m) = drop 100 (key_input m)"
  "serial_out (init_devices L m) = serial_out m" "serial_status (init_devices L m) = serial_status m"
  by (simp_all add: init_devices_def timer_init_def keyboard_init_def scheduler_init_def Let_def)

lemma table_ok_scheduler_init [kinv]: "table_ok (scheduler_init k) = table_ok k"
  by (simp add: scheduler_init_def Let_def table_ok_def created_def split: pcb_ref.splits)

lemma init_devices_table: "table_ok (kern m) \<Longrightarrow> table_ok (kern (init_devices L m))"
  by (simp add: init_devices_def timer_init_def keyboard_init_def Let_def kinv)

lemma init_devices_idt:
  "idt (init_devices L m) = snd (timer_init L (k, idt_init L (idt m)))"
  by (simp add: init_devices_def timer_init_def keyboard_init_def Let_def)

lemma keyboard_init_ok:
  assumes "length (input_buffer kb) = 256"
  shows "kb_ok (fst (keyboard_init kb input))" and "line_text (fst (keyboard_init kb input)) = []"
proof -
  have "length (for_loop 0 n (\<lambda>i buf. buf[i := 0]) (input_buffer kb)) = 256" for n
    using assms by (induction n) (simp_all add: for_loop_Suc)
  then show "kb_ok (fst (keyboard_init kb input))" "line_text (fst (keyboard_init kb input)) = []"
    by (simp_all add: keyboard_init_def kb_ok_def line_text_def)
qed

lemma show_welcome_screen_cases:
  "if 41 \<le> sendable m
   then \<exists>st k. show_welcome_screen m =
          Some (m\<lparr>serial_status := st, serial_out := serial_out m @ c_chars ''SERIAL: Starting welcome screen function\<newline>'', kern := k\<rparr>) \<and>
          same_core k (kern m)
   else show_welcome_screen m = None"
proof -
  let ?s = "''SERIAL: Starting welcome screen function\<newline>''"
  have n: "0 \<notin> set (c_chars ?s)" "length (c_chars ?s) = 41" by (simp_all add: c_chars_def)
  note c = serial_write_string_cases [OF n(1), of m, folded c_literal_def, unfolded n(2)]
  show ?thesis
  proof (cases "41 \<le> sendable m")
    case True
    then obtain st where "serial_write_string (c_literal ?s) m = Some (m\<lparr>serial_status := st, serial_out := serial_out m @ c_chars ?s\<rparr>)"
      using c by auto
    then show ?thesis using True
      by (simp add: show_welcome_screen_def Let_def del: c_chars_simps) (intro exI conjI, rule refl, simp)
  next
    case False
    then show ?thesis using c by (simp add: show_welcome_screen_def)
  qed
qed

text \<open>The state the loader leaves: no process made yet, well formed blocks, a 256 byte line buffer.\<close>

definition boot_state :: "machine \<Rightarrow> bool" where
  "boot_state m \<longleftrightarrow> table_ok (kern m) \<and> test_count (kern m) = 0 \<and> length (input_buffer (keyb m)) = 256"

text \<open>The kernel once execution is enabled: \<open>kernel_idle\<close> is the only process, and running.\<close>

definition idle_running :: "layout \<Rightarrow> kstate \<Rightarrow> bool" where
  "idle_running L k \<longleftrightarrow> kernel_inv k \<and>
     current_process k = Some (Test_pcb 0) \<and> p_state (pcb k (Test_pcb 0)) = PROCESS_RUNNING \<and>
     cstr (p_name (pcb k (Test_pcb 0))) = c_chars ''kernel_idle'' \<and>
     r_eip (p_cpu_state (pcb k (Test_pcb 0))) = code_addr L Process_idle_task \<and>
     ready_queue_head k = None \<and> ready_queue_tail k = None \<and> test_count k = 1"

lemma idle_running_same_core: "same_core k' k \<Longrightarrow> idle_running L k' = idle_running L k"
  by (simp add: idle_running_def kernel_inv_same_core same_core_fields)

text \<open>Boot up to the welcome screen: the first serial message needs 23 statuses.\<close>

lemma kernel_main_welcome:
  assumes "boot_state m"
  shows "if 23 \<le> sendable m
    then \<exists>w. kernel_main L m = show_welcome_screen w \<bind>
        (\<lambda>m. Some (shell_start (upd_kern (kputs ''DEBUG: Welcome screen shown, starting shell...\<newline>'') m))) \<and>
      idle_running L (kern w) \<and> sendable w + 23 = sendable m \<and> kb_ok (keyb w) \<and> line_text (keyb w) = [] \<and>
      key_input w = drop 100 (key_input m) \<and> idt w = snd (timer_init L (kern m, idt_init L (idt m))) \<and>
      serial_out w = serial_out m @ c_chars ''SERIAL: Kernel started\<newline>''
    else kernel_main L m = None"
proof -
  let ?s = "''SERIAL: Kernel started\<newline>''"
  define m1 where "m1 = upd_kern kclear (upd_kern (\<lambda>k. k\<lparr>vga := vga_init (vga k)\<rparr>) m)"
  have "same_core (kern m1) (kern m)" by (simp add: m1_def kclear_def same_core_def)
  then have "table_ok (kern m1)" using assms table_ok_same_core by (auto simp: boot_state_def)
  then have m1: "table_ok (kern m1)" "test_count (kern m1) = 0" "keyb m1 = keyb m" "key_input m1 = key_input m"
    "serial_out m1 = serial_out m" "sendable m1 = sendable m" "idt m1 = idt m"
    using assms by (simp_all add: m1_def boot_state_def kclear_def sendable_def)
  have n: "0 \<notin> set (c_chars ?s)" "length (c_chars ?s) = 23" by (simp_all add: c_chars_def)
  note out = serial_write_string_cases [OF n(1), of m1, folded c_literal_def, unfolded n(2) m1]
  show ?thesis
  proof (cases "23 \<le> sendable m")
    case True
    then obtain st where st: "serial_write_string (c_literal ?s) m1 =
        Some (m1\<lparr>serial_status := st, serial_out := serial_out m @ c_chars ?s\<rparr>)"
        "length (filter transmitter_empty st) + 23 = sendable m"
      using out by auto
    define d where "d = init_devices L (m1\<lparr>serial_status := st, serial_out := serial_out m @ c_chars ?s\<rparr>)"
    have "table_ok (kern d)" "kernel_process (kern d) = None" "test_count (kern d) = 0"
      using m1 init_devices_table by (simp_all add: d_def)
    from kernel_inv_enable [OF this, of L] obtain k where k: "enable_process_execution L (kern d) = Some k" "idle_running L k"
      by (auto simp: d_def idle_running_def)
    let ?w = "d\<lparr>kern := kputs ''Showing welcome screen...\<newline>'' k\<rparr>"
    have "kernel_main L m = show_welcome_screen ?w \<bind>
        (\<lambda>m. Some (shell_start (upd_kern (kputs ''DEBUG: Welcome screen shown, starting shell...\<newline>'') m)))"
      by (simp only: kernel_main_split m1_def [symmetric] st(1) bind.bind_lunit d_def [symmetric] k(1))
    moreover have "sendable ?w + 23 = sendable m" using st(2) by (simp add: sendable_def d_def)
    moreover have "kb_ok (keyb ?w)" "line_text (keyb ?w) = []" "key_input ?w = drop 100 (key_input m)"
      "idt ?w = snd (timer_init L (kern m, idt_init L (idt m)))" "serial_out ?w = serial_out m @ c_chars ?s"
      using keyboard_init_ok assms m1 init_devices_idt [of L "m1\<lparr>serial_status := st, serial_out := serial_out m @ c_chars ?s\<rparr>" "kern m"]
      by (simp_all add: d_def boot_state_def)
    ultimately show ?thesis using True k(2) idle_running_same_core [of "kern ?w" k] by auto
  qed (use out in \<open>simp add: kernel_main_split m1_def [symmetric]\<close>)
qed

lemma kernel_main_cases:
  assumes "boot_state m"
  shows "if 64 \<le> sendable m
    then \<exists>m'. kernel_main L m = Some m' \<and> machine_inv m' \<and> idle_running L (kern m') \<and>
      line_text (keyb m') = [] \<and> key_input m' = drop 100 (key_input m) \<and>
      idt m' = snd (timer_init L (kern m, idt_init L (idt m))) \<and>
      serial_out m' = serial_out m @ c_chars ''SERIAL: Kernel started\<newline>'' @
        c_chars ''SERIAL: Starting welcome screen function\<newline>''
    else kernel_main L m = None"
proof (cases "23 \<le> sendable m")
  case True
  then obtain w where main: "kernel_main L m = show_welcome_screen w \<bind>
        (\<lambda>m. Some (shell_start (upd_kern (kputs ''DEBUG: Welcome screen shown, starting shell...\<newline>'') m)))"
    and w: "idle_running L (kern w)" "sendable w + 23 = sendable m" "kb_ok (keyb w)" "line_text (keyb w) = []"
      "key_input w = drop 100 (key_input m)" "idt w = snd (timer_init L (kern m, idt_init L (idt m)))"
      "serial_out w = serial_out m @ c_chars ''SERIAL: Kernel started\<newline>''"
    using kernel_main_welcome [OF assms, of L] by auto
  show ?thesis
  proof (cases "64 \<le> sendable m")
    case False
    then show ?thesis using main w(2) show_welcome_screen_cases [of w] by simp
  next
    case enough: True
    then obtain st k where s: "show_welcome_screen w =
        Some (w\<lparr>serial_status := st, serial_out := serial_out w @ c_chars ''SERIAL: Starting welcome screen function\<newline>'', kern := k\<rparr>)"
        "same_core k (kern w)"
      using w(2) show_welcome_screen_cases [of w] by auto
    have k: "idle_running L k" using w(1) idle_running_same_core [OF s(2)] by simp
    then have "kernel_inv k" by (simp add: idle_running_def)
    moreover have "idle_running L (kputs t (kset_color f b (kputs u k)))" for t f b u
      using k idle_running_same_core [of "kputs t (kset_color f b (kputs u k))" k] by simp
    ultimately show ?thesis
      using enough w unfolding main s(1) by (simp add: shell_start_def machine_inv_def del: c_chars_simps)
  qed
next
  case False
  then show ?thesis using kernel_main_welcome [OF assms, of L] by simp
qed

lemma idle_boots:
  "boot_state (idle_machine\<lparr>kern := zero_kstate\<rparr>)" "sendable (idle_machine\<lparr>kern := zero_kstate\<rparr>) = 64"
proof -
  show "boot_state (idle_machine\<lparr>kern := zero_kstate\<rparr>)"
    using zero_kstate_table by (simp add: boot_state_def idle_machine_def boot_keyboard_def) (simp add: zero_kstate_def)
  show "sendable (idle_machine\<lparr>kern := zero_kstate\<rparr>) = 64"
    by (simp add: sendable_def idle_machine_def transmitter_empty_def)
qed

text \<open>
  C5. Boot: \<open>kernel_main\<close> reaches the shell exactly when the serial port accepts its 64 characters, else
  it polls the port forever. It reaches it with a well formed process table, \<open>kernel_idle\<close> running as
  PID 1 at the idle loop, nothing in the ready queue, an empty command line, the exception gates and the
  timer gate of the initialisation, and both serial messages sent in order.
\<close>

theorem kernel_boots:
  assumes "boot_state m"
  shows "if 64 \<le> sendable m
    then \<exists>m'. kernel_main L m = Some m' \<and> machine_inv m' \<and>
      current_process (kern m') = Some (Test_pcb 0) \<and> p_state (pcb (kern m') (Test_pcb 0)) = PROCESS_RUNNING \<and>
      cstr (p_name (pcb (kern m') (Test_pcb 0))) = c_chars ''kernel_idle'' \<and>
      r_eip (p_cpu_state (pcb (kern m') (Test_pcb 0))) = code_addr L Process_idle_task \<and>
      ready_queue_head (kern m') = None \<and> ready_queue_tail (kern m') = None \<and>
      line_text (keyb m') = [] \<and> key_input m' = drop 100 (key_input m) \<and>
      gate_base (idt_entries (idt m') 32) = code_addr L Timer_interrupt_wrapper \<and>
      flags (idt_entries (idt m') 32) = 0x8E \<and>
      gate_base (idt_entries (idt m') 0) = code_addr L Exception_handler \<and>
      flags (idt_entries (idt m') 8) = 0 \<and>
      serial_out m' = serial_out m @ c_chars ''SERIAL: Kernel started\<newline>'' @
        c_chars ''SERIAL: Starting welcome screen function\<newline>''
    else kernel_main L m = None"
proof (cases "64 \<le> sendable m")
  case True
  then obtain m' where m': "kernel_main L m = Some m'" "machine_inv m'" "idle_running L (kern m')"
      "line_text (keyb m') = []" "key_input m' = drop 100 (key_input m)"
      "idt m' = snd (timer_init L (kern m, idt_init L (idt m)))"
      "serial_out m' = serial_out m @ c_chars ''SERIAL: Kernel started\<newline>'' @
        c_chars ''SERIAL: Starting welcome screen function\<newline>''"
    using kernel_main_cases [OF assms, of L] by auto
  have "gate_base (idt_entries (idt m') 32) = code_addr L Timer_interrupt_wrapper"
    "flags (idt_entries (idt m') 32) = 0x8E"
    "gate_base (idt_entries (idt m') 0) = code_addr L Exception_handler" "flags (idt_entries (idt m') 8) = 0"
    unfolding m'(6) using idt_init_gates [of L "idt m"] timer_init_gates(1,2) [of L "kern m" "idt_init L (idt m)"]
      timer_init_gates(3) [of _ L "kern m" "idt_init L (idt m)"] by simp_all
  then show ?thesis using True m' by (simp add: idle_running_def del: c_chars_simps)
qed (use kernel_main_cases [OF assms, of L] in simp)

theorem kernel_boots_witness:
  "\<exists>m'. kernel_main sample_layout (idle_machine\<lparr>kern := zero_kstate\<rparr>) = Some m' \<and> machine_inv m'"
  using kernel_boots [OF idle_boots(1), of sample_layout] idle_boots(2) by auto

section \<open>The running kernel\<close>

text \<open>
  The steps after boot. \<open>Program\<close> is a program \<open>exec\<close> can start, run to its end by the current process;
  \<open>Resumed\<close> and \<open>Schedule_returned\<close> are what follows an assembly switch that comes back.
\<close>

inductive kernel_step :: "layout \<Rightarrow> machine \<Rightarrow> machine \<Rightarrow> bool" for L where
  Keys: "kernel_step L m (m\<lparr>key_input := key_input m @ scancodes\<rparr>)"
| Shell_line: "shell_round L m = Some (m', call) \<Longrightarrow> kernel_step L m m'"
| Timer_tick: "timer_handler (kern m) = (k, call) \<Longrightarrow> kernel_step L m (m\<lparr>kern := k\<rparr>)"
| Resumed: "kernel_step L m (m\<lparr>kern := schedule_resumed call (kern m)\<rparr>)"
| Schedule_returned: "kernel_step L m (m\<lparr>kern := after_schedule (kern m)\<rparr>)"
| Program: "program_of name = Some f \<Longrightarrow> call_program f (kern m) = Some k \<Longrightarrow> kernel_step L m (m\<lparr>kern := k\<rparr>)"
| Idle: "kernel_step L m (m\<lparr>kern := process_idle_round (kern m)\<rparr>)"

inductive_cases kernel_stepE [elim]: "kernel_step L m m'"

lemma kernel_inv_resumed: "kernel_inv k \<Longrightarrow> kernel_inv (schedule_resumed call k)"
  by (simp add: schedule_resumed_def kernel_inv_current split: switch_call.splits)

lemma kernel_inv_tick: "kernel_inv k \<Longrightarrow> kernel_inv (fst (timer_handler k))"
proof -
  assume "kernel_inv k"
  then have "kernel_inv (k\<lparr>timer_ticks := timer_ticks k + 1\<rparr>)"
    by (simp add: kernel_inv_def table_ok_def created_def split: pcb_ref.splits)
  then show ?thesis
    using kernel_inv_schedule by (simp add: timer_handler_def scheduler_tick_def)
qed

lemma kernel_inv_exit: "kernel_inv k \<Longrightarrow> kernel_inv (process_exit code k)"
  by (auto simp: process_exit_def kernel_inv_def intro!: kernel_inv_upd [unfolded kernel_inv_def, THEN conjunct1] split: option.splits)

lemma shell_round_inv:
  assumes "machine_inv m" and "shell_round L m = Some (m', call)"
  shows "machine_inv m'"
proof -
  obtain m1 where m1: "read_line (upd_kern print_prompt m) = Some m1"
    using assms(2) by (cases "read_line (upd_kern print_prompt m)") (simp_all add: shell_round_def)
  have "machine_inv (upd_kern print_prompt m)"
    using assms(1) by (simp add: machine_inv_def [of m] print_prompt_def Let_def)
  note inv = read_line_ok [OF this m1]
  show ?thesis
    using assms(2) m1 inv(1) process_command_inv [OF inv(1,2)]
    by (auto simp: shell_round_def string_length_terminated [OF inv(2)] split: if_splits)
qed

lemma kernel_step_inv: "kernel_step L m m' \<Longrightarrow> machine_inv m \<Longrightarrow> machine_inv m'"
proof (induction rule: kernel_step.induct)
  case (Keys m scancodes)
  then show ?case by simp
next
  case (Shell_line m m' call)
  then show ?case using shell_round_inv by blast
next
  case (Timer_tick m k call)
  then show ?case using kernel_inv_tick [of "kern m"] by (simp add: machine_inv_def)
next
  case (Resumed m call)
  then show ?case by (simp add: machine_inv_def kernel_inv_resumed)
next
  case (Schedule_returned m)
  then show ?case by (simp add: machine_inv_def)
next
  case (Program name f m k)
  then have "same_core k (process_exit 0 (kern m))" using call_program_exits [of name f "kern m"] by auto
  then show ?case using Program.prems kernel_inv_exit kernel_inv_same_core by (auto simp: machine_inv_def)
next
  case (Idle m)
  then show ?case by (simp add: machine_inv_def process_idle_round_def for_loop_const)
qed

abbreviation kernel_steps :: "layout \<Rightarrow> machine \<Rightarrow> machine \<Rightarrow> bool" where
  "kernel_steps L \<equiv> (kernel_step L)\<^sup>*\<^sup>*"

interpretation booted: safe_system
  "\<lambda>m0. \<exists>m. boot_state m \<and> kernel_main L m = Some m0" "kernel_step L" machine_inv
proof
  show "machine_inv m0" if "\<exists>m. boot_state m \<and> kernel_main L m = Some m0" for m0
  proof -
    from that obtain m where "boot_state m" "kernel_main L m = Some m0" by (elim exE conjE)
    then show ?thesis using kernel_main_cases [of m L] by (auto split: if_splits)
  qed
qed (rule kernel_step_inv)

text \<open>
  C1. From boot on, in every state the machine reaches by command lines, timer interrupts, returns
  from assembly switches and programs running to their end, in any order: looking up PID 1 gives the
  kernel process, alive; every entry of the process table is a created block with that PID, of which
  there are at most ten of each kind, with a terminated name; the line editor is within its buffer.
\<close>

theorem kernel_stays_safe:
  assumes "boot_state m" and "kernel_main L m = Some m0" and "kernel_steps L m0 m'"
  shows "process_find_by_pid 1 (kern m') = Some (Test_pcb 0) \<and>
    p_state (pcb (kern m') (Test_pcb 0)) \<noteq> PROCESS_TERMINATED \<and> table_ok (kern m') \<and>
    buffer_pos (keyb m') \<le> 255"
proof -
  have "machine_inv m'" using booted.reachable_safe assms by blast
  then show ?thesis
    by (simp add: machine_inv_def kernel_inv_def kb_ok_def process_find_by_pid_def word_le_nat_alt)
qed

theorem kernel_stays_safe_witness:
  "\<exists>m0 m'. kernel_main sample_layout (idle_machine\<lparr>kern := zero_kstate\<rparr>) = Some m0 \<and>
     kernel_steps sample_layout m0 m' \<and> process_find_by_pid 1 (kern m') = Some (Test_pcb 0)"
proof -
  obtain m0 where m0: "kernel_main sample_layout (idle_machine\<lparr>kern := zero_kstate\<rparr>) = Some m0"
    using kernel_main_cases [OF idle_boots(1), of sample_layout] idle_boots(2) by auto
  obtain k call where "timer_handler (kern m0) = (k, call)" by fastforce
  then have "kernel_steps sample_layout m0 (m0\<lparr>kern := k\<rparr>)" by (intro r_into_rtranclp Timer_tick)
  then show ?thesis using m0 kernel_stays_safe [OF idle_boots(1) m0] by blast
qed

end
