(* ===== verification/Screen_Safety.thy ===== *)
theory Screen_Safety
  imports Kernel
begin

text \<open>
  What the whole kernel does to video memory. Every function the running kernel can reach is followed
  through its branches: from a cursor on the screen it ends with a cursor on the screen, and memory outside the 4000
  bytes of the text page is never written. The rules of the collection \<open>scr\<close> follow the structure of a
  definition - sequencing, tests, cases, pairs - so that a function with no new way to write the screen
  takes one line.
\<close>

section \<open>The invariant\<close>

definition screen_ok :: "(u32 \<Rightarrow> u16) \<Rightarrow> vga_state \<Rightarrow> bool" where
  "screen_ok M v \<longleftrightarrow> vga_ok v \<and> (\<forall>a. \<not> on_page a \<longrightarrow> vga_mem v a = M a)"

definition on_screen :: "(u32 \<Rightarrow> u16) \<Rightarrow> kstate \<Rightarrow> bool" where
  "on_screen M k \<longleftrightarrow> screen_ok M (vga k)"

text \<open>Results that may be missing: the state in a result, found by \<open>get\<close>, satisfies the invariant.\<close>

definition kept :: "('a \<Rightarrow> kstate) \<Rightarrow> (u32 \<Rightarrow> u16) \<Rightarrow> 'a option \<Rightarrow> bool" where
  "kept get M x \<longleftrightarrow> (\<forall>r. x = Some r \<longrightarrow> on_screen M (get r))"

named_theorems scr

lemma kept_simps [simp]: "kept get M None" "kept get M (Some r) = on_screen M (get r)"
  by (simp_all add: kept_def)

lemma keptD: "kept get M x \<Longrightarrow> x = Some r \<Longrightarrow> on_screen M (get r)"
  by (simp add: kept_def)

section \<open>Rules for the control structure\<close>

lemma kept_Some [scr]:
  "on_screen M k \<Longrightarrow> kept (\<lambda>k. k) M (Some k)" "on_screen M k \<Longrightarrow> kept snd M (Some (a, k))"
  "on_screen M k \<Longrightarrow> kept flow_state M (Some (Inl k))" "on_screen M k \<Longrightarrow> kept flow_state M (Some (Inr k))"
  "kept get M None"
  by simp_all

lemma kept_bind_pure: "(\<And>a. kept get M (f a)) \<Longrightarrow> kept get M (x \<bind> f)"
  by (cases x) (simp_all add: kept_def)

lemma kept_case_pure: "(\<And>a b. kept get M (f a b)) \<Longrightarrow> kept get M (case p of (a, b) \<Rightarrow> f a b)"
  by (simp add: split_beta)

lemma kept_bind [scr]:
  "kept (\<lambda>k. k) M x \<Longrightarrow> (\<And>k. on_screen M k \<Longrightarrow> kept get M (f k)) \<Longrightarrow> kept get M (x \<bind> f)"
  by (cases x) (simp_all add: kept_def)

lemma kept_bind_snd [scr]:
  "kept snd M x \<Longrightarrow> (\<And>a k. on_screen M k \<Longrightarrow> kept get M (f a k)) \<Longrightarrow> kept get M (x \<bind> (\<lambda>(a, k). f a k))"
  by (cases x) (auto simp: kept_def split_beta)

lemma kept_case_snd [scr]:
  "on_screen M (snd p) \<Longrightarrow> (\<And>a k. on_screen M k \<Longrightarrow> kept get M (f a k)) \<Longrightarrow> kept get M (case p of (a, k) \<Rightarrow> f a k)"
  by (simp add: split_beta)

lemma kept_if [scr]: "kept get M x \<Longrightarrow> kept get M y \<Longrightarrow> kept get M (if c then x else y)"
  by simp

lemma kept_option [scr]: "kept get M x \<Longrightarrow> (\<And>a. kept get M (f a)) \<Longrightarrow> kept get M (case_option x f p)"
  by (cases p) simp_all

lemma kept_map [scr]:
  "kept (\<lambda>k. k) M x \<Longrightarrow> (\<And>k. on_screen M k \<Longrightarrow> on_screen M (g k)) \<Longrightarrow> kept (\<lambda>k. k) M (map_option g x)"
  "kept (\<lambda>k. k) M x \<Longrightarrow> kept flow_state M (map_option Inr x)"
  by (cases x; simp)+

lemma on_screen_if [scr]: "on_screen M x \<Longrightarrow> on_screen M y \<Longrightarrow> on_screen M (if c then x else y)"
  by simp

lemma on_screen_option [scr]: "on_screen M x \<Longrightarrow> (\<And>a. on_screen M (f a)) \<Longrightarrow> on_screen M (case_option x f p)"
  by (cases p) simp_all

lemma on_screen_pair [scr]:
  "on_screen M k \<Longrightarrow> on_screen M (fst (k, e))" "on_screen M k \<Longrightarrow> on_screen M (snd (a, k))"
  "on_screen M (snd x) \<Longrightarrow> on_screen M (snd y) \<Longrightarrow> on_screen M (snd (if c then x else y))"
  "on_screen M (fst u) \<Longrightarrow> on_screen M (fst v) \<Longrightarrow> on_screen M (fst (if c then u else v))"
  "on_screen M (snd x) \<Longrightarrow> (\<And>a. on_screen M (snd (f a))) \<Longrightarrow> on_screen M (snd (case_option x f p))"
  "on_screen M (fst u) \<Longrightarrow> (\<And>a. on_screen M (fst (g a))) \<Longrightarrow> on_screen M (fst (case_option u g q))"
  by (simp_all split: option.split)

text \<open>Updates of anything but the screen.\<close>

lemma on_screen_update [scr]:
  "on_screen M k \<Longrightarrow> on_screen M (upd_pcb r f k)" "on_screen M k \<Longrightarrow> on_screen M (set_table i p k)"
  "on_screen M k \<Longrightarrow> on_screen M (k\<lparr>heap := h\<rparr>)" "on_screen M k \<Longrightarrow> on_screen M (k\<lparr>next_pid := n\<rparr>)"
  "on_screen M k \<Longrightarrow> on_screen M (k\<lparr>ready_queue_head := q\<rparr>)" "on_screen M k \<Longrightarrow> on_screen M (k\<lparr>ready_queue_tail := q\<rparr>)"
  "on_screen M k \<Longrightarrow> on_screen M (k\<lparr>current_process := q\<rparr>)" "on_screen M k \<Longrightarrow> on_screen M (k\<lparr>kernel_process := q\<rparr>)"
  "on_screen M k \<Longrightarrow> on_screen M (k\<lparr>create_count := c\<rparr>)" "on_screen M k \<Longrightarrow> on_screen M (k\<lparr>test_count := c\<rparr>)"
  "on_screen M k \<Longrightarrow> on_screen M (k\<lparr>timer_ticks := t\<rparr>)"
  by (simp_all add: on_screen_def upd_pcb_def set_table_def)

lemma on_screen_fold: "on_screen M k \<Longrightarrow> (\<And>x k. on_screen M k \<Longrightarrow> on_screen M (f x k)) \<Longrightarrow> on_screen M (fold f xs k)"
  by (induction xs arbitrary: k) simp_all

lemma on_screen_for_loop [scr]:
  "on_screen M k \<Longrightarrow> (\<And>i k. on_screen M k \<Longrightarrow> on_screen M (f i k)) \<Longrightarrow> on_screen M (for_loop a b f k)"
  unfolding for_loop_def by (rule on_screen_fold)

section \<open>Output\<close>

lemma screen_ok_within: "screen_ok M v \<Longrightarrow> (vga_ok v \<Longrightarrow> vga_within v v') \<Longrightarrow> screen_ok M v'"
  by (auto simp: screen_ok_def vga_within_def)

lemma screen_ok_print:
  "screen_ok M v \<Longrightarrow> screen_ok M (vga_puts s v)" "screen_ok M v \<Longrightarrow> screen_ok M (vga_putchar c v)"
  "screen_ok M v \<Longrightarrow> screen_ok M (vga_print_hex w v)" "screen_ok M v \<Longrightarrow> screen_ok M (vga_set_color f b v)"
  "screen_ok M v \<Longrightarrow> screen_ok M (vga_clear v)"
proof -
  show "screen_ok M v \<Longrightarrow> screen_ok M (vga_puts s v)" by (rule screen_ok_within [OF _ vga_puts_within])
  show "screen_ok M v \<Longrightarrow> screen_ok M (vga_putchar c v)" by (rule screen_ok_within [OF _ vga_raw.put_within])
  show "screen_ok M v \<Longrightarrow> screen_ok M (vga_print_hex w v)"
    unfolding vga_print_hex_def by (rule screen_ok_within [OF _ vga_dev.puts_within])
  show "screen_ok M v \<Longrightarrow> screen_ok M (vga_set_color f b v)"
    by (simp add: screen_ok_def vga_set_color_def vga_ok_def)
  show "screen_ok M v \<Longrightarrow> screen_ok M (vga_clear v)"
    using vga_clear_spec by (auto simp: screen_ok_def vga_ok_def)
qed

lemma on_screen_print [scr]:
  "on_screen M k \<Longrightarrow> on_screen M (kputs s k)" "on_screen M k \<Longrightarrow> on_screen M (kputchar c k)"
  "on_screen M k \<Longrightarrow> on_screen M (kprint_hex w k)" "on_screen M k \<Longrightarrow> on_screen M (kset_color f b k)"
  "on_screen M k \<Longrightarrow> on_screen M (kclear k)"
  by (simp_all add: on_screen_def kputs_def kputchar_def kprint_hex_def kset_color_def kclear_def screen_ok_print)

lemma vga_print_within: "vga_print buf v = Some v' \<Longrightarrow> vga_ok v \<Longrightarrow> vga_within v v'"
  using vga_print_fold [of buf v] vga_print_None [of buf v] vga_dev.puts_within by (cases "terminated buf") auto

lemma kept_kprint [scr]: "on_screen M k \<Longrightarrow> kept (\<lambda>k. k) M (kprint buf k)"
  using screen_ok_within vga_print_within by (auto simp: kept_def kprint_def on_screen_def)

lemma on_screen_digits [scr]:
  "on_screen M k \<Longrightarrow> on_screen M (kput_digit w k)" "on_screen M k \<Longrightarrow> on_screen M (kput_dec2 w k)"
  "on_screen M k \<Longrightarrow> on_screen M (kput_kb w k)" "on_screen M k \<Longrightarrow> on_screen M (kput_hex_digit w i k)"
  "on_screen M k \<Longrightarrow> on_screen M (kput_hex8 w k)"
  by (simp_all add: kput_digit_def kput_dec2_def kput_kb_def kput_hex_digit_def kput_hex8_def Let_def scr)

lemma on_screen_fold_puts [scr]: "on_screen M k \<Longrightarrow> on_screen M (kputs_all ls k)"
  unfolding kputs_all_def by (induction ls arbitrary: k) (simp_all add: scr)

section \<open>The process manager\<close>

text \<open>The scheduler and the queue never print.\<close>

lemma on_screen_queue [scr]:
  "on_screen M k \<Longrightarrow> on_screen M (add_to_ready_queue p k)" "on_screen M k \<Longrightarrow> on_screen M (remove_from_ready_queue p k)"
  "on_screen M k \<Longrightarrow> on_screen M (scheduler_init k)"
  unfolding add_to_ready_queue_def remove_from_ready_queue_def scheduler_init_def Let_def
  by (intro scr; assumption)+

lemma on_screen_schedule [scr]:
  "on_screen M k \<Longrightarrow> on_screen M (preempt_current k)" "on_screen M k \<Longrightarrow> on_screen M (fst (schedule k))"
  "on_screen M k \<Longrightarrow> on_screen M (fst (timer_handler k))" "on_screen M k \<Longrightarrow> on_screen M (schedule_resumed call k)"
proof -
  have p: "on_screen M k \<Longrightarrow> on_screen M (preempt_current k)" for k
    unfolding preempt_current_def Let_def by (intro scr; assumption)
  have s: "on_screen M k \<Longrightarrow> on_screen M (fst (schedule k))" for k
    unfolding schedule_def Let_def by (intro scr p; assumption)
  show "on_screen M k \<Longrightarrow> on_screen M (preempt_current k)" "on_screen M k \<Longrightarrow> on_screen M (fst (schedule k))" by (fact p s)+
  show "on_screen M k \<Longrightarrow> on_screen M (fst (timer_handler k))"
    unfolding timer_handler_def scheduler_tick_def by (intro s scr)
  show "on_screen M k \<Longrightarrow> on_screen M (schedule_resumed call k)"
    by (auto simp: schedule_resumed_def intro: scr split: switch_call.split)
qed

lemma on_screen_manager [scr]:
  "on_screen M k \<Longrightarrow> on_screen M (process_init k)" "on_screen M k \<Longrightarrow> on_screen M (process_exit code k)"
  "on_screen M k \<Longrightarrow> on_screen M (process_cleanup p k)" "on_screen M k \<Longrightarrow> on_screen M (snd (process_set_status pid s k))"
  "on_screen M k \<Longrightarrow> on_screen M (snd (process_allocate_pid k))" "on_screen M k \<Longrightarrow> on_screen M (process_idle_round k)"
  unfolding process_init_def process_exit_def process_cleanup_def process_set_status_def process_allocate_pid_def
    process_idle_round_def Let_def
  by (intro scr; assumption)+

lemma kept_create [scr]:
  "on_screen M k \<Longrightarrow> kept snd M (process_create L name entry priority k)"
  "on_screen M k \<Longrightarrow> kept snd M (process_create_test L name entry priority k)"
  unfolding process_create_def process_create_test_def Let_def
  by (intro scr kept_bind_pure kept_case_pure; assumption)+

lemma kept_create_copy [scr]: "on_screen M k \<Longrightarrow> kept snd M (process_create_copy L p k)"
  unfolding process_create_copy_def Let_def by (intro scr; assumption)

lemma kept_free [scr]: "on_screen M k \<Longrightarrow> kept (\<lambda>k. k) M (free_region L b k)"
  unfolding free_region_def by (cases "kfree L b (heap k)") (simp_all add: scr)

lemma kept_destroy [scr]:
  "on_screen M k \<Longrightarrow> kept (\<lambda>k. k) M (process_destroy L p k)" "on_screen M k \<Longrightarrow> kept snd M (process_kill_by_pid L pid k)"
  unfolding process_destroy_def process_kill_by_pid_def Let_def by (intro scr; assumption)+

lemma kept_enable [scr]: "on_screen M k \<Longrightarrow> kept (\<lambda>k. k) M (enable_process_execution L k)"
  unfolding enable_process_execution_def Let_def by (intro scr; assumption)

lemma on_screen_texts [scr]:
  "on_screen M k \<Longrightarrow> on_screen M (info_state s k)" "on_screen M k \<Longrightarrow> on_screen M (list_state s k)"
  by (simp_all add: info_state_def list_state_def scr split: process_state.split)

lemma kept_list_name [scr]: "on_screen M k \<Longrightarrow> kept snd M (list_name n name k)"
  by (induction n name k rule: list_name.induct) (simp_all add: scr)

lemma kept_listing [scr]:
  "on_screen M k \<Longrightarrow> kept (\<lambda>k. k) M (process_print_info p k)" "on_screen M k \<Longrightarrow> kept (\<lambda>k. k) M (list_row q k)"
  unfolding process_print_info_def list_row_def Let_def by (intro scr; assumption)+

lemma kept_list_rows [scr]: "on_screen M k \<Longrightarrow> kept snd M (list_rows is n k)"
proof (induction "is" n k rule: list_rows.induct)
  case (2 i rest found k)
  then show ?case using kept_listing(2) [OF 2(3)] by (auto simp: kept_def bind_eq_Some_conv split: option.splits)
qed simp

lemma kept_list_all [scr]: "on_screen M k \<Longrightarrow> kept (\<lambda>k. k) M (process_list_all k)"
  unfolding process_list_all_def Let_def by (intro scr; assumption)

section \<open>System calls and programs\<close>

lemma on_screen_programs [scr]:
  "on_screen M k \<Longrightarrow> on_screen M (exec_hello_program k)" "on_screen M k \<Longrightarrow> on_screen M (demo_counter_process k)"
  "on_screen M k \<Longrightarrow> on_screen M (demo_calc_process k)" "on_screen M k \<Longrightarrow> on_screen M (demo_monitor_process k)"
  unfolding exec_hello_program_def demo_counter_process_def demo_calc_process_def demo_monitor_process_def monitor_step_def Let_def
  by (intro scr; assumption)+

lemma kept_program [scr]: "on_screen M k \<Longrightarrow> kept (\<lambda>k. k) M (call_program f k)"
  by (cases f) (simp_all add: call_program_def scr)

lemma on_screen_exit_wait [scr]:
  "on_screen M k \<Longrightarrow> on_screen M (fst (sys_exit code k))" "on_screen M k \<Longrightarrow> on_screen M (snd (sys_kill pid signal k))"
  unfolding sys_exit_def sys_kill_def Let_def by (intro scr; assumption)+

lemma kept_find_program [scr]: "on_screen M k \<Longrightarrow> kept snd M (exec_find_program program k)"
  unfolding exec_find_program_def Let_def by (intro scr kept_bind_pure; assumption)

lemma kept_fork [scr]: "on_screen M k \<Longrightarrow> kept snd M (sys_fork L k)"
  unfolding sys_fork_def Let_def by (intro scr; assumption)

lemma kept_exec [scr]: "on_screen M k \<Longrightarrow> kept snd M (sys_exec L program k)"
  unfolding sys_exec_def Let_def by (cases "current_process k"; cases program; simp; intro scr kept_bind_pure; assumption)

section \<open>The keyboard\<close>

lemma screen_ok_edit:
  "screen_ok M (snd s) \<Longrightarrow> screen_ok M (snd (kb_insert c s))" "screen_ok M (snd s) \<Longrightarrow> screen_ok M (snd (kb_erase s))"
  by (simp_all add: kb_insert_def kb_erase_def split_beta screen_ok_print)

lemma screen_ok_repeat:
  assumes "screen_ok M (snd s)"
  shows "screen_ok M (snd (kb_repeat s))" "screen_ok M (snd (kb_held s))" "screen_ok M (snd (kb_idle s))"
proof -
  have r: "screen_ok M (snd (kb_repeat s))" if "screen_ok M (snd s)" for s
    using that by (simp add: kb_repeat_def split_beta Let_def screen_ok_print screen_ok_edit)
  show "screen_ok M (snd (kb_repeat s))" "screen_ok M (snd (kb_held s))" "screen_ok M (snd (kb_idle s))"
    using assms by (simp_all add: kb_held_def kb_idle_def split_beta Let_def r)
qed

lemma screen_ok_tab: "screen_ok M (snd s) \<Longrightarrow> screen_ok M (snd (kb_tab s))"
  unfolding kb_tab_def by (induction "[0..<4]" arbitrary: s rule: list.induct) (simp_all add: upt_rec screen_ok_edit)

definition poll_screen :: "kbd + kbd \<Rightarrow> vga_state" where
  "poll_screen r = (case r of Inl s \<Rightarrow> snd s | Inr s \<Rightarrow> snd s)"

lemma screen_ok_poll: "screen_ok M (snd s) \<Longrightarrow> screen_ok M (poll_screen (keyboard_poll code s))"
  by (simp add: keyboard_poll_def kb_press_def poll_screen_def split_beta Let_def screen_ok_print screen_ok_edit
      screen_ok_repeat screen_ok_tab)

lemma screen_ok_input:
  "screen_ok M (snd s) \<Longrightarrow> keyboard_get_input input s = Some (t, rest) \<Longrightarrow> screen_ok M (snd t)"
proof -
  have loop: "screen_ok M (snd s) \<Longrightarrow> keyboard_loop input s = Some (t, rest) \<Longrightarrow> screen_ok M (snd t)" for s
  proof (induction input s rule: keyboard_loop.induct)
    case (2 code input s)
    then show ?case using screen_ok_poll [OF 2(2), of code] by (auto simp: poll_screen_def split: sum.splits)
  qed simp
  assume "screen_ok M (snd s)" "keyboard_get_input input s = Some (t, rest)"
  then show ?thesis
    using loop [of "((fst s)\<lparr>buffer_pos := 0\<rparr>, show_cursor (vga_set_color VGA_COLOR_WHITE VGA_COLOR_BLACK (snd s)))"]
    by (simp add: keyboard_get_input_def split_beta Let_def screen_ok_print)
qed

section \<open>The shell\<close>

lemma on_screen_commands [scr]:
  "on_screen M k \<Longrightarrow> on_screen M (kerror ls k)" "on_screen M k \<Longrightarrow> on_screen M (cmd_help k)"
  "on_screen M k \<Longrightarrow> on_screen M (cmd_about k)" "on_screen M k \<Longrightarrow> on_screen M (cmd_status k)"
  "on_screen M k \<Longrightarrow> on_screen M (cmd_memory k)" "on_screen M k \<Longrightarrow> on_screen M (cmd_clear k)"
  "on_screen M k \<Longrightarrow> on_screen M (cmd_version k)" "on_screen M k \<Longrightarrow> on_screen M (cmd_sysinfo k)"
  "on_screen M k \<Longrightarrow> on_screen M (cmd_getpid k)" "on_screen M k \<Longrightarrow> on_screen M (after_schedule k)"
  "on_screen M k \<Longrightarrow> on_screen M (print_prompt k)"
  unfolding kerror_def cmd_help_def cmd_about_def cmd_status_def cmd_memory_def cmd_clear_def cmd_version_def
    cmd_sysinfo_def cmd_getpid_def after_schedule_def print_prompt_def Let_def
  by (intro scr; assumption)+

lemma kept_commands [scr]:
  "on_screen M k \<Longrightarrow> kept (\<lambda>k. k) M (cmd_ps k)" "on_screen M k \<Longrightarrow> kept (\<lambda>k. k) M (cmd_proc k)"
  "on_screen M k \<Longrightarrow> kept (\<lambda>k. k) M (cmd_fork L k)" "on_screen M k \<Longrightarrow> kept (\<lambda>k. k) M (cmd_exec L line k)"
  "on_screen M k \<Longrightarrow> kept (\<lambda>k. k) M (cmd_unknown line k)" "on_screen M k \<Longrightarrow> kept (\<lambda>k. k) M (change_current_process pid k)"
  "on_screen M k \<Longrightarrow> kept (\<lambda>k. k) M (keytest_report line k)"
  unfolding cmd_ps_def cmd_proc_def cmd_fork_def cmd_exec_def cmd_unknown_def change_current_process_def keytest_report_def Let_def
  by (intro scr kept_bind_pure; assumption)+

lemma kept_flows [scr]:
  "on_screen M k \<Longrightarrow> kept flow_state M (cmd_spawn L line k)" "on_screen M k \<Longrightarrow> kept flow_state M (cmd_pkill L line k)"
  "on_screen M k \<Longrightarrow> kept flow_state M (cmd_pstatus line k)" "on_screen M k \<Longrightarrow> kept flow_state M (cmd_pch line k)"
  unfolding cmd_spawn_def cmd_pkill_def cmd_pstatus_def cmd_pch_def Let_def
  by (intro scr kept_bind_pure kept_case_pure; assumption)+

section \<open>The machine\<close>

lemma read_line_screen: "read_line m = Some m' \<Longrightarrow> on_screen M (kern m) \<Longrightarrow> on_screen M (kern m')"
  using screen_ok_input [of M "(keyb m, vga (kern m))" "key_input m"]
  by (auto simp: read_line_def on_screen_def bind_eq_Some_conv)

lemma keytest_loop_screen: "keytest_loop m = Some m' \<Longrightarrow> on_screen M (kern m) \<Longrightarrow> on_screen M (kern m')"
proof (induction m rule: keytest_loop.induct)
  case (1 m)
  let ?m = "upd_kern (\<lambda>k. white (kputs ''KeyTest> '' (green k))) m"
  obtain m1 where m1: "read_line ?m = Some m1"
    using 1(2) by (cases "read_line ?m") (simp_all add: keytest_loop.simps [of m])
  have s: "on_screen M (kern m1)" using read_line_screen [OF m1] 1(3) by (simp add: scr)
  obtain e where e: "string_compare (input_buffer (keyb m1)) (c_literal ''exit'') = Some e"
    using 1(2) m1 by (cases "string_compare (input_buffer (keyb m1)) (c_literal ''exit'')") (simp_all add: keytest_loop.simps [of m])
  show ?case
  proof (cases e)
    case True
    then have "m' = upd_kern (kputs ''Keyboard test completed!\<newline>'') m1"
      using 1(2) m1 e by (simp add: keytest_loop.simps [of m])
    then show ?thesis using s by (simp add: scr)
  next
    case False
    obtain k where k: "keytest_report (input_buffer (keyb m1)) (kern m1) = Some k" "keytest_loop (m1\<lparr>kern := k\<rparr>) = Some m'"
      using 1(2) m1 e False by (auto simp: keytest_loop.simps [of m] bind_eq_Some_conv)
    then show ?thesis using 1(1) [OF m1 e False k] keptD [OF kept_commands(7) [OF s] k(1)] by simp
  qed
qed

lemma on_screen_finish [scr]:
  "on_screen M k \<Longrightarrow> on_screen M (kern (fst (finish m k)))"
  "on_screen M (flow_state r) \<Longrightarrow> on_screen M (kern (fst (finish_flow m r)))"
  "on_screen M k \<Longrightarrow> on_screen M (kern (fst (cmd_schedule m k)))"
proof -
  show "on_screen M k \<Longrightarrow> on_screen M (kern (fst (finish m k)))" by (simp add: finish_def scr)
  show "on_screen M (flow_state r) \<Longrightarrow> on_screen M (kern (fst (finish_flow m r)))"
    by (cases r) (simp_all add: finish_flow_def finish_def scr)
  let ?k = "white (kputs ''Triggering manual scheduler...\<newline>'' (cyan k))"
  show "on_screen M k \<Longrightarrow> on_screen M (kern (fst (cmd_schedule m k)))"
    using on_screen_schedule(2) [of M ?k] by (cases "schedule ?k"; cases "snd (schedule ?k)") (simp_all add: cmd_schedule_def scr)
qed

lemma process_command_screen:
  assumes "process_command L line m = Some (m', call)" and "on_screen M (kern m)"
  shows "on_screen M (kern m')"
proof -
  have w: "on_screen M (white (kern m))" using assms(2) by (rule scr)
  have plain: "on_screen M (kern m')" if "map_option (finish m) x = Some (m', call)" "kept (\<lambda>k. k) M x" for x
    using that on_screen_finish(1) [of M _ m] by (auto simp: kept_def dest!: arg_cong [where f = fst])
  have flow: "on_screen M (kern m')" if "map_option (finish_flow m) x = Some (m', call)" "kept flow_state M x" for x
    using that on_screen_finish(2) [of M _ m] by (auto simp: kept_def dest!: arg_cong [where f = fst])
  have ret: "on_screen M (kern m')" if "Some r = Some (m', call)" "on_screen M (kern (fst r))" for r
    using that by auto
  obtain c where c: "first_match command_tests line = Some c"
    using assms(1) by (cases "first_match command_tests line") (simp_all add: process_command_def)
  show ?thesis
  proof (cases c)
    case Keytest
    then obtain m1 where m1: "cmd_keytest (m\<lparr>kern := white (kern m)\<rparr>) = Some m1" "finish m1 (kern m1) = (m', call)"
      using assms(1) c by (auto simp: process_command_def)
    have "on_screen M (kern m1)"
      by (rule keytest_loop_screen [OF m1(1) [unfolded cmd_keytest_def]]) (use w in \<open>simp add: scr\<close>)
    then show ?thesis using on_screen_finish(1) [of M "kern m1" m1] m1(2) by simp
  qed (use assms(1) c w in \<open>auto simp: process_command_def simp del: map_option_eq_Some option.map_sel intro: scr plain flow ret\<close>)
qed

lemma shell_round_screen:
  assumes "shell_round L m = Some (m', call)" and "on_screen M (kern m)"
  shows "on_screen M (kern m')"
proof -
  obtain m1 where m1: "read_line (upd_kern print_prompt m) = Some m1"
    using assms(1) by (cases "read_line (upd_kern print_prompt m)") (simp_all add: shell_round_def)
  have s: "on_screen M (kern m1)" using read_line_screen [OF m1] assms(2) by (simp add: scr)
  show ?thesis
    using assms(1) m1 s process_command_screen [of L _ m1 m' call M]
    by (auto simp: shell_round_def bind_eq_Some_conv split: if_splits)
qed

lemma kernel_step_screen: "kernel_step L m m' \<Longrightarrow> on_screen M (kern m) \<Longrightarrow> on_screen M (kern m')"
proof (induction rule: kernel_step.induct)
  case (Shell_line m m' call)
  then show ?case using shell_round_screen by blast
next
  case (Timer_tick m k call)
  then show ?case using on_screen_schedule(3) [of M "kern m"] by simp
next
  case (Program name f m k)
  then show ?case using kept_program keptD by fastforce
qed (simp_all add: scr)

text \<open>Boot: \<open>vga_init\<close> sets up the driver, whatever it was before.\<close>

lemma vga_init_screen: "screen_ok (vga_mem v) (vga_init v)"
proof -
  have "vga_within (v\<lparr>vga_row := 0, vga_column := 0, vga_color := c, vga_buffer := VGA_MEMORY\<rparr>)
      (vga_store (of_nat 0) e (v\<lparr>vga_row := 0, vga_column := 0, vga_color := c, vga_buffer := VGA_MEMORY\<rparr>))" for c e
    by (rule vga_within_store) simp
  then show ?thesis by (simp add: vga_init_def Let_def screen_ok_def vga_within_def vga_ok_def)
qed

lemma serial_screen: "serial_write_string s m = Some m' \<Longrightarrow> kern m' = kern m"
  by (induction s m rule: serial_write_string.induct) (auto simp: serial_write_char_def bind_eq_Some_conv split: if_splits)

lemma init_devices_screen [scr]: "on_screen M (kern m) \<Longrightarrow> on_screen M (kern (init_devices L m))"
  by (simp add: init_devices_def timer_init_def keyboard_init_def Let_def scr)

lemma kernel_main_screen:
  assumes "kernel_main L m = Some m0"
  shows "on_screen (vga_mem (vga (kern m))) (kern m0)"
proof -
  let ?M = "vga_mem (vga (kern m))"
  obtain m1 k m2 where m1: "serial_write_string (c_literal ''SERIAL: Kernel started\<newline>'')
       (upd_kern kclear (upd_kern (\<lambda>k. k\<lparr>vga := vga_init (vga k)\<rparr>) m)) = Some m1"
    and k: "enable_process_execution L (kern (init_devices L m1)) = Some k"
    and m2: "show_welcome_screen ((init_devices L m1)\<lparr>kern := kputs ''Showing welcome screen...\<newline>'' k\<rparr>) = Some m2"
    and m0: "m0 = shell_start (upd_kern (kputs ''DEBUG: Welcome screen shown, starting shell...\<newline>'') m2)"
    using assms unfolding kernel_main_split by (auto simp: bind_eq_Some_conv)
  have "on_screen ?M (kern m1)"
    using serial_screen [OF m1] vga_init_screen [of "vga (kern m)"] by (simp add: scr on_screen_def [of _ "_\<lparr>vga := _\<rparr>"])
  then have "on_screen ?M k" using keptD [OF kept_enable k] by (simp add: scr)
  then have "on_screen ?M (kern m2)"
    using m2 serial_screen unfolding show_welcome_screen_def by (fastforce simp: bind_eq_Some_conv Let_def intro!: scr)
  then show ?thesis by (simp add: m0 shell_start_def scr)
qed

interpretation display: safe_system
  "\<lambda>m0. \<exists>m. kernel_main L m = Some m0 \<and> vga_mem (vga (kern m)) = M" "kernel_step L" "\<lambda>m. on_screen M (kern m)"
  using kernel_main_screen kernel_step_screen by unfold_locales auto

section \<open>Property\<close>

text \<open>
  C3. No print of the kernel leaves the screen: in every state reached from boot by command lines, timer
  interrupts, returning switches and programs, in any order, the cursor is within 25 rows and 80 columns, and
  memory outside the 4000 bytes of the text page is as it was before \<open>kernel_main\<close> - whatever is typed, however
  long the names and lines printed are.
\<close>

theorem screen_writes_stay_on_page:
  assumes "kernel_main L m = Some m0" and "kernel_steps L m0 m'"
  shows "vga_row (vga (kern m')) < 25 \<and> vga_column (vga (kern m')) < 80 \<and> vga_buffer (vga (kern m')) = VGA_MEMORY \<and>
    (\<not> on_page a \<longrightarrow> vga_mem (vga (kern m')) a = vga_mem (vga (kern m)) a)"
proof -
  have "on_screen (vga_mem (vga (kern m))) (kern m')"
    using display.reachable_safe [where M = "vga_mem (vga (kern m))", OF _ assms(2)] assms(1) by blast
  then show ?thesis by (simp add: on_screen_def screen_ok_def vga_ok_def)
qed

theorem screen_writes_stay_on_page_witness:
  "\<exists>m0. kernel_main sample_layout (idle_machine\<lparr>kern := zero_kstate\<rparr>) = Some m0 \<and>
     vga_row (vga (exec_hello_program (kern m0))) < 25 \<and>
     vga_mem (vga (exec_hello_program (kern m0))) 0x100000 = vga_mem (vga zero_kstate) 0x100000"
proof -
  obtain m0 where m0: "kernel_main sample_layout (idle_machine\<lparr>kern := zero_kstate\<rparr>) = Some m0"
    using kernel_main_cases [OF idle_boots(1), of sample_layout] idle_boots(2) by auto
  let ?m = "m0\<lparr>kern := exec_hello_program (kern m0)\<rparr>"
  have "kernel_steps sample_layout m0 ?m"
    by (intro r_into_rtranclp Program [where name = "c_chars ''hello''" and f = Exec_hello_program])
       (simp_all add: program_of_def call_program_def)
  moreover have "\<not> on_page 0x100000" by (simp add: on_page_def)
  ultimately show ?thesis
    using m0 screen_writes_stay_on_page [OF m0, of ?m "0x100000"] by (intro exI [of _ m0]) simp
qed

end
