(* ===== verification/Process_Table.thy ===== *)
theory Process_Table
  imports Syscall_Props
begin

text \<open>
  The process manager as a table of tasks. \<open>manager\<close> is what the operations of \<open>kernel/proc/process.c\<close>
  promise their callers: a map from PIDs to tasks, and how many processes each creation function has
  made. \<open>manage\<close> specifies the operations on it; the code's operations simulate it, although they work on
  a table of pointers to control blocks that several of them share.
\<close>

section \<open>The specification\<close>

record task =
  t_name :: "u8 list"
  t_state :: process_state
  t_parent :: u32
  t_priority :: process_priority
  t_idle :: bool
  t_running :: bool

record manager =
  tasks :: "u32 \<Rightarrow> task option"
  pool_made :: nat
  static_made :: nat

datatype manager_op =
    Create "u8 list" u32 process_priority
  | Create_static "u8 list" u32 process_priority
  | Kill u32
  | Set_status u32 process_state
  | Reap u32
  | Exit int

definition new_task :: "u8 list \<Rightarrow> process_priority \<Rightarrow> task" where
  "new_task name priority =
     \<lparr>t_name = take 63 (cstr name), t_state = PROCESS_READY, t_parent = 0, t_priority = priority,
      t_idle = False, t_running = False\<rparr>"

definition end_running :: "task \<Rightarrow> task" where
  "end_running t = (if t_running t \<and> \<not> t_idle t then t\<lparr>t_state := PROCESS_TERMINATED\<rparr> else t)"

fun manage :: "manager_op \<Rightarrow> manager \<Rightarrow> manager" where
  "manage (Create name entry priority) m =
     (if pool_made m < 10
      then m\<lparr>tasks := (tasks m)(of_nat (pool_made m) + 1 \<mapsto> new_task name priority), pool_made := pool_made m + 1\<rparr>
      else m)"
| "manage (Create_static name entry priority) m =
     (if static_made m < 10
      then m\<lparr>tasks := (tasks m)(of_nat (static_made m) + 1 \<mapsto> new_task name priority), static_made := static_made m + 1\<rparr>
      else m)"
| "manage (Kill pid) m =
     (case tasks m pid of
        None \<Rightarrow> m
      | Some t \<Rightarrow> if pid = 1 \<or> t_idle t then m else m\<lparr>tasks := (tasks m)(pid := None)\<rparr>)"
| "manage (Set_status pid s) m =
     (if s \<in> {PROCESS_READY, PROCESS_BLOCKED, PROCESS_TERMINATED}
      then m\<lparr>tasks := (tasks m)(pid := map_option (\<lambda>t. t\<lparr>t_state := s\<rparr>) (tasks m pid))\<rparr> else m)"
| "manage (Reap pid) m = m\<lparr>tasks := (tasks m)(pid := None)\<rparr>"
| "manage (Exit code) m = m\<lparr>tasks := (\<lambda>i. map_option end_running (tasks m i))\<rparr>"

section \<open>The code\<close>

definition task_of :: "kstate \<Rightarrow> pcb_ref \<Rightarrow> task" where
  "task_of k r =
     \<lparr>t_name = cstr (p_name (pcb k r)), t_state = p_state (pcb k r), t_parent = p_parent_pid (pcb k r),
      t_priority = p_priority (pcb k r), t_idle = (kernel_process k = Some r), t_running = (current_process k = Some r)\<rparr>"

definition manager_of :: "kstate \<Rightarrow> manager" where
  "manager_of k =
     \<lparr>tasks = (\<lambda>i. map_option (task_of k) (process_table k i)), pool_made = create_count k, static_made = test_count k\<rparr>"

fun perform_op :: "layout \<Rightarrow> manager_op \<Rightarrow> kstate \<Rightarrow> kstate option" where
  "perform_op L (Create name entry priority) k = map_option snd (process_create L (Some name) entry priority k)"
| "perform_op L (Create_static name entry priority) k = map_option snd (process_create_test L (Some name) entry priority k)"
| "perform_op L (Kill pid) k = map_option snd (process_kill_by_pid L pid k)"
| "perform_op L (Set_status pid s) k = Some (snd (process_set_status pid s k))"
| "perform_op L (Reap pid) k = Some (process_cleanup (process_find_by_pid pid k) k)"
| "perform_op L (Exit code) k = Some (process_exit code k)"

fun named :: "manager_op \<Rightarrow> bool" where
  "named (Create name entry priority) \<longleftrightarrow> terminated name"
| "named (Create_static name entry priority) \<longleftrightarrow> terminated name"
| "named _ \<longleftrightarrow> True"

text \<open>
  \<open>kfree\<close> takes the size of a block from the word in front of it, which a process may have overwritten: the
  model bounds its accesses, so a kill may have no result.
\<close>

fun frees_nothing :: "manager_op \<Rightarrow> bool" where
  "frees_nothing (Kill pid) \<longleftrightarrow> False"
| "frees_nothing _ \<longleftrightarrow> True"

text \<open>
  The table and the heap are well formed, the two process pointers point to created blocks, and the names of
  the blocks \<open>process_create\<close> has not handed out are empty: it copies a name without its terminator.
\<close>

definition manager_ok :: "kstate \<Rightarrow> bool" where
  "manager_ok k \<longleftrightarrow> table_ok k \<and> pool_ok k \<and>
     (\<forall>r. kernel_process k = Some r \<longrightarrow> created k r) \<and> (\<forall>r. current_process k = Some r \<longrightarrow> created k r) \<and>
     (\<forall>i \<ge> create_count k. p_name (pcb k (Create_pcb i)) = replicate 64 0)"

section \<open>Simulation\<close>

lemma manager_of_same_core: "same_core k' k \<Longrightarrow> manager_of k' = manager_of k"
  by (simp add: manager_of_def task_of_def [abs_def] same_core_fields)

lemma manager_ok_same_core: "same_core k' k \<Longrightarrow> manager_ok k' = manager_ok k"
  by (simp add: manager_ok_def table_ok_same_core pool_ok_same_core same_core_created same_core_fields)

lemma manager_okD:
  assumes "manager_ok k"
  shows "table_ok k" "pool_ok k" "kernel_process k = Some r \<Longrightarrow> created k r" "current_process k = Some r \<Longrightarrow> created k r"
    "create_count k \<le> i \<Longrightarrow> p_name (pcb k (Create_pcb i)) = replicate 64 0"
    "process_table k pid = Some r \<Longrightarrow> created k r"
  using assms table_okD(1) [of k pid r] by (auto simp: manager_ok_def)

lemma find_entry: "table_ok k \<Longrightarrow> process_find_by_pid pid k = process_table k pid"
  using table_okD(1) [of k pid] by (cases "process_table k pid") (auto simp: process_find_by_pid_def word_le_nat_alt)

text \<open>Entries for different PIDs are different blocks.\<close>

lemma entry_unique: "table_ok k \<Longrightarrow> process_table k i = Some r \<Longrightarrow> process_table k j = Some r \<Longrightarrow> i = j"
  using table_okD(1) by metis

text \<open>An operation that creates no block, moves no process pointer and leaves the names of unused blocks.\<close>

lemma manager_ok_frame:
  assumes "manager_ok k" and "table_ok k'" and "pool_ok k'" and "kernel_process k' = kernel_process k"
    and "current_process k' = current_process k" and "create_count k' = create_count k" and "test_count k' = test_count k"
    and "\<And>r. \<not> created k r \<Longrightarrow> p_name (pcb k' r) = p_name (pcb k r)"
  shows "manager_ok k'"
proof -
  have "created k' = created k" using assms(6,7) by (simp add: fun_eq_iff created_def split: pcb_ref.splits)
  then show ?thesis
    using assms manager_okD(3-5) [OF assms(1)] by (simp add: manager_ok_def created_def)
qed

lemma manager_of_eqI:
  assumes "\<And>i. map_option (task_of k) (process_table k i) = tasks m i"
    and "pool_made m = create_count k" and "static_made m = test_count k"
  shows "manager_of k = m"
  using assms by (simp add: manager_of_def fun_eq_iff)

lemma entry_cong:
  "(\<And>r. process_table k i = Some r \<Longrightarrow> f r = g r) \<Longrightarrow> map_option f (process_table k i) = map_option g (process_table k i)"
  by (cases "process_table k i") auto

lemma task_of_created:
  assumes "kernel_process k \<noteq> Some r" and "current_process k \<noteq> Some r"
    and "pcb k r = created_pcb n (stored_name name @ 0 # rest) entry stack priority p"
  shows "task_of k r = new_task name priority"
  using assms by (simp add: task_of_def new_task_def) (simp add: stored_name_def)

lemma create_pool_simulates:
  assumes "manager_ok k" and "create_count k < 10" and "terminated name"
  shows "manager_ok (pool_created name entry priority k)"
    "manager_of (pool_created name entry priority k) = manage (Create name entry priority) (manager_of k)"
proof -
  let ?k = "pool_created name entry priority k" and ?r = "Create_pcb (create_count k)"
  note ok = manager_okD [OF assms(1)]
  have mono: "created k r \<Longrightarrow> created ?k r" for r using created_mono [of k r ?k] by simp
  have fresh: "\<not> created k ?r" by (rule not_created_next)
  show "manager_ok ?k"
    unfolding manager_ok_def
    using ok assms(2) mono table_ok_pool_created [OF ok(1) assms(2)] pool_ok_created [OF ok(2) assms(2)] by auto
  have "drop (length (stored_name name)) (p_name (pcb k ?r)) = 0 # replicate (63 - length (stored_name name)) 0"
    using ok(5) [of "create_count k"] length_stored_name [of name] by (simp add: replicate_Suc [symmetric] Suc_diff_le del: replicate_Suc)
  then have new: "task_of ?k ?r = new_task name priority"
    using ok(3,4) [of ?r] fresh by (intro task_of_created) auto
  have old: "task_of ?k r = task_of k r" if "process_table k i = Some r" for i r
  proof -
    have "r \<noteq> ?r" using ok(6) [OF that] fresh by blast
    then show ?thesis by (simp add: task_of_def)
  qed
  show "manager_of ?k = manage (Create name entry priority) (manager_of k)"
    using assms(2) new old by (intro manager_of_eqI) (auto simp: manager_of_def intro!: entry_cong)
qed

lemma create_static_simulates:
  assumes "manager_ok k" and "test_count k < 10" and "terminated name"
  shows "manager_ok (test_created L name entry priority k)"
    "manager_of (test_created L name entry priority k) = manage (Create_static name entry priority) (manager_of k)"
proof -
  let ?k = "test_created L name entry priority k" and ?r = "Test_pcb (test_count k)"
  note ok = manager_okD [OF assms(1)]
  have mono: "created k r \<Longrightarrow> created ?k r" for r using created_mono [of k r ?k] by simp
  have fresh: "\<not> created k ?r" by (rule not_created_next)
  show "manager_ok ?k"
    unfolding manager_ok_def
    using ok assms(2) mono table_ok_test_created [OF ok(1) assms(2)] by (auto simp: pool_ok_def)
  have new: "task_of ?k ?r = new_task name priority"
    using ok(3,4) [of ?r] fresh by (intro task_of_created) auto
  have old: "task_of ?k r = task_of k r" if "process_table k i = Some r" for i r
  proof -
    have "r \<noteq> ?r" using ok(6) [OF that] fresh by blast
    then show ?thesis by (simp add: task_of_def)
  qed
  show "manager_of ?k = manage (Create_static name entry priority) (manager_of k)"
    using assms(2) new old by (intro manager_of_eqI) (auto simp: manager_of_def intro!: entry_cong)
qed

lemma free_then_keeps:
  assumes "(if c then map_option (upd_pcb r f) (free_region L b k) else Some k) = Some k'"
    and "\<And>p. p_name (f p) = p_name p"
  shows "process_table k' = process_table k" "kernel_process k' = kernel_process k" "current_process k' = current_process k"
    "create_count k' = create_count k" "test_count k' = test_count k"
    "heap_ok (heap k') = heap_ok (heap k)" "heap_current (heap k') = heap_current (heap k)"
    "x \<noteq> r \<Longrightarrow> pcb k' x = pcb k x" "p_name (pcb k' x) = p_name (pcb k x)"
  using assms
  by (auto simp: free_region_def kfree_def Let_def pool_ok_def heap_ok_def split: if_splits)

text \<open>What a kill that is not refused does.\<close>

lemma kill_effect:
  assumes "table_ok k" and "process_kill_by_pid L pid k = Some (res, k')"
    and r: "process_table k pid = Some r" "pid \<noteq> 1" "kernel_process k \<noteq> Some r"
  shows "process_table k' = (process_table k)(pid := None)" "kernel_process k' = kernel_process k"
    "current_process k' = current_process k" "create_count k' = create_count k" "test_count k' = test_count k"
    "pool_ok k' = pool_ok k" "p_name (pcb k' x) = p_name (pcb k x)" "x \<noteq> r \<Longrightarrow> pcb k' x = pcb k x"
proof -
  obtain k1 k2 where
    k1: "(if p_stack_base (pcb k r) \<noteq> 0
          then map_option (upd_pcb r (\<lambda>p. p\<lparr>p_stack_base := 0, p_stack_size := 0\<rparr>))
                 (free_region L (p_stack_base (pcb k r)) k) else Some k) = Some k1" and
    k2: "(if p_heap_base (pcb k1 r) \<noteq> 0
          then map_option (upd_pcb r (\<lambda>p. p\<lparr>p_heap_base := 0, p_heap_size := 0\<rparr>))
                 (free_region L (p_heap_base (pcb k1 r)) k1) else Some k1) = Some k2" and
    k': "k' = (if pid < MAX_PROCESSES then set_table pid None (upd_pcb r (\<lambda>p. p\<lparr>p_state := PROCESS_TERMINATED\<rparr>) k2)
               else upd_pcb r (\<lambda>p. p\<lparr>p_state := PROCESS_TERMINATED\<rparr>) k2)"
    using assms(2) r find_entry [OF assms(1), of pid]
    by (cases "current_process k = kernel_process k")
       (auto simp: process_kill_by_pid_def Let_def Option.bind_eq_Some_conv simp del: process_consts split del: if_split)
  have pid: "pid < 256" using table_okD(1) [OF assms(1) r(1)] by (auto simp: word_le_nat_alt word_less_nat_alt)
  note f1 = free_then_keeps [OF k1] and f2 = free_then_keeps [OF k2]
  show "process_table k' = (process_table k)(pid := None)" "kernel_process k' = kernel_process k"
    "current_process k' = current_process k" "create_count k' = create_count k" "test_count k' = test_count k"
    "pool_ok k' = pool_ok k" "p_name (pcb k' x) = p_name (pcb k x)" "x \<noteq> r \<Longrightarrow> pcb k' x = pcb k x"
    using pid by (simp_all add: k' f1 f2 pool_ok_def)
qed

lemma kill_simulates:
  assumes "manager_ok k" and "process_kill_by_pid L pid k = Some (res, k')"
  shows "manager_ok k'" "manager_of k' = manage (Kill pid) (manager_of k)"
proof -
  note ok = manager_okD [OF assms(1)]
  have "manager_ok k' \<and> manager_of k' = manage (Kill pid) (manager_of k)"
  proof (cases "pid = 1 \<or> process_table k pid = None \<or> process_table k pid = kernel_process k")
    case True
    then have s: "same_core k' k"
      using assms(2) find_entry [OF ok(1), of pid] by (auto simp: process_kill_by_pid_def split: if_splits option.splits)
    then have "manage (Kill pid) (manager_of k) = manager_of k"
      using True by (auto simp: manager_of_def task_of_def split: option.splits)
    then show ?thesis using s assms(1) by (simp add: manager_ok_same_core manager_of_same_core)
  next
    case False
    then obtain r where r: "process_table k pid = Some r" "pid \<noteq> 1" "kernel_process k \<noteq> Some r" by auto
    note f = kill_effect [OF ok(1) assms(2) r]
    have "manager_ok k'"
      by (rule manager_ok_frame [OF assms(1) table_ok_kill [OF ok(1) assms(2)]]) (use f ok in simp_all)
    moreover have "manager_of k' = manage (Kill pid) (manager_of k)"
    proof (intro manager_of_eqI)
      fix i
      show "map_option (task_of k') (process_table k' i) = tasks (manage (Kill pid) (manager_of k)) i"
      proof (cases "i = pid \<or> process_table k i = None")
        case False
        then obtain x where x: "process_table k i = Some x" "i \<noteq> pid" by auto
        then have "x \<noteq> r" using entry_unique [OF ok(1) x(1)] r(1) by blast
        then show ?thesis using x r by (simp add: f manager_of_def task_of_def)
      qed (use r in \<open>auto simp: f manager_of_def task_of_def\<close>)
    qed (use r in \<open>simp_all add: f manager_of_def task_of_def\<close>)
    ultimately show ?thesis by blast
  qed
  then show "manager_ok k'" "manager_of k' = manage (Kill pid) (manager_of k)" by simp_all
qed

lemma set_status_simulates:
  assumes "manager_ok k"
  shows "manager_ok (snd (process_set_status pid s k))"
    "manager_of (snd (process_set_status pid s k)) = manage (Set_status pid s) (manager_of k)"
proof -
  note ok = manager_okD [OF assms(1)]
  let ?k = "snd (process_set_status pid s k)"
  have f: "kernel_process ?k = kernel_process k" "current_process ?k = current_process k" "create_count ?k = create_count k"
    "test_count ?k = test_count k" "process_table ?k = process_table k" "heap ?k = heap k"
    "p_name (pcb ?k r) = p_name (pcb k r)" for r
    by (simp_all add: process_set_status_def split: option.splits)
  show "manager_ok ?k"
    by (rule manager_ok_frame [OF assms]) (use ok f in \<open>simp_all add: table_ok_set_status pool_ok_def\<close>)
  show "manager_of ?k = manage (Set_status pid s) (manager_of k)"
  proof (intro manager_of_eqI)
    fix i
    show "map_option (task_of ?k) (process_table ?k i) = tasks (manage (Set_status pid s) (manager_of k)) i"
      using entry_unique [OF ok(1), of i _ pid]
      by (cases "process_table k i"; cases "process_table k pid")
         (auto simp: f process_set_status_def find_entry [OF ok(1)] manager_of_def task_of_def split: process_state.splits)
  qed (simp_all add: f manager_of_def)
qed

lemma reap_simulates:
  assumes "manager_ok k"
  shows "manager_ok (process_cleanup (process_find_by_pid pid k) k)"
    "manager_of (process_cleanup (process_find_by_pid pid k) k) = manage (Reap pid) (manager_of k)"
proof -
  note ok = manager_okD [OF assms(1)]
  let ?k = "process_cleanup (process_find_by_pid pid k) k"
  have "manager_ok ?k \<and> manager_of ?k = manage (Reap pid) (manager_of k)"
  proof (cases "process_table k pid")
    case None
    then show ?thesis
      using assms by (auto simp: find_entry [OF ok(1)] process_cleanup_def manager_of_def fun_eq_iff)
  next
    case (Some r)
    have pid: "p_pid (pcb k r) = pid" "pid < 256"
      using table_okD(1) [OF ok(1) Some] by (auto simp: word_le_nat_alt word_less_nat_alt)
    have f: "process_table ?k = (process_table k)(pid := None)" "kernel_process ?k = kernel_process k"
      "current_process ?k = current_process k" "create_count ?k = create_count k" "test_count ?k = test_count k"
      "heap ?k = heap k" "x \<noteq> r \<Longrightarrow> unlink (pcb ?k x) = unlink (pcb k x)" for x
      using pid by (simp_all add: find_entry [OF ok(1)] Some process_cleanup_def Let_def)
    have t: "task_of ?k x = task_of k x" if "x \<noteq> r" for x
      using unlink_eqD [OF f(7) [OF that]] by (simp add: task_of_def f)
    have "manager_ok ?k"
    proof (rule manager_ok_frame [OF assms table_ok_cleanup [OF ok(1)]])
      show "p_name (pcb ?k x) = p_name (pcb k x)" if "\<not> created k x" for x
      proof -
        have "x \<noteq> r" using ok(6) [OF Some] that by blast
        then show ?thesis using unlink_eqD [OF f(7)] by blast
      qed
    qed (use f ok in \<open>simp_all add: pool_ok_def\<close>)
    moreover have "manager_of ?k = manage (Reap pid) (manager_of k)"
    proof (intro manager_of_eqI)
      fix i
      show "map_option (task_of ?k) (process_table ?k i) = tasks (manage (Reap pid) (manager_of k)) i"
        using entry_unique [OF ok(1), of i r pid] Some t
        by (cases "process_table k i") (auto simp: f manager_of_def)
    qed (simp_all add: f manager_of_def)
    ultimately show ?thesis by blast
  qed
  then show "manager_ok ?k" "manager_of ?k = manage (Reap pid) (manager_of k)" by simp_all
qed

lemma exit_simulates:
  assumes "manager_ok k"
  shows "manager_ok (process_exit code k)" "manager_of (process_exit code k) = manage (Exit code) (manager_of k)"
proof -
  note ok = manager_okD [OF assms(1)]
  let ?k = "process_exit code k"
  have f: "kernel_process ?k = kernel_process k" "current_process ?k = current_process k" "create_count ?k = create_count k"
    "test_count ?k = test_count k" "process_table ?k = process_table k" "heap ?k = heap k"
    "p_name (pcb ?k r) = p_name (pcb k r)" for r
    by (simp_all add: process_exit_def split: option.splits)
  show "manager_ok ?k"
    by (rule manager_ok_frame [OF assms]) (use ok f in \<open>simp_all add: table_ok_exit pool_ok_def\<close>)
  have "task_of ?k r = end_running (task_of k r)" for r
    by (auto simp: task_of_def end_running_def process_exit_def split: option.splits)
  then show "manager_of ?k = manage (Exit code) (manager_of k)"
    by (intro manager_of_eqI) (auto simp: f manager_of_def option.map_comp intro!: entry_cong)
qed

lemma create_simulates:
  assumes ok: "manager_ok k" and "terminated name" and t: "process_create L (Some name) entry priority k = Some (r, t)"
  shows "manager_ok t" "manager_of t = manage (Create name entry priority) (manager_of k)"
proof -
  have "manager_ok t \<and> manager_of t = manage (Create name entry priority) (manager_of k)"
  proof (cases "create_count k < 10")
    case True
    have "same_core t (pool_created name entry priority k)"
      using process_create_creates [OF manager_okD(2) [OF ok] True assms(2), of L entry priority] t
        arrays_okD(1) [OF table_okD(4) [OF manager_okD(1) [OF ok]]] by auto
    then show ?thesis
      using create_pool_simulates [OF ok True assms(2)] by (simp add: manager_ok_same_core manager_of_same_core)
  next
    case False
    then have "same_core t k" using process_create_full [of k L name entry priority] t by auto
    then show ?thesis using False ok by (simp add: manager_ok_same_core manager_of_same_core) (simp add: manager_of_def)
  qed
  then show "manager_ok t" "manager_of t = manage (Create name entry priority) (manager_of k)" by simp_all
qed

lemma create_test_simulates:
  assumes ok: "manager_ok k" and "terminated name" and t: "process_create_test L (Some name) entry priority k = Some (r, t)"
  shows "manager_ok t" "manager_of t = manage (Create_static name entry priority) (manager_of k)"
proof -
  have "manager_ok t \<and> manager_of t = manage (Create_static name entry priority) (manager_of k)"
  proof (cases "test_count k < 10")
    case True
    have "same_core t (test_created L name entry priority k)"
      using process_create_test_creates [OF True assms(2), of L entry priority] t
        arrays_okD(1) [OF table_okD(4) [OF manager_okD(1) [OF ok]]] by auto
    then show ?thesis
      using create_static_simulates [OF ok True assms(2)] by (simp add: manager_ok_same_core manager_of_same_core)
  next
    case False
    then have "same_core t k" using process_create_test_full [of k L "Some name" entry priority] t by auto
    then show ?thesis using False ok by (simp add: manager_ok_same_core manager_of_same_core) (simp add: manager_of_def)
  qed
  then show "manager_ok t" "manager_of t = manage (Create_static name entry priority) (manager_of k)" by simp_all
qed

lemma perform_op_simulates:
  assumes "manager_ok s" and "named a" and "perform_op L a s = Some t"
  shows "manager_ok t" "manager_of t = manage a (manager_of s)"
  using assms(2,3) create_simulates [OF assms(1)] create_test_simulates [OF assms(1)] kill_simulates [OF assms(1)]
    set_status_simulates [OF assms(1)] reap_simulates [OF assms(1)] exit_simulates [OF assms(1)]
  by (cases a; auto simp del: manage.simps)+

lemma process_create_returns:
  assumes "manager_ok k" and "terminated name"
  shows "\<exists>r t. process_create L (Some name) entry priority k = Some (r, t)"
    "\<exists>r t. process_create_test L (Some name) entry priority k = Some (r, t)"
proof -
  note len = arrays_okD(1) [OF table_okD(4) [OF manager_okD(1) [OF assms(1)]]]
  show "\<exists>r t. process_create L (Some name) entry priority k = Some (r, t)"
    using process_create_creates [OF manager_okD(2) [OF assms(1)] _ assms(2) len] process_create_full [of k]
    by (cases "create_count k < 10") fastforce+
  show "\<exists>r t. process_create_test L (Some name) entry priority k = Some (r, t)"
    using process_create_test_creates [OF _ assms(2) len] process_create_test_full [of k]
    by (cases "test_count k < 10") fastforce+
qed

lemma perform_op_returns:
  "manager_ok k \<Longrightarrow> named a \<Longrightarrow> frees_nothing a \<Longrightarrow> \<exists>t. perform_op L a k = Some t"
  by (cases a) (use process_create_returns in \<open>fastforce+\<close>)

interpretation process_manager: total_simulation "perform_op L" manage manager_of manager_ok named frees_nothing
  by unfold_locales (simp_all add: perform_op_simulates perform_op_returns)

section \<open>Refinement\<close>

lemma manager_of_zero: "manager_of zero_kstate = \<lparr>tasks = (\<lambda>_. None), pool_made = 0, static_made = 0\<rparr>"
  by (simp add: manager_of_def zero_kstate_def)

lemma manager_ok_zero: "manager_ok zero_kstate"
  by (simp add: manager_ok_def zero_kstate_table zero_kstate_pool) (simp add: zero_kstate_def zero_process_def)

definition sample_ops :: "manager_op list" where
  "sample_ops =
     [Create_static (c_literal ''init'') 0x2000 PRIORITY_HIGH, Create (c_literal ''shell'') 0x3000 PRIORITY_NORMAL,
      Create_static (c_literal ''calc'') 0x4000 PRIORITY_LOW, Set_status 2 PROCESS_BLOCKED, Reap 1]"

lemma sample_ops_allowed: "list_all named sample_ops" "list_all frees_nothing sample_ops"
  by (simp_all add: sample_ops_def)

text \<open>
  C4. The process manager implements a table of tasks: from a well-formed state, any sequence of creations,
  kills, state changes, reaps and exits leads to a well-formed state whose table is the one the specification
  computes, entry by entry - names cut to 63 characters, protected processes surviving a kill, full pools
  creating nothing - and a sequence without kills always returns.
\<close>

theorem process_manager_refines:
  assumes "manager_ok k" and "list_all named ops"
  shows "(run_ops (perform_op L) ops k = Some k' \<longrightarrow> manager_ok k' \<and> manager_of k' = fold manage ops (manager_of k)) \<and>
    (list_all frees_nothing ops \<longrightarrow> run_ops (perform_op L) ops k \<noteq> None)"
  using process_manager.run_simulates [OF assms] process_manager.run_returns [OF assms] by auto

theorem process_manager_refines_witness:
  "\<exists>k'. run_ops (perform_op sample_layout) sample_ops zero_kstate = Some k' \<and> tasks (manager_of k') 1 = None \<and>
     map_option t_name (tasks (manager_of k') 2) = Some (c_chars ''calc'') \<and>
     map_option t_state (tasks (manager_of k') 2) = Some PROCESS_BLOCKED"
proof -
  note refines = process_manager_refines [OF manager_ok_zero sample_ops_allowed(1), of sample_layout]
  obtain k' where k': "run_ops (perform_op sample_layout) sample_ops zero_kstate = Some k'"
    using refines sample_ops_allowed(2) by blast
  then have final: "manager_of k' = fold manage sample_ops (manager_of zero_kstate)" using refines by blast
  have "tasks (manager_of k') 1 = None" "map_option t_name (tasks (manager_of k') 2) = Some (c_chars ''calc'')"
    "map_option t_state (tasks (manager_of k') 2) = Some PROCESS_BLOCKED"
    by (simp_all add: final sample_ops_def manager_of_zero new_task_def)
  then show ?thesis using k' by blast
qed

end
