(* ===== verification/X86.thy ===== *)
theory X86
  imports Memory
begin

text \<open>
  The part of the processor that \<open>kernel/arch/context_switch.asm\<close>, \<open>kernel/arch/interrupts.asm\<close> and
  \<open>kernel/boot.asm\<close> use: eight registers, the segment registers, the flags, byte addressed memory, the interrupt table
  register and the I/O ports, and the instructions of their routines. A listing is a list of
  instructions; where they are placed in memory (\<open>code_at\<close>), the address of the C variable
  \<open>current_process\<close>, what the C functions do that the assembly calls (\<open>c_function\<close>: the state after their
  \<open>ret\<close>, or \<open>None\<close> if they never return) and the flags an arithmetic instruction leaves other than ZF
  are parameters, collected in \<open>asm_env\<close>. Segment and page faults are not modelled: a load of a segment
  register sets it.
\<close>

section \<open>State\<close>

datatype reg = EAX | EBX | ECX | EDX | ESI | EDI | ESP | EBP
datatype sreg = CS | DS | ES | FS | GS | SS

text \<open>The C functions the assembly calls.\<close>

datatype c_symbol = C_exception_handler | C_timer_handler | C_scheduler_tick | C_kernel_main

text \<open>
  Control is at an instruction of the listing, has left it for an address outside, or stays in a C function
  that never returns.
\<close>

datatype control = At nat | Outside u32 | Inside c_symbol

record cpu =
  control :: control
  regs :: "reg \<Rightarrow> u32"
  segs :: "sreg \<Rightarrow> u16"
  eflags :: u32
  mem :: "u32 \<Rightarrow> u8"
  idtr :: "u16 \<times> u32"
  ports :: "(u16 \<times> u8) list"

record asm_env =
  code_at :: "nat \<Rightarrow> u32"
  current_process_addr :: u32
  other_flags :: "u32 \<Rightarrow> u32 \<Rightarrow> u32 \<Rightarrow> u32"
  c_function :: "c_symbol \<Rightarrow> cpu \<Rightarrow> cpu option"

datatype instr =
    Push reg | Push_abs u32 | Pop reg | Mov reg reg
  | Load reg reg u32 | Store reg u32 reg | Store_abs u32 reg
  | Load16 reg reg u32 | Store16 reg u32 reg
  | From_seg reg sreg | To_seg sreg reg
  | Add_imm reg u32 | Test reg | Jz nat
  | Pushf | Popf | Call nat | Ret | Jmp_mem reg u32
  | Pusha | Popa | Push_seg sreg | Pop_seg sreg | Mov_imm16 reg u16 | Mov_imm8 reg u8
  | Out8 u16 reg | Lidt reg | Call_c c_symbol | Iret
  | Mov_imm reg u32 | Jmp nat | Cli | Hlt

section \<open>Accesses\<close>

definition read16 :: "(u32 \<Rightarrow> u8) \<Rightarrow> u32 \<Rightarrow> u16" where
  "read16 m a = ucast (m a) OR push_bit 8 (ucast (m (a + 1)))"

definition write16 :: "u32 \<Rightarrow> u16 \<Rightarrow> (u32 \<Rightarrow> u8) \<Rightarrow> (u32 \<Rightarrow> u8)" where
  "write16 a w m = m(a := ucast w, a + 1 := ucast (drop_bit 8 w))"

text \<open>\<open>mov ax, x\<close> keeps the upper half of \<open>eax\<close>, \<open>mov al, x\<close> its upper three bytes.\<close>

definition low16 :: "u16 \<Rightarrow> u32 \<Rightarrow> u32" where
  "low16 v w = (w AND NOT (mask 16)) OR ucast v"

definition low8 :: "u8 \<Rightarrow> u32 \<Rightarrow> u32" where
  "low8 v w = (w AND NOT (mask 8)) OR ucast v"

definition set_reg :: "reg \<Rightarrow> u32 \<Rightarrow> cpu \<Rightarrow> cpu" where
  "set_reg r w s = s\<lparr>regs := (regs s)(r := w)\<rparr>"

definition push32 :: "u32 \<Rightarrow> cpu \<Rightarrow> cpu" where
  "push32 w s =
     (let esp = regs s ESP - 4
      in s\<lparr>regs := (regs s)(ESP := esp), mem := write32 esp w (mem s)\<rparr>)"

text \<open>The word on top of the stack, and the state after it is popped.\<close>

definition top32 :: "cpu \<Rightarrow> u32" where
  "top32 s = read32 (mem s) (regs s ESP)"

definition drop_top :: "cpu \<Rightarrow> cpu" where
  "drop_top s = set_reg ESP (regs s ESP + 4) s"

text \<open>
  \<open>pusha\<close> pushes the stack pointer as it was before; \<open>popa\<close> skips it.
\<close>

definition push_all :: "cpu \<Rightarrow> cpu" where
  "push_all s = fold push32 [regs s EAX, regs s ECX, regs s EDX, regs s EBX, regs s ESP, regs s EBP, regs s ESI, regs s EDI] s"

definition pop_all :: "cpu \<Rightarrow> cpu" where
  "pop_all s =
     (let esp = regs s ESP; word = (\<lambda>d. read32 (mem s) (esp + d))
      in s\<lparr>regs := (regs s)(EDI := word 0, ESI := word 4, EBP := word 8, EBX := word 16, EDX := word 20,
                            ECX := word 24, EAX := word 28, ESP := esp + 32)\<rparr>)"

text \<open>Setting ZF, bit 6 of the flags.\<close>

definition flags_of :: "asm_env \<Rightarrow> u32 \<Rightarrow> u32 \<Rightarrow> u32 \<Rightarrow> u32 \<Rightarrow> u32" where
  "flags_of C old a b result =
     (if result = 0 then set_bit 6 (other_flags C old a b) else unset_bit 6 (other_flags C old a b))"

lemma bit_flags_of [simp]: "bit (flags_of C old a b r) 6 \<longleftrightarrow> r = 0"
  by (simp add: flags_of_def bit_set_bit_iff bit_unset_bit_iff)

section \<open>Steps\<close>

text \<open>The control state for an address: an instruction of the listing of length \<open>n\<close>, or outside it.\<close>

definition goto :: "asm_env \<Rightarrow> nat \<Rightarrow> u32 \<Rightarrow> control" where
  "goto C n a = (case find (\<lambda>i. code_at C i = a) [0..<n] of Some i \<Rightarrow> At i | None \<Rightarrow> Outside a)"

fun exec_instr :: "asm_env \<Rightarrow> nat \<Rightarrow> nat \<Rightarrow> instr \<Rightarrow> cpu \<Rightarrow> cpu" where
  "exec_instr C n i (Push r) s = (push32 (regs s r) s)\<lparr>control := At (Suc i)\<rparr>"
| "exec_instr C n i (Push_abs a) s = (push32 (read32 (mem s) a) s)\<lparr>control := At (Suc i)\<rparr>"
| "exec_instr C n i (Pop r) s = (set_reg r (top32 s) (drop_top s))\<lparr>control := At (Suc i)\<rparr>"
| "exec_instr C n i (Mov r r') s = (set_reg r (regs s r') s)\<lparr>control := At (Suc i)\<rparr>"
| "exec_instr C n i (Load r b d) s = (set_reg r (read32 (mem s) (regs s b + d)) s)\<lparr>control := At (Suc i)\<rparr>"
| "exec_instr C n i (Store b d r) s =
     s\<lparr>mem := write32 (regs s b + d) (regs s r) (mem s), control := At (Suc i)\<rparr>"
| "exec_instr C n i (Store_abs a r) s = s\<lparr>mem := write32 a (regs s r) (mem s), control := At (Suc i)\<rparr>"
| "exec_instr C n i (Load16 r b d) s =
     (set_reg r (low16 (read16 (mem s) (regs s b + d)) (regs s r)) s)\<lparr>control := At (Suc i)\<rparr>"
| "exec_instr C n i (Store16 b d r) s =
     s\<lparr>mem := write16 (regs s b + d) (ucast (regs s r)) (mem s), control := At (Suc i)\<rparr>"
| "exec_instr C n i (From_seg r g) s = (set_reg r (low16 (segs s g) (regs s r)) s)\<lparr>control := At (Suc i)\<rparr>"
| "exec_instr C n i (To_seg g r) s = s\<lparr>segs := (segs s)(g := ucast (regs s r)), control := At (Suc i)\<rparr>"
| "exec_instr C n i (Add_imm r w) s =
     (set_reg r (regs s r + w) s)\<lparr>eflags := flags_of C (eflags s) (regs s r) w (regs s r + w), control := At (Suc i)\<rparr>"
| "exec_instr C n i (Test r) s =
     s\<lparr>eflags := flags_of C (eflags s) (regs s r) (regs s r) (regs s r), control := At (Suc i)\<rparr>"
| "exec_instr C n i (Jz l) s = s\<lparr>control := At (if bit (eflags s) 6 then l else Suc i)\<rparr>"
| "exec_instr C n i Pushf s = (push32 (eflags s) s)\<lparr>control := At (Suc i)\<rparr>"
| "exec_instr C n i Popf s = (drop_top s)\<lparr>eflags := top32 s, control := At (Suc i)\<rparr>"
| "exec_instr C n i (Call l) s = (push32 (code_at C (Suc i)) s)\<lparr>control := At l\<rparr>"
| "exec_instr C n i Ret s = (drop_top s)\<lparr>control := goto C n (top32 s)\<rparr>"
| "exec_instr C n i (Jmp_mem b d) s = s\<lparr>control := goto C n (read32 (mem s) (regs s b + d))\<rparr>"
| "exec_instr C n i Pusha s = (push_all s)\<lparr>control := At (Suc i)\<rparr>"
| "exec_instr C n i Popa s = (pop_all s)\<lparr>control := At (Suc i)\<rparr>"
| "exec_instr C n i (Push_seg g) s = (push32 (ucast (segs s g)) s)\<lparr>control := At (Suc i)\<rparr>"
| "exec_instr C n i (Pop_seg g) s =
     (drop_top s)\<lparr>segs := (segs s)(g := read16 (mem s) (regs s ESP)), control := At (Suc i)\<rparr>"
| "exec_instr C n i (Mov_imm16 r v) s = (set_reg r (low16 v (regs s r)) s)\<lparr>control := At (Suc i)\<rparr>"
| "exec_instr C n i (Mov_imm8 r v) s = (set_reg r (low8 v (regs s r)) s)\<lparr>control := At (Suc i)\<rparr>"
| "exec_instr C n i (Out8 p r) s = s\<lparr>ports := ports s @ [(p, ucast (regs s r))], control := At (Suc i)\<rparr>"
| "exec_instr C n i (Lidt r) s =
     s\<lparr>idtr := (read16 (mem s) (regs s r), read32 (mem s) (regs s r + 2)), control := At (Suc i)\<rparr>"
| "exec_instr C n i (Call_c f) s =
     (let u = push32 (code_at C (Suc i)) s
      in case c_function C f u of None \<Rightarrow> u\<lparr>control := Inside f\<rparr> | Some t \<Rightarrow> t\<lparr>control := At (Suc i)\<rparr>)"
| "exec_instr C n i Iret s =
     (let esp = regs s ESP
      in s\<lparr>regs := (regs s)(ESP := esp + 12), segs := (segs s)(CS := read16 (mem s) (esp + 4)),
           eflags := read32 (mem s) (esp + 8), control := goto C n (read32 (mem s) esp)\<rparr>)"
| "exec_instr C n i (Mov_imm r w) s = (set_reg r w s)\<lparr>control := At (Suc i)\<rparr>"
| "exec_instr C n i (Jmp l) s = s\<lparr>control := At l\<rparr>"
| "exec_instr C n i Cli s = s\<lparr>eflags := unset_bit 9 (eflags s), control := At (Suc i)\<rparr>"
| "exec_instr C n i Hlt s = s\<lparr>control := At (if bit (eflags s) 9 then Suc i else i)\<rparr>"

text \<open>Outside the listing nothing happens: the C code there is not part of it.\<close>

definition asm_step :: "asm_env \<Rightarrow> instr list \<Rightarrow> cpu \<Rightarrow> cpu" where
  "asm_step C prog s =
     (case control s of
        At i \<Rightarrow> if i < length prog then exec_instr C (length prog) i (prog ! i) s else s
      | _ \<Rightarrow> s)"

text \<open>\<open>n\<close> instructions.\<close>

definition asm_run :: "asm_env \<Rightarrow> instr list \<Rightarrow> nat \<Rightarrow> cpu \<Rightarrow> cpu" where
  "asm_run C prog n s = (asm_step C prog ^^ n) s"

lemma asm_run_simps [simp]:
  "asm_run C prog 0 s = s" "asm_run C prog (Suc n) s = asm_run C prog n (asm_step C prog s)"
  by (simp_all add: asm_run_def funpow_swap1)

lemma asm_run_add: "asm_run C prog (m + n) s = asm_run C prog n (asm_run C prog m s)"
  by (induction m arbitrary: s) simp_all

text \<open>A machine that has left the listing stays outside.\<close>

lemma asm_run_outside: "control s = Outside a \<Longrightarrow> control (asm_run C prog n s) = Outside a"
  by (induction n arbitrary: s) (simp_all add: asm_step_def)

lemma asm_run_stays: "control s = Inside f \<Longrightarrow> asm_run C prog n s = s"
  by (induction n) (simp_all add: asm_step_def)

lemma asm_run_inside:
  assumes "control (asm_run C prog m s) = At i" and "n \<le> m"
  shows "\<exists>j. control (asm_run C prog n s) = At j"
proof (cases "control (asm_run C prog n s)")
  case (Outside a)
  then show ?thesis
    using asm_run_outside [OF Outside, of C prog "m - n"] assms by (simp add: asm_run_add [symmetric])
next
  case (Inside f)
  then show ?thesis
    using asm_run_stays [OF Inside, of C prog "m - n"] assms by (simp add: asm_run_add [symmetric])
qed simp

lemma goto_At:
  assumes "inj_on (code_at C) {..<n}" and "i < n"
  shows "goto C n (code_at C i) = At i"
proof -
  have "find (\<lambda>j. code_at C j = code_at C i) [0..<n] = Some i"
    using assms unfolding find_Some_iff
    by (intro exI [of _ i]) (auto simp: inj_on_def)
  then show ?thesis by (simp add: goto_def)
qed

lemma goto_Outside: "\<forall>i<n. code_at C i \<noteq> a \<Longrightarrow> goto C n a = Outside a"
  by (simp add: goto_def find_None_iff [THEN iffD2])

text \<open>Straight line code: a block of a listing without jumps runs instruction by instruction.\<close>

fun straight :: "instr \<Rightarrow> bool" where
  "straight (Jz l) = False" | "straight (Call l) = False" | "straight Ret = False"
| "straight (Call_c f) = False" | "straight Iret = False" | "straight (Jmp l) = False" | "straight Hlt = False"
| "straight (Jmp_mem b d) = False" | "straight _ = True"

fun run_block :: "asm_env \<Rightarrow> nat \<Rightarrow> nat \<Rightarrow> instr list \<Rightarrow> cpu \<Rightarrow> cpu" where
  "run_block C n i [] s = s"
| "run_block C n i (c # cs) s = run_block C n (Suc i) cs (exec_instr C n i c s)"

lemma control_straight: "straight c \<Longrightarrow> control (exec_instr C n i c s) = At (Suc i)"
  by (cases c) simp_all

lemma asm_run_block:
  "\<lbrakk>control s = At i; drop i prog = cs @ rest; list_all straight (butlast cs); n = length cs\<rbrakk>
   \<Longrightarrow> asm_run C prog n s = run_block C (length prog) i cs s"
proof (induction cs arbitrary: i s n)
  case Nil
  then show ?case by simp
next
  case (Cons c cs)
  have i: "i < length prog" "prog ! i = c" "drop (Suc i) prog = cs @ rest"
    using Cons.prems(2) by (cases "i < length prog"; simp add: Cons_nth_drop_Suc [symmetric])+
  then have step: "asm_step C prog s = exec_instr C (length prog) i c s"
    using Cons.prems(1) by (simp add: asm_step_def)
  show ?case
  proof (cases "cs = []")
    case True
    then show ?thesis using Cons.prems step by simp
  next
    case False
    then have "straight c" "list_all straight (butlast cs)" using Cons.prems(3) by simp_all
    then show ?thesis
      using Cons.IH [OF control_straight i(3)] Cons.prems(4) step by simp
  qed
qed

lemma run_block_append: "run_block C n i (xs @ ys) s = run_block C n (i + length xs) ys (run_block C n i xs s)"
  by (induction xs arbitrary: i s) simp_all

lemma asm_call_c:
  assumes "control s = At i" and "drop i prog = Call_c f # rest"
  shows "asm_run C prog 1 s = exec_instr C (length prog) i (Call_c f) s"
proof -
  have "i < length prog" "prog ! i = Call_c f"
    using assms(2) by (cases "i < length prog"; simp add: Cons_nth_drop_Suc [symmetric])+
  then show ?thesis using assms(1) by (simp add: asm_step_def)
qed

lemma asm_run_stuck:
  assumes "control (asm_run C prog m s) = Inside f" and "m \<le> n"
  shows "asm_run C prog n s = asm_run C prog m s"
proof -
  have "asm_run C prog (m + (n - m)) s = asm_run C prog m s" unfolding asm_run_add by (rule asm_run_stays [OF assms(1)])
  then show ?thesis using assms(2) by simp
qed

section \<open>Memory\<close>

text \<open>Two addresses at least \<open>n\<close> bytes from each other, around the end of the address space too.\<close>

definition apart :: "nat \<Rightarrow> u32 \<Rightarrow> u32 \<Rightarrow> bool" where
  "apart n a b \<longleftrightarrow> n \<le> unat (a - b) \<and> n \<le> unat (b - a)"

lemma unat_minus_sum:
  assumes "(a :: u32) \<noteq> b"
  shows "unat (a - b) + unat (b - a) = 4294967296"
proof -
  have n: "0 < unat (a - b)" using assms by (simp add: unat_gt_0)
  have "(of_nat (4294967296 - unat (a - b)) :: u32) = of_nat 4294967296 - of_nat (unat (a - b))"
    using unat_lt_u32 [of "a - b"] by (intro of_nat_diff) simp
  also have "\<dots> = b - a" by simp
  finally have "unat (b - a) = 4294967296 - unat (a - b)"
    using n unat_of_nat_u32 [of "4294967296 - unat (a - b)"] by simp
  then show ?thesis using unat_lt_u32 [of "a - b"] by simp
qed

lemma apart_neq: "apart n a b \<Longrightarrow> 0 < n \<Longrightarrow> a \<noteq> b"
  by (auto simp: apart_def)

lemma apart_bytes:
  assumes "apart 4 a b" and "i < 4"
  shows "4 \<le> unat (b + of_nat i - a)"
proof -
  have s: "unat (b - a) + 4 \<le> 4294967296"
    using unat_minus_sum [OF apart_neq [OF assms(1)]] assms(1) by (simp add: apart_def)
  have "b + of_nat i - a = (b - a) + of_nat i" by simp
  moreover have "unat ((b - a) + of_nat i) = unat (b - a) + i"
    using s assms(2) by (subst unat_plus_u32) simp_all
  ultimately have "unat (b + of_nat i - a) = unat (b - a) + i" by (simp only:)
  then show ?thesis using assms(1) by (simp add: apart_def)
qed

lemma read32_write32_other: "apart 4 a b \<Longrightarrow> read32 (write32 a w m) b = read32 m b"
  using apart_bytes [of a b 0] apart_bytes [of a b 1] apart_bytes [of a b 2] apart_bytes [of a b 3]
  by (intro read32_cong) (simp_all add: write32_other)

lemma write16_other: "4 \<le> unat (x - a) \<Longrightarrow> write16 a w m x = m x"
  by (auto simp: write16_def)

lemma read32_write16_other: "apart 4 a b \<Longrightarrow> read32 (write16 a w m) b = read32 m b"
  using apart_bytes [of a b 0] apart_bytes [of a b 1] apart_bytes [of a b 2] apart_bytes [of a b 3]
  by (intro read32_cong) (simp_all add: write16_other)

lemma read16_write32_other: "apart 4 a b \<Longrightarrow> read16 (write32 a w m) b = read16 m b"
  using apart_bytes [of a b 0] apart_bytes [of a b 1] by (simp add: read16_def write32_other)

lemma read16_write16_other: "apart 4 a b \<Longrightarrow> read16 (write16 a w m) b = read16 m b"
  using apart_bytes [of a b 0] apart_bytes [of a b 1] by (simp add: read16_def write16_other)

lemma read16_write16_beside:
  assumes "2 \<le> unat (a - b)" and "2 \<le> unat (b - a)"
  shows "read16 (write16 a w m) b = read16 m b"
proof -
  have "a \<noteq> b" "a \<noteq> b + 1" "b \<noteq> a + 1" using assms by auto
  then show ?thesis by (auto simp: read16_def write16_def)
qed

lemma ucast_halfword:
  "ucast (ucast (lo :: u8) OR push_bit 8 (ucast (hi :: u8)) :: u16) = (ucast lo OR push_bit 8 (ucast hi) :: u32)"
  by (intro bit_word_eqI) (auto simp: bit_simps dest: bit_imp_le_length)

lemma read32_halves: "read32 m a = ucast (read16 m a) OR push_bit 16 (ucast (read16 m (a + 2)))"
proof -
  have "a + 2 + 1 = a + 3" by simp
  then show ?thesis
    unfolding read32_def read16_def ucast_halfword by (simp only: push_bit_or push_bit_push_bit or.assoc) simp
qed

lemma read16_write16: "read16 (write16 a w m) a = w"
proof -
  have "(a + 1 :: u32) \<noteq> a" by simp
  then show ?thesis
    by (intro bit_word_eqI) (auto simp: read16_def write16_def bit_simps)
qed

lemma read16_ucast: "read16 (write32 a (ucast w) m) a = w"
proof -
  have "a + 1 \<noteq> a" "a + 2 \<noteq> a" "a + 3 \<noteq> a" "a + 2 \<noteq> a + 1" "a + 3 \<noteq> a + 1" for a :: u32 by simp_all
  then show ?thesis by (intro bit_word_eqI) (auto simp: read16_def write32_def bit_simps)
qed

lemma ucast_low8 [simp]: "ucast (low8 v w) = v"
  by (intro bit_word_eqI) (auto simp: low8_def bit_simps)

lemma ucast_low16 [simp]: "ucast (low16 v w) = v"
  by (intro bit_word_eqI) (auto simp: low16_def bit_simps)

text \<open>Moving two addresses by at most 128 bytes brings them at most 256 bytes closer.\<close>

lemma apart_shift:
  assumes "apart n p q" and "256 < n" and "x - p + 128 \<le> 256" and "y - q + 128 \<le> 256"
  shows "apart (n - 256) x y"
proof -
  define i j d where "i = x - p + 128" and "j = y - q + 128" and "d = x - y"
  have i: "unat i \<le> 256" and j: "unat j \<le> 256"
    using assms(3,4) by (simp_all add: i_def j_def word_le_nat_alt)
  have s: "unat (p - q) + unat (q - p) = 4294967296"
    using unat_minus_sum [OF apart_neq [OF assms(1)]] assms(2) by simp
  have "d + j = (p - q) + i" by (simp add: d_def i_def j_def)
  moreover have "unat ((p - q) + i) = unat (p - q) + unat i"
    using s i assms(1,2) by (intro unat_plus_u32) (simp add: apart_def)
  ultimately have dj: "unat (d + j) = unat (p - q) + unat i" by (simp only:)
  have "j \<le> d + j" using dj j assms(1,2) by (simp add: word_le_nat_alt apart_def)
  then have "unat d = unat (d + j) - unat j" using unat_sub [of j "d + j"] by simp
  then have 1: "unat d = unat (p - q) + unat i - unat j" using dj by simp
  then have "x \<noteq> y" using assms(1,2) j by (auto simp: apart_def d_def)
  then have "unat d + unat (y - x) = 4294967296"
    using unat_minus_sum [of x y] by (simp add: d_def)
  then have "n - 256 \<le> unat d" "n - 256 \<le> unat (y - x)"
    using 1 s i j assms(1,2) unfolding apart_def by linarith+
  then show ?thesis by (simp add: apart_def d_def)
qed

text \<open>So words close to two objects that lie apart do not overlap.\<close>

lemma apart_words:
  assumes "apart n p q" and "260 \<le> n" and "x - p + 128 \<le> 256" and "y - q + 128 \<le> 256"
  shows "apart 4 x y" "apart 4 y x"
  using apart_shift [OF assms(1) _ assms(3,4)] assms(2) by (auto simp: apart_def)

lemma apart_near: "\<lbrakk>4 \<le> unat (a - b); 4 \<le> unat (b - a)\<rbrakk> \<Longrightarrow> apart 4 a b"
  by (simp add: apart_def)

lemmas memory_simps = read32_write32 read32_write32_other read32_write16_other read16_write32_other
  read16_write16_other read16_write16 read16_ucast apart_near

end
