(* ===== verification/Context_Switch.thy ===== *)
theory Context_Switch
  imports X86 Process_Ops
begin

text \<open>
  The four routines of \<open>kernel/arch/context_switch.asm\<close> that \<open>schedule\<close> ends in, as a listing for the
  processor of \<open>X86\<close>, and the layout of \<open>process_t\<close> their offsets refer to. Control blocks and stack are
  addresses; \<open>apart n\<close> hypotheses say that they do not overlap. The theorems show what a save stores and
  what it overwrites, where a first switch jumps, and that \<open>switch_to_process\<close> cannot return.
  The timer stub of the same file is in \<open>Interrupt_Stubs\<close>.
\<close>

section \<open>The listing\<close>

definition CPU_STATE_OFFSET :: u32 where "CPU_STATE_OFFSET = 20"

definition reg_offset :: "reg \<Rightarrow> u32" where
  "reg_offset r = (case r of EAX \<Rightarrow> 0 | EBX \<Rightarrow> 4 | ECX \<Rightarrow> 8 | EDX \<Rightarrow> 12 | ESI \<Rightarrow> 16 | EDI \<Rightarrow> 20 | ESP \<Rightarrow> 24 | EBP \<Rightarrow> 28)"

definition EIP_OFFSET :: u32 where "EIP_OFFSET = 32"
definition EFLAGS_OFFSET :: u32 where "EFLAGS_OFFSET = 36"

definition seg_offset :: "sreg \<Rightarrow> u32" where
  "seg_offset g = (case g of CS \<Rightarrow> 40 | DS \<Rightarrow> 44 | ES \<Rightarrow> 48 | FS \<Rightarrow> 52 | GS \<Rightarrow> 56 | SS \<Rightarrow> 60)"

text \<open>\<open>mov ax, seg; mov [ebx + SEG_OFFSET], ax\<close>, and the reverse.\<close>

definition save_seg :: "sreg \<Rightarrow> instr list" where
  "save_seg g = [From_seg EAX g, Store16 EBX (seg_offset g) EAX]"

definition load_seg :: "sreg \<Rightarrow> instr list" where
  "load_seg g = [Load16 EAX EBX (seg_offset g), To_seg g EAX]"

definition save_context :: "instr list" where
  "save_context =
     [Push EBP, Mov EBP ESP, Push EAX, Push EBX,
      Load EBX EBP 8, Add_imm EBX CPU_STATE_OFFSET,
      Store EBX (reg_offset EAX) EAX, Load EAX ESP 8, Store EBX (reg_offset EBX) EAX,
      Store EBX (reg_offset ECX) ECX, Store EBX (reg_offset EDX) EDX,
      Store EBX (reg_offset ESI) ESI, Store EBX (reg_offset EDI) EDI,
      Mov EAX ESP, Add_imm EAX 16, Store EBX (reg_offset ESP) EAX,
      Load EAX EBP 0, Store EBX (reg_offset EBP) EAX,
      Load EAX EBP 4, Store EBX EIP_OFFSET EAX,
      Pushf, Pop EAX, Store EBX EFLAGS_OFFSET EAX] @
     save_seg CS @ save_seg DS @ save_seg ES @ save_seg FS @ save_seg GS @ save_seg SS @
     [Pop EBX, Pop EAX, Pop EBP, Ret]"

definition restore_context :: "instr list" where
  "restore_context =
     [Load EBX ESP 4, Add_imm EBX CPU_STATE_OFFSET] @
     load_seg DS @ load_seg ES @ load_seg FS @ load_seg GS @ load_seg SS @
     [Load ESP EBX (reg_offset ESP), Load EAX EBX EFLAGS_OFFSET, Push EAX, Popf,
      Load EAX EBX (reg_offset EAX), Load ECX EBX (reg_offset ECX), Load EDX EBX (reg_offset EDX),
      Load ESI EBX (reg_offset ESI), Load EDI EBX (reg_offset EDI), Load EBP EBX (reg_offset EBP),
      Jmp_mem EBX EIP_OFFSET]"

text \<open>The labels: the position of each routine in the listing.\<close>

definition save_label :: nat where "save_label = 0"
definition restore_label :: nat where "restore_label = 39"
definition switch_label :: nat where "switch_label = 62"
definition switch_to_label :: nat where "switch_to_label = 76"
definition no_save_label :: nat where "no_save_label = 70"

definition context_switch :: "instr list" where
  "context_switch =
     [Push EBP, Mov EBP ESP, Load EAX EBP 8, Test EAX, Jz no_save_label,
      Push EAX, Call save_label, Add_imm ESP 4,
      Load EAX EBP 12, Push EAX, Call restore_label, Add_imm ESP 4, Pop EBP, Ret]"

definition switch_to_process :: "u32 \<Rightarrow> instr list" where
  "switch_to_process current =
     [Load EAX ESP 4, Store_abs current EAX, Push EAX, Push_abs current, Call switch_label, Add_imm ESP 8, Ret]"

definition switch_listing :: "asm_env \<Rightarrow> instr list" where
  "switch_listing C = save_context @ restore_context @ context_switch @ switch_to_process (current_process_addr C)"

lemma listing_labels:
  "length save_context = restore_label" "length save_context + length restore_context = switch_label"
  "length (switch_listing C) = 83"
  by (simp_all add: save_context_def restore_context_def context_switch_def switch_to_process_def switch_listing_def
      save_seg_def load_seg_def restore_label_def switch_label_def)

lemmas listing_defs = save_context_def restore_context_def context_switch_def switch_to_process_def switch_listing_def
  save_seg_def load_seg_def save_label_def restore_label_def switch_label_def switch_to_label_def no_save_label_def
  reg_offset_def seg_offset_def CPU_STATE_OFFSET_def EIP_OFFSET_def EFLAGS_OFFSET_def

lemmas offset_simps = save_label_def restore_label_def switch_label_def switch_to_label_def no_save_label_def
  reg_offset_def seg_offset_def CPU_STATE_OFFSET_def EIP_OFFSET_def EFLAGS_OFFSET_def

section \<open>Layout\<close>

text \<open>The fields of \<open>cpu_state_t\<close> and \<open>process_t\<close> with their sizes and alignments on the 32-bit target.\<close>

definition cpu_state_fields :: "(string \<times> nat \<times> nat) list" where
  "cpu_state_fields = map (\<lambda>f. (f, 4, 4))
     [''eax'', ''ebx'', ''ecx'', ''edx'', ''esi'', ''edi'', ''esp'', ''ebp'', ''eip'', ''eflags'',
      ''cs'', ''ds'', ''es'', ''fs'', ''gs'', ''ss'']"

fun align_to :: "nat \<Rightarrow> nat \<Rightarrow> nat" where
  "align_to a n = (n + a - 1) div a * a"

fun struct_end :: "nat \<Rightarrow> (string \<times> nat \<times> nat) list \<Rightarrow> nat" where
  "struct_end n [] = n"
| "struct_end n ((f, bytes, alignment) # fs) = struct_end (align_to alignment n + bytes) fs"

fun offset_from :: "nat \<Rightarrow> (string \<times> nat \<times> nat) list \<Rightarrow> string \<Rightarrow> nat option" where
  "offset_from n [] g = None"
| "offset_from n ((f, bytes, alignment) # fs) g =
     (if f = g then Some (align_to alignment n) else offset_from (align_to alignment n + bytes) fs g)"

definition process_fields :: "(string \<times> nat \<times> nat) list" where
  "process_fields =
     [(''pid'', 4, 4), (''parent_pid'', 4, 4), (''name'', 64, 1), (''state'', 4, 4), (''priority'', 4, 4),
      (''exit_code'', 4, 4), (''cpu_state'', struct_end 0 cpu_state_fields, 4), (''page_directory'', 4, 4),
      (''stack_base'', 4, 4), (''stack_size'', 4, 4), (''heap_base'', 4, 4), (''heap_size'', 4, 4),
      (''memory_used'', 4, 4), (''time_slice'', 4, 4), (''total_runtime'', 4, 4), (''sleep_until'', 4, 4),
      (''file_descriptors'', 64, 4), (''parent'', 4, 4), (''children'', 4, 4), (''next_child'', 4, 4),
      (''next'', 4, 4), (''prev'', 4, 4)]"

definition reg_field :: "reg \<Rightarrow> string" where
  "reg_field r = (case r of EAX \<Rightarrow> ''eax'' | EBX \<Rightarrow> ''ebx'' | ECX \<Rightarrow> ''ecx'' | EDX \<Rightarrow> ''edx''
                          | ESI \<Rightarrow> ''esi'' | EDI \<Rightarrow> ''edi'' | ESP \<Rightarrow> ''esp'' | EBP \<Rightarrow> ''ebp'')"

definition seg_field :: "sreg \<Rightarrow> string" where
  "seg_field g = (case g of CS \<Rightarrow> ''cs'' | DS \<Rightarrow> ''ds'' | ES \<Rightarrow> ''es'' | FS \<Rightarrow> ''fs'' | GS \<Rightarrow> ''gs'' | SS \<Rightarrow> ''ss'')"

text \<open>
  The register offsets of the assembly agree with \<open>cpu_state_t\<close>, but the offset of \<open>cpu_state\<close> in
  \<open>process_t\<close> is 84, not \<open>CPU_STATE_OFFSET\<close>; the selector of FS falls on \<open>state\<close>.
\<close>

theorem cpu_state_offset_wrong:
  "(\<forall>r. offset_from 0 cpu_state_fields (reg_field r) = Some (unat (reg_offset r))) \<and>
   (\<forall>g. offset_from 0 cpu_state_fields (seg_field g) = Some (unat (seg_offset g))) \<and>
   offset_from 0 cpu_state_fields ''eip'' = Some (unat EIP_OFFSET) \<and>
   offset_from 0 cpu_state_fields ''eflags'' = Some (unat EFLAGS_OFFSET) \<and>
   offset_from 0 process_fields ''cpu_state'' = Some 84 \<and>
   offset_from 0 process_fields ''cpu_state'' \<noteq> Some (unat CPU_STATE_OFFSET) \<and>
   offset_from 0 process_fields ''state'' = Some (unat (CPU_STATE_OFFSET + seg_offset FS)) \<and>
   struct_end 0 process_fields = 268"
proof -
  have "offset_from 0 cpu_state_fields (reg_field r) = Some (unat (reg_offset r))" for r
    by (cases r) (simp_all add: cpu_state_fields_def reg_field_def reg_offset_def)
  moreover have "offset_from 0 cpu_state_fields (seg_field g) = Some (unat (seg_offset g))" for g
    by (cases g) (simp_all add: cpu_state_fields_def seg_field_def seg_offset_def)
  ultimately show ?thesis
    by (simp add: cpu_state_fields_def process_fields_def offset_simps)
qed

section \<open>One run of each routine\<close>

lemmas machine_simps = set_reg_def push32_def top32_def drop_top_def Let_def

text \<open>
  Memory after \<open>save_context(p)\<close> called with stack pointer \<open>e\<close>, the pushes included; \<open>f\<close> are the flags.
\<close>

definition saved_mem :: "u32 \<Rightarrow> u32 \<Rightarrow> u32 \<Rightarrow> cpu \<Rightarrow> u32 \<Rightarrow> u8" where
  "saved_mem p e f s =
     write16 (80 + p) (segs s SS) (write16 (76 + p) (segs s GS) (write16 (72 + p) (segs s FS)
    (write16 (68 + p) (segs s ES) (write16 (64 + p) (segs s DS) (write16 (60 + p) (segs s CS)
    (write32 (56 + p) f (write32 (e - 16) f (write32 (52 + p) (read32 (mem s) e)
    (write32 (48 + p) (regs s EBP) (write32 (44 + p) (4 + e)
    (write32 (40 + p) (regs s EDI) (write32 (36 + p) (regs s ESI) (write32 (32 + p) (regs s EDX)
    (write32 (28 + p) (regs s ECX) (write32 (24 + p) (regs s EBP) (write32 (p + 20) (regs s EAX)
    (write32 (e - 12) (regs s EBX) (write32 (e - 8) (regs s EAX) (write32 (e - 4) (regs s EBP) (mem s))))))))))))))))))))"

definition save_flags :: "asm_env \<Rightarrow> u32 \<Rightarrow> u32 \<Rightarrow> u32 \<Rightarrow> u32" where
  "save_flags C p e f = flags_of C (flags_of C f p 20 (p + 20)) (e - 12) 16 (4 + e)"

lemma save_block:
  assumes "regs s ESP = e" and "read32 (mem s) (e + 4) = p" and "apart 512 p e"
  shows "run_block C n 0 save_context s =
    s\<lparr>control := goto C n (read32 (mem s) e), regs := (regs s)(ESP := e + 4),
      eflags := save_flags C p e (eflags s), mem := saved_mem p e (save_flags C p e (eflags s)) s\<rparr>"
  using assms assms(2) [unfolded add.commute [of e]]
  by (simp add: save_context_def save_seg_def machine_simps offset_simps memory_simps apart_words [of 512 p e]
      saved_mem_def save_flags_def)

text \<open>The state \<open>restore_context(p)\<close> jumps with.\<close>

definition restored :: "asm_env \<Rightarrow> nat \<Rightarrow> u32 \<Rightarrow> cpu \<Rightarrow> cpu" where
  "restored C n p s =
     (let w = (\<lambda>d. read32 (mem s) (d + p)); h = (\<lambda>d. read16 (mem s) (d + p))
      in s\<lparr>control := goto C n (w 52),
           regs := (regs s)(EAX := read32 (mem s) (p + 20), EBX := p + 20, ECX := w 28, EDX := w 32, ESI := w 36, EDI := w 40,
                            ESP := w 44, EBP := w 48),
           segs := (segs s)(DS := h 64, ES := h 68, FS := h 72, GS := h 76, SS := h 80),
           eflags := w 56, mem := write32 (w 44 - 4) (w 56) (mem s)\<rparr>)"

lemma restore_block:
  assumes "read32 (mem s) (regs s ESP + 4) = p" and "apart 512 p (read32 (mem s) (44 + p))"
  shows "run_block C n i restore_context s = restored C n p s"
  using assms
  by (simp add: restore_context_def load_seg_def machine_simps offset_simps memory_simps
      apart_words [of 512 p "read32 (mem s) (44 + p)"] restored_def fun_upd_twist)

lemma listing_parts:
  "drop save_label (switch_listing C) = save_context @ drop restore_label (switch_listing C)"
  "drop restore_label (switch_listing C) = restore_context @ drop switch_label (switch_listing C)"
  "drop switch_label (switch_listing C) = context_switch @ switch_to_process (current_process_addr C)"
  by (simp_all add: listing_defs)

lemma straight_routines:
  "list_all straight (butlast save_context)" "list_all straight (butlast restore_context)"
  by (simp_all add: listing_defs)

lemma save_run:
  assumes "control s = At save_label" and "regs s ESP = e" and "read32 (mem s) (e + 4) = p" and "apart 512 p e"
  shows "asm_run C (switch_listing C) 39 s =
    s\<lparr>control := goto C 83 (read32 (mem s) e), regs := (regs s)(ESP := e + 4),
      eflags := save_flags C p e (eflags s), mem := saved_mem p e (save_flags C p e (eflags s)) s\<rparr>"
  using asm_run_block [OF assms(1) listing_parts(1) straight_routines(1), of 39] listing_labels
    save_block [OF assms(2-4)]
  by (simp add: save_label_def restore_label_def)

lemma restore_run:
  assumes "control s = At restore_label" and "read32 (mem s) (regs s ESP + 4) = p"
    and "apart 512 p (read32 (mem s) (44 + p))"
  shows "asm_run C (switch_listing C) 23 s = restored C 83 p s"
  using asm_run_block [OF assms(1) listing_parts(2) straight_routines(2), of 23] listing_labels
    restore_block [OF assms(2,3)]
  by (simp add: restore_label_def switch_label_def)

(*MARK*)
section \<open>Saving\<close>

text \<open>Where the word or half-word a routine stores for a register lies in the control block.\<close>

definition reg_slot :: "u32 \<Rightarrow> reg \<Rightarrow> u32" where "reg_slot p r = p + (CPU_STATE_OFFSET + reg_offset r)"
definition seg_slot :: "u32 \<Rightarrow> sreg \<Rightarrow> u32" where "seg_slot p g = p + (CPU_STATE_OFFSET + seg_offset g)"

text \<open>
  C27. \<open>save_context(p)\<close> returns to its caller with every register as before, and leaves in the block the
  caller's registers, stack pointer after the return, return address, flags and segment selectors, with
  one exception: the slot of EBX receives EBP, because \<open>[esp + 8]\<close> is the pushed frame pointer.
\<close>

theorem save_context_correct:
  assumes "control s = At save_label" and "regs s ESP = e" and "read32 (mem s) (e + 4) = p" and "apart 512 p e"
    and t: "t = asm_run C (switch_listing C) 39 s"
  shows "control t = goto C 83 (read32 (mem s) e) \<and> regs t = (regs s)(ESP := e + 4) \<and> segs t = segs s \<and>
    (\<forall>r. read32 (mem t) (reg_slot p r) = ((regs s)(EBX := regs s EBP, ESP := e + 4)) r) \<and>
    read32 (mem t) (p + (CPU_STATE_OFFSET + EIP_OFFSET)) = read32 (mem s) e \<and>
    read32 (mem t) (p + (CPU_STATE_OFFSET + EFLAGS_OFFSET)) = eflags t \<and>
    (\<forall>g. read16 (mem t) (seg_slot p g) = segs s g)"
proof -
  have r: "t = s\<lparr>control := goto C 83 (read32 (mem s) e), regs := (regs s)(ESP := e + 4),
      eflags := save_flags C p e (eflags s), mem := saved_mem p e (save_flags C p e (eflags s)) s\<rparr>"
    unfolding t by (rule save_run [OF assms(1-4)])
  have "read32 (mem t) (reg_slot p r) = ((regs s)(EBX := regs s EBP, ESP := e + 4)) r" for r
    by (cases r) (simp_all add: r saved_mem_def reg_slot_def offset_simps memory_simps apart_words [OF assms(4)] add.commute [of p])
  moreover have "read16 (mem t) (seg_slot p g) = segs s g" for g
    by (cases g) (simp_all add: r saved_mem_def seg_slot_def offset_simps memory_simps apart_words [OF assms(4)] add.commute [of p])
  ultimately show ?thesis
    by (simp add: r saved_mem_def offset_simps memory_simps apart_words [OF assms(4)] add.commute [of p])
qed

text \<open>
  The words at the offsets of \<open>state\<close> and \<open>priority\<close>: \<open>save_context\<close> replaces them by the selectors of FS
  and GS, so that a saved process has no valid state and no valid priority any more.
\<close>

theorem save_context_overwrites_state:
  assumes "control s = At save_label" and "regs s ESP = e" and "read32 (mem s) (e + 4) = p" and "apart 512 p e"
    and "read16 (mem s) (p + 74) = 0" and "read16 (mem s) (p + 78) = 0"
    and t: "t = asm_run C (switch_listing C) 39 s"
  shows "read32 (mem t) (p + 72) = ucast (segs s FS) \<and> read32 (mem t) (p + 76) = ucast (segs s GS)"
proof -
  have r: "mem t = saved_mem p e (save_flags C p e (eflags s)) s"
    using save_run [OF assms(1-4)] by (simp add: t)
  show ?thesis
    using assms(5,6) unfolding add.commute [of p]
    by (simp add: r saved_mem_def read32_halves [of _ "72 + p"] read32_halves [of _ "76 + p"] memory_simps
        read16_write16_beside apart_words [OF assms(4)] add.commute [of p])
qed

section \<open>Switching\<close>

lemma switch_blocks:
  "drop 62 (switch_listing C) = [Push EBP, Mov EBP ESP, Load EAX EBP 8, Test EAX, Jz 70] @ drop 67 (switch_listing C)"
  "drop 67 (switch_listing C) = [Push EAX, Call 0] @ drop 69 (switch_listing C)"
  "drop 69 (switch_listing C) = [Add_imm ESP 4, Load EAX EBP 12, Push EAX, Call 39] @ drop 73 (switch_listing C)"
  "drop 76 (switch_listing C) =
     [Load EAX ESP 4, Store_abs (current_process_addr C) EAX, Push EAX, Push_abs (current_process_addr C), Call 62]
     @ drop 81 (switch_listing C)"
  by (simp_all add: listing_defs)

text \<open>\<open>context_switch(old, new)\<close> up to the call of \<open>save_context\<close>.\<close>

lemma switch_enter:
  assumes "control s = At switch_label" and "regs s ESP = e" and "read32 (mem s) (e + 4) = old" and "old \<noteq> 0"
  shows "asm_run C (switch_listing C) 7 s =
    s\<lparr>control := At save_label, regs := (regs s)(EAX := old, EBP := e - 4, ESP := e - 12),
      eflags := flags_of C (eflags s) old old old,
      mem := write32 (e - 12) (code_at C 69) (write32 (e - 8) old (write32 (e - 4) (regs s EBP) (mem s)))\<rparr>"
proof -
  let ?f = "flags_of C (eflags s) old old old"
  let ?t = "s\<lparr>control := At 67, regs := (regs s)(EAX := old, EBP := e - 4, ESP := e - 4), eflags := ?f,
      mem := write32 (e - 4) (regs s EBP) (mem s)\<rparr>"
  have "asm_run C (switch_listing C) 5 s = ?t"
    using asm_run_block [OF _ switch_blocks(1), of s 5 C] assms
    by (simp add: switch_label_def machine_simps memory_simps fun_upd_twist add.commute [of e])
  moreover have "asm_run C (switch_listing C) 2 ?t =
     ?t\<lparr>control := At save_label, regs := (regs ?t)(ESP := e - 12),
       mem := write32 (e - 12) (code_at C 69) (write32 (e - 8) old (mem ?t))\<rparr>"
    using asm_run_block [OF _ switch_blocks(2), of ?t 2 C]
    by (simp add: machine_simps save_label_def)
  ultimately show ?thesis
    using asm_run_add [of C "switch_listing C" 5 2 s] by simp
qed

text \<open>The rest of \<open>context_switch\<close> restores the process whose address lies at \<open>ebp + 12\<close>.\<close>

lemma resume_run:
  assumes "control s = At 69" and "read32 (mem s) (regs s EBP + 12) = new" and "regs s ESP = x"
    and "apart 512 new x" and "apart 512 new (read32 (mem s) (44 + new))"
    and t_eq: "t = asm_run C (switch_listing C) 27 s"
  shows "control t = goto C 83 (read32 (mem s) (52 + new))" "regs t ESP = read32 (mem s) (44 + new)"
    "regs t EBP = read32 (mem s) (48 + new)"
    "mem t = write32 (read32 (mem s) (44 + new) - 4) (read32 (mem s) (56 + new))
               (write32 (x - 4) (code_at C 73) (write32 x new (mem s)))"
proof -
  let ?t = "s\<lparr>control := At restore_label, regs := (regs s)(EAX := new, ESP := x - 4),
      eflags := flags_of C (eflags s) x 4 (4 + x), mem := write32 (x - 4) (code_at C 73) (write32 x new (mem s))\<rparr>"
  have "asm_run C (switch_listing C) 4 s = ?t"
    using asm_run_block [OF _ switch_blocks(3), of s 4 C] assms(1-3)
    by (simp add: restore_label_def machine_simps fun_upd_twist add.commute [of _ x] add.commute [of _ "regs s EBP"])
  moreover have "asm_run C (switch_listing C) 23 ?t = restored C 83 new ?t"
    using assms(4,5) by (intro restore_run) (simp_all add: memory_simps apart_words [of 512 new x])
  ultimately have t: "t = restored C 83 new ?t"
    using asm_run_add [of C "switch_listing C" 4 23 s] by (simp add: t_eq)
  show "control t = goto C 83 (read32 (mem s) (52 + new))" "regs t ESP = read32 (mem s) (44 + new)"
    "regs t EBP = read32 (mem s) (48 + new)"
    "mem t = write32 (read32 (mem s) (44 + new) - 4) (read32 (mem s) (56 + new))
               (write32 (x - 4) (code_at C 73) (write32 x new (mem s)))"
    by (simp_all add: t restored_def Let_def memory_simps apart_words [OF assms(4)])
qed

text \<open>\<open>switch_to_process(p)\<close> up to the call of \<open>context_switch(p, p)\<close>.\<close>

lemma switch_to_enter:
  assumes "control s = At switch_to_label" and "regs s ESP = e" and "read32 (mem s) (e + 4) = p"
    and "apart 1024 (current_process_addr C) e"
  shows "asm_run C (switch_listing C) 5 s =
    s\<lparr>control := At switch_label, regs := (regs s)(EAX := p, ESP := e - 12),
      mem := write32 (e - 12) (code_at C 81) (write32 (e - 8) p (write32 (e - 4) p
               (write32 (current_process_addr C) p (mem s))))\<rparr>"
  using asm_run_block [OF _ switch_blocks(4), of s C 5] assms(1-3)
  by (simp add: switch_label_def switch_to_label_def machine_simps fun_upd_twist add.commute [of _ e] memory_simps
      apart_words [OF assms(4)])

text \<open>
  The state in which the machine is stuck: about to run the second half of \<open>context_switch(p, p)\<close>,
  with \<open>p\<close> holding exactly this position as its saved context.
\<close>

definition reloading :: "asm_env \<Rightarrow> u32 \<Rightarrow> u32 \<Rightarrow> cpu \<Rightarrow> bool" where
  "reloading C p e s \<longleftrightarrow>
     control s = At 69 \<and> regs s ESP = e - 20 \<and> regs s EBP = e - 16 \<and> read32 (mem s) (e - 4) = p \<and>
     read32 (mem s) (44 + p) = e - 20 \<and> read32 (mem s) (48 + p) = e - 16 \<and>
     read32 (mem s) (52 + p) = code_at C 69"

lemma reloading_again:
  assumes "reloading C p e s" and "apart 1024 p e" and "inj_on (code_at C) {..<83}"
  shows "reloading C p e (asm_run C (switch_listing C) 27 s)"
proof -
  have "apart (1024 - 256) p (e - 20)" using assms(2) by (rule apart_shift) simp_all
  then have f: "apart 512 p (e - 20)" by (simp add: apart_def)
  note s = assms(1) [unfolded reloading_def]
  let ?t = "asm_run C (switch_listing C) 27 s"
  have bp: "read32 (mem s) (regs s EBP + 12) = p" and q: "apart 512 p (read32 (mem s) (44 + p))"
    using s f by simp_all
  have at: "control s = At 69" and sp: "regs s ESP = e - 20" using s by simp_all
  note r = resume_run [OF at bp sp f q refl, of C]
  have m: "mem ?t = write32 (e - 24) (read32 (mem s) (56 + p)) (write32 (e - 24) (code_at C 73) (write32 (e - 20) p (mem s)))"
    using r(4) s by simp
  have k: "read32 (mem ?t) (44 + p) = read32 (mem s) (44 + p)" "read32 (mem ?t) (48 + p) = read32 (mem s) (48 + p)"
    "read32 (mem ?t) (52 + p) = read32 (mem s) (52 + p)"
    by (simp_all add: m memory_simps apart_words [OF f])
  have "control ?t = At 69" "regs ?t ESP = e - 20" "regs ?t EBP = e - 16"
    using r(1-3) s goto_At [OF assms(3), of 69] by simp_all
  moreover have "read32 (mem ?t) (e - 4) = p"
    using s by (simp add: m memory_simps)
  ultimately show ?thesis
    using s k by (simp add: reloading_def)
qed

lemma reloading_forever:
  assumes "reloading C p e s" and "apart 1024 p e" and "inj_on (code_at C) {..<83}"
  shows "reloading C p e (asm_run C (switch_listing C) (27 * n) s)"
proof (induction n)
  case (Suc n)
  then show ?case
    using reloading_again [OF Suc assms(2,3)] by (simp add: asm_run_add [symmetric] add.commute)
qed (simp add: assms(1))

lemma switch_to_reloading:
  assumes "control s = At switch_to_label" and "regs s ESP = e" and "read32 (mem s) (e + 4) = p" and "p \<noteq> 0"
    and "apart 1024 p e" and "apart 1024 (current_process_addr C) e" and "inj_on (code_at C) {..<83}"
  shows "reloading C p e (asm_run C (switch_listing C) 51 s)"
proof -
  let ?run = "asm_run C (switch_listing C)"
  define u where "u = ?run 5 s"
  define v where "v = ?run 7 u"
  define w where "w = ?run 39 v"
  have u: "u = s\<lparr>control := At switch_label, regs := (regs s)(EAX := p, ESP := e - 12),
      mem := write32 (e - 12) (code_at C 81) (write32 (e - 8) p (write32 (e - 4) p
               (write32 (current_process_addr C) p (mem s))))\<rparr>"
    unfolding u_def using assms(1-3,6) by (rule switch_to_enter)
  have v: "control v = At save_label" "regs v ESP = e - 24" "regs v EBP = e - 16"
    "mem v = write32 (e - 24) (code_at C 69) (write32 (e - 20) p (write32 (e - 16) (regs u EBP) (mem u)))"
    unfolding v_def using switch_enter [of u "e - 12" p C] assms(4)
    by (simp_all add: u memory_simps)
  have top: "read32 (mem v) (e - 24 + 4) = p" "read32 (mem v) (e - 24) = code_at C 69"
    by (simp_all add: v memory_simps)
  have "apart (1024 - 256) p (e - 24)" using assms(5) by (rule apart_shift) simp_all
  then have f: "apart 512 p (e - 24)" by (simp add: apart_def)
  have w: "control w = At 69" "regs w ESP = e - 20" "regs w EBP = e - 16"
    "mem w = saved_mem p (e - 24) (save_flags C p (e - 24) (eflags v)) v"
    unfolding w_def using save_run [OF v(1,2) top(1) f, of C] top(2) v(3) goto_At [OF assms(7), of 69]
    by simp_all
  have "read32 (mem w) (e - 4) = p"
    by (simp add: w(4) saved_mem_def v(4) u memory_simps apart_words [OF f] add.commute [of p])
  moreover have "read32 (mem w) (44 + p) = e - 20" "read32 (mem w) (48 + p) = e - 16"
     "read32 (mem w) (52 + p) = code_at C 69"
    by (simp_all add: w(4) saved_mem_def v(3) top(2) memory_simps apart_words [OF f] add.commute [of p])
  ultimately have "reloading C p e w" using w by (simp add: reloading_def)
  moreover have "w = ?run 51 s"
    using asm_run_add [of C "switch_listing C" 12 39 s] asm_run_add [of C "switch_listing C" 5 7 s]
    by (simp add: u_def v_def w_def)
  ultimately show ?thesis by simp
qed

text \<open>
  C26. \<open>switch_to_process(p)\<close> never leaves these routines, for any \<open>p\<close>: it stores \<open>p\<close> in \<open>current_process\<close>
  before it pushes \<open>current_process\<close> as the old process, so the caller's context is saved in the block
  of \<open>p\<close>. After 51 instructions, and again after every 27 more, the machine is at the instruction after the call of
  \<open>save_context\<close>, and the context in the block of \<open>p\<close>, the one restored in between, has exactly this
  instruction, this stack pointer and this frame pointer, those of the caller's stack.
\<close>

theorem switch_to_process_never_returns:
  assumes "control s = At switch_to_label" and "regs s ESP = e" and "read32 (mem s) (e + 4) = p" and "p \<noteq> 0"
    and "apart 1024 p e" and "apart 1024 (current_process_addr C) e" and "inj_on (code_at C) {..<83}"
  shows "(\<exists>i. control (asm_run C (switch_listing C) n s) = At i) \<and>
    (let t = asm_run C (switch_listing C) (51 + 27 * n) s in
       control t = At 69 \<and> regs t ESP = e - 20 \<and> regs t EBP = e - 16 \<and>
       read32 (mem t) (p + 44) = regs t ESP \<and> read32 (mem t) (p + 48) = regs t EBP \<and>
       read32 (mem t) (p + 52) = code_at C 69)"
proof -
  have "reloading C p e (asm_run C (switch_listing C) (51 + 27 * n) s)"
    unfolding asm_run_add using switch_to_reloading [OF assms] assms(5,7) by (rule reloading_forever)
  then show ?thesis
    using asm_run_inside [of C "switch_listing C" "51 + 27 * n" s 69 n]
    by (simp add: reloading_def Let_def add.commute [of p])
qed

text \<open>The name of a control block at \<open>p\<close>: the 64 bytes from offset 8 on.\<close>

definition holds_name :: "(u32 \<Rightarrow> u8) \<Rightarrow> u32 \<Rightarrow> u8 list \<Rightarrow> bool" where
  "holds_name m p nm \<longleftrightarrow> (\<forall>i<64. m (p + 8 + of_nat i) = nm ! i)"

text \<open>The four bytes of a name from position \<open>i\<close> on, read as a word.\<close>

definition word_of_name :: "u8 list \<Rightarrow> nat \<Rightarrow> u32" where
  "word_of_name nm i = ucast (nm ! i) OR push_bit 8 (ucast (nm ! (i + 1))) OR
     push_bit 16 (ucast (nm ! (i + 2))) OR push_bit 24 (ucast (nm ! (i + 3)))"

lemma holds_name_word:
  assumes "holds_name m p nm" and "i < 61"
  shows "read32 m (of_nat (8 + i) + p) = word_of_name nm i"
proof -
  have "m (p + 8 + of_nat (i + j)) = nm ! (i + j)" if "j < 4" for j
    using assms(1) [unfolded holds_name_def, rule_format, of "i + j"] assms(2) that by simp
  from this [of 0] this [of 1] this [of 2] this [of 3] show ?thesis
    by (simp add: read32_def word_of_name_def algebra_simps)
qed

lemma word_of_padded_name:
  "length cs \<le> i \<Longrightarrow> i < 61 \<Longrightarrow> word_of_name (cs @ replicate (64 - length cs) 0) i = 0"
  by (simp add: word_of_name_def nth_append)

lemma goto_outside_address: "goto C n a = Outside b \<Longrightarrow> a = b"
  by (simp add: goto_def split: option.splits)

text \<open>\<open>context_switch(old, new)\<close> saves \<open>old\<close>, then jumps to the word at offset 52 of \<open>new\<close>.\<close>

lemma context_switch_run:
  assumes "control s = At switch_label" and "regs s ESP = e" and "read32 (mem s) (e + 4) = old"
    and "read32 (mem s) (e + 8) = new" and "old \<noteq> 0"
    and "apart 1024 old e" and "apart 1024 new e" and "apart 268 old new" and "inj_on (code_at C) {..<83}"
    and "apart 512 new (read32 (mem s) (44 + new))"
    and t: "t = asm_run C (switch_listing C) 73 s"
  shows "control t = goto C 83 (read32 (mem s) (52 + new))" "regs t ESP = read32 (mem s) (44 + new)"
    "regs t EBP = read32 (mem s) (48 + new)"
proof -
  let ?run = "asm_run C (switch_listing C)"
  define v where "v = ?run 7 s"
  define w where "w = ?run 39 v"
  have v: "control v = At save_label" "regs v ESP = e - 12" "regs v EBP = e - 4"
    "mem v = write32 (e - 12) (code_at C 69) (write32 (e - 8) old (write32 (e - 4) (regs s EBP) (mem s)))"
    unfolding v_def switch_enter [OF assms(1-3,5)] by simp_all
  have top: "read32 (mem v) (e - 12 + 4) = old" "read32 (mem v) (e - 12) = code_at C 69"
    by (simp_all add: v memory_simps)
  have "apart (1024 - 256) old (e - 12)" by (rule apart_shift [OF assms(6)]) simp_all
  moreover have "apart (1024 - 256) new (e - 8)" by (rule apart_shift [OF assms(7)]) simp_all
  ultimately have f: "apart 512 old (e - 12)" and n: "apart 512 new (e - 8)" by (simp_all add: apart_def)
  have w: "control w = At 69" "regs w ESP = e - 8" "regs w EBP = e - 4"
    "mem w = saved_mem old (e - 12) (save_flags C old (e - 12) (eflags v)) v"
    unfolding w_def using save_run [OF v(1,2) top(1) f, of C] top(2) v(3) goto_At [OF assms(9), of 69]
    by simp_all
  have k: "read32 (mem w) (44 + new) = read32 (mem s) (44 + new)"
    "read32 (mem w) (48 + new) = read32 (mem s) (48 + new)"
    "read32 (mem w) (52 + new) = read32 (mem s) (52 + new)"
    by (simp_all add: w(4) saved_mem_def v(4) memory_simps apart_words [OF n] apart_words [OF assms(8)] add.commute [of old])
  have "read32 (mem w) (regs w EBP + 12) = new"
    using assms(4)
    by (simp add: w(3,4) saved_mem_def v(4) memory_simps apart_words [OF f] add.commute [of old] add.commute [of e])
  note r = resume_run [OF w(1) this w(2) n _ refl, of C]
  have "t = ?run 27 w"
    using asm_run_add [of C "switch_listing C" 46 27 s] asm_run_add [of C "switch_listing C" 7 39 s]
    by (simp add: t v_def w_def)
  then show "control t = goto C 83 (read32 (mem s) (52 + new))" "regs t ESP = read32 (mem s) (44 + new)"
    "regs t EBP = read32 (mem s) (48 + new)"
    using r k assms(10) by simp_all
qed

text \<open>
  The first switch to a process takes its context out of the name, at offset 20 of which the saved
  registers begin: the stack pointer from the bytes 36 to 39, the address from the bytes 44 to 47. A zero
  padded name of at most 44 characters has zeros there, whatever the entry point is.
\<close>

lemma first_switch_jumps_into_name:
  assumes "control s = At switch_label" and "regs s ESP = e" and "read32 (mem s) (e + 4) = old"
    and "read32 (mem s) (e + 8) = new" and "old \<noteq> 0"
    and "apart 1024 old e" and "apart 1024 new e" and "apart 268 old new" and "inj_on (code_at C) {..<83}"
    and "holds_name (mem s) new nm" and "apart 512 new (word_of_name nm 36)"
  shows "control (asm_run C (switch_listing C) 73 s) = goto C 83 (word_of_name nm 44)"
    and "regs (asm_run C (switch_listing C) 73 s) ESP = word_of_name nm 36"
proof -
  have w: "read32 (mem s) (44 + new) = word_of_name nm 36" "read32 (mem s) (52 + new) = word_of_name nm 44"
    using holds_name_word [OF assms(10), of 36] holds_name_word [OF assms(10), of 44] by simp_all
  show "control (asm_run C (switch_listing C) 73 s) = goto C 83 (word_of_name nm 44)"
    "regs (asm_run C (switch_listing C) 73 s) ESP = word_of_name nm 36"
    using context_switch_run [OF assms(1-9) _ refl] assms(11) w by simp_all
qed

section \<open>A concrete machine\<close>

text \<open>
  Code at 1 MB, \<open>current_process\<close> at 4 MB, the stack pointer at 3 MB with two arguments above it, two zeroed
  control blocks between 2 MB and the stack.
\<close>

definition sample_env :: asm_env where
  "sample_env = \<lparr>code_at = (\<lambda>i. 0x100000 + of_nat i), current_process_addr = 0x400000, other_flags = (\<lambda>f a b. f),
     c_function = (\<lambda>f s. Some (drop_top s))\<rparr>"

definition sample_cpu :: "nat \<Rightarrow> cpu" where
  "sample_cpu i =
     \<lparr>control = At i, regs = (\<lambda>r. if r = ESP then 0x300000 else if r = EBX then 7 else if r = EBP then 9 else 0),
      segs = (\<lambda>g. 0x10), eflags = 0x202,
      mem = write32 0x300008 0x210000 (write32 0x300004 0x200000 (\<lambda>a. 0)), idtr = (0, 0), ports = []\<rparr>"

lemma sample_env_code:
  "inj_on (code_at sample_env) {..<83}" "\<forall>i<83. code_at sample_env i \<noteq> 0"
proof -
  have c: "code_at sample_env i = of_nat (1048576 + i)" for i by (simp add: sample_env_def)
  show "inj_on (code_at sample_env) {..<83}" by (rule inj_onI) (simp add: c of_nat_u32_inject del: of_nat_add)
  show "\<forall>i<83. code_at sample_env i \<noteq> 0"
    using of_nat_u32_inject [of _ 0] by (simp add: c del: of_nat_add)
qed

lemma sample_cpu_simps [simp]:
  "control (sample_cpu i) = At i" "regs (sample_cpu i) ESP = 0x300000" "regs (sample_cpu i) EBX = 7"
  "regs (sample_cpu i) EBP = 9" "segs (sample_cpu i) g = 0x10"
  "read32 (mem (sample_cpu i)) 0x300004 = 0x200000" "read32 (mem (sample_cpu i)) 0x300008 = 0x210000"
  by (simp_all add: sample_cpu_def memory_simps)

lemma sample_low: "unat a < 0x300000 \<Longrightarrow> mem (sample_cpu i) a = 0"
  by (auto simp: sample_cpu_def write32_def)

lemma sample_words:
  "read16 (mem (sample_cpu i)) 0x20004A = 0" "read16 (mem (sample_cpu i)) 0x20004E = 0"
  "holds_name (mem (sample_cpu i)) 0x210000 ([] @ replicate (64 - length []) 0)"
proof -
  show "read16 (mem (sample_cpu i)) 0x20004A = 0" "read16 (mem (sample_cpu i)) 0x20004E = 0"
    by (simp_all add: read16_def sample_low)
  have "unat (0x210000 + 8 + of_nat j :: u32) < 0x300000" if "j < 64" for j
    using that unat_of_nat_u32 [of "0x210008 + j"] by (simp del: unat_of_nat_u32)
  then show "holds_name (mem (sample_cpu i)) 0x210000 ([] @ replicate (64 - length []) 0)"
    by (simp add: holds_name_def sample_low)
qed

theorem save_context_correct_witness:
  "regs (sample_cpu 0) EBX = 7 \<and>
   read32 (mem (asm_run sample_env (switch_listing sample_env) 39 (sample_cpu 0))) (reg_slot 0x200000 EBX) = 9"
  using save_context_correct [where s = "sample_cpu 0" and e = "0x300000" and p = "0x200000" and C = sample_env, OF _ _ _ _ refl]
  by (simp add: save_label_def apart_def)

theorem save_context_overwrites_state_witness:
  "read32 (mem (asm_run sample_env (switch_listing sample_env) 39 (sample_cpu 0))) 0x200048 = 0x10"
  using save_context_overwrites_state [where s = "sample_cpu 0" and e = "0x300000" and p = "0x200000" and C = sample_env, OF _ _ _ _ _ _ refl]
  by (simp add: save_label_def apart_def sample_words)

theorem switch_to_process_never_returns_witness:
  "(\<exists>i. control (asm_run sample_env (switch_listing sample_env) 1000 (sample_cpu 76)) = At i) \<and>
   read32 (mem (asm_run sample_env (switch_listing sample_env) 27051 (sample_cpu 76))) 0x200034 = code_at sample_env 69"
  using switch_to_process_never_returns [where s = "sample_cpu 76" and e = "0x300000" and p = "0x200000" and C = sample_env and n = 1000] sample_env_code
  by (simp add: apart_def sample_env_def switch_to_label_def Let_def)

end
