(* ===== verification/Interrupt_Stubs.thy ===== *)
theory Interrupt_Stubs
  imports Context_Switch Idt
begin

text \<open>
  The interrupt entry stubs: \<open>idt_flush\<close>, \<open>exception_handler_asm\<close> and \<open>timer_interrupt_wrapper\<close> of
  \<open>kernel/arch/interrupts.asm\<close>, and \<open>timer_interrupt_handler\<close> of \<open>kernel/arch/context_switch.asm\<close>, as
  listings for the processor of \<open>X86\<close>; and what the processor itself does when an interrupt arrives
  through a gate of the kernel's table. The C functions they call are parameters, which may return or not at
  each call; \<open>returned_from\<close> is the part of the calling convention the stubs rely on when one does.
  The lemmas show what a stub saves, that the interrupted code finds everything as it was, and which
  commands reach the interrupt controller.
\<close>

section \<open>The listings\<close>

definition idt_flush_asm :: "instr list" where
  "idt_flush_asm = [Load EAX ESP 4, Lidt EAX, Ret]"

definition exception_handler_asm :: "instr list" where
  "exception_handler_asm = [Pusha, Call_c C_exception_handler, Popa, Iret]"

text \<open>Both timer stubs save the registers and load the kernel data segment alike, and restore alike.\<close>

definition interrupt_entry :: "instr list" where
  "interrupt_entry =
     [Pusha, Push_seg DS, Push_seg ES, Push_seg FS, Push_seg GS, Mov_imm16 EAX 0x10, To_seg DS EAX, To_seg ES EAX]"

definition interrupt_exit :: "instr list" where
  "interrupt_exit = [Pop_seg GS, Pop_seg FS, Pop_seg ES, Pop_seg DS, Popa, Iret]"

definition timer_interrupt_wrapper :: "instr list" where
  "timer_interrupt_wrapper =
     interrupt_entry @ [Call_c C_timer_handler] @ [Mov_imm8 EAX 0x20, Out8 0x20 EAX] @ interrupt_exit"

definition timer_interrupt_handler :: "instr list" where
  "timer_interrupt_handler = interrupt_entry @ [Call_c C_scheduler_tick] @ interrupt_exit"

section \<open>Interrupts\<close>

text \<open>
  An interrupt of the code at \<open>ret\<close>, without a change of privilege, through an interrupt gate of the code
  segment \<open>0x08\<close>: flags, code segment and \<open>ret\<close> are pushed; TF, IF, NT, RF and VM are cleared.
\<close>

definition interrupt_flags :: "u32 \<Rightarrow> u32" where
  "interrupt_flags f = f AND NOT 0x34300"

definition take_interrupt :: "u32 \<Rightarrow> cpu \<Rightarrow> cpu" where
  "take_interrupt ret s =
     (push32 ret (push32 (ucast (segs s CS)) (push32 (eflags s) s)))
       \<lparr>segs := (segs s)(CS := 0x08), eflags := interrupt_flags (eflags s), control := At 0\<rparr>"

text \<open>
  \<open>t\<close> is a state in which a C function that was called in \<open>u\<close>, with its return address at \<open>esp\<close>, has returned
  by the calling convention: the stack pointer is above the return address, the segment registers and the
  caller's 60 bytes of stack above it are unchanged. The other registers, the flags and the rest of the memory
  may have changed.
\<close>

definition returned_from :: "cpu \<Rightarrow> cpu \<Rightarrow> bool" where
  "returned_from u t \<longleftrightarrow>
     regs t ESP = regs u ESP + 4 \<and> segs t = segs u \<and>
     (\<forall>i<60. mem t (regs u ESP + 4 + of_nat i) = mem u (regs u ESP + 4 + of_nat i))"

text \<open>The stack below \<open>e\<close> after the entry: the interrupted code's state, as the exit reads it.\<close>

definition frame_holds :: "u32 \<Rightarrow> u32 \<Rightarrow> cpu \<Rightarrow> (u32 \<Rightarrow> u8) \<Rightarrow> bool" where
  "frame_holds e ret s m \<longleftrightarrow>
     read32 m (e - 4) = eflags s \<and> read16 m (e - 8) = segs s CS \<and> read32 m (e - 12) = ret \<and>
     read32 m (e - 16) = regs s EAX \<and> read32 m (e - 20) = regs s ECX \<and> read32 m (e - 24) = regs s EDX \<and>
     read32 m (e - 28) = regs s EBX \<and> read32 m (e - 36) = regs s EBP \<and> read32 m (e - 40) = regs s ESI \<and>
     read32 m (e - 44) = regs s EDI \<and> read16 m (e - 48) = segs s DS \<and> read16 m (e - 52) = segs s ES \<and>
     read16 m (e - 56) = segs s FS \<and> read16 m (e - 60) = segs s GS"

section \<open>One run of each part\<close>

lemma straight_stub [simp]:
  "list_all straight interrupt_entry" "list_all straight (butlast interrupt_entry)" "list_all straight (butlast interrupt_exit)"
  by (simp_all add: interrupt_entry_def interrupt_exit_def)

lemma length_stub [simp]: "length interrupt_entry = 8" "length interrupt_exit = 6"
  by (simp_all add: interrupt_entry_def interrupt_exit_def)

lemma entry_block:
  assumes "regs s ESP = e"
  shows "frame_holds e ret s (mem (run_block C n 0 interrupt_entry (take_interrupt ret s)))"
    "regs (run_block C n 0 interrupt_entry (take_interrupt ret s)) ESP = e - 60"
    "segs (run_block C n 0 interrupt_entry (take_interrupt ret s)) = (segs s)(CS := 0x08, DS := 0x10, ES := 0x10)"
    "eflags (run_block C n 0 interrupt_entry (take_interrupt ret s)) = interrupt_flags (eflags s)"
    "ports (run_block C n 0 interrupt_entry (take_interrupt ret s)) = ports s"
    "control (run_block C n 0 interrupt_entry (take_interrupt ret s)) = At 8"
  using assms
  by (simp_all add: interrupt_entry_def take_interrupt_def push_all_def machine_simps memory_simps frame_holds_def)

lemma frame_bytes:
  assumes "frame_holds e ret s m" and "\<And>i. i < 60 \<Longrightarrow> m' (e - 60 + of_nat i) = m (e - 60 + of_nat i)"
  shows "frame_holds e ret s m'"
proof -
  have b: "m' (e - of_nat n) = m (e - of_nat n)" if "0 < n" "n \<le> 60" for n
    using assms(2) [of "60 - n"] that by (simp add: of_nat_diff)
  have w: "read32 m' (e - of_nat n) = read32 m (e - of_nat n)" if "4 \<le> n" "n \<le> 60" for n
  proof -
    have "e - of_nat n + 1 = e - of_nat (n - 1)" "e - of_nat n + 2 = e - of_nat (n - 2)" "e - of_nat n + 3 = e - of_nat (n - 3)"
      using that by (simp_all add: of_nat_diff)
    then show ?thesis using that unfolding read32_def by (simp only: b)
  qed
  have h: "read16 m' (e - of_nat n) = read16 m (e - of_nat n)" if "4 \<le> n" "n \<le> 60" for n
  proof -
    have "e - of_nat n + 1 = e - of_nat (n - 1)" using that by (simp add: of_nat_diff)
    then show ?thesis using that unfolding read16_def by (simp only: b)
  qed
  show ?thesis
    using assms(1) w [of 4] w [of 12] w [of 16] w [of 20] w [of 24] w [of 28] w [of 36] w [of 40] w [of 44]
      h [of 8] h [of 48] h [of 52] h [of 56] h [of 60] by (simp add: frame_holds_def)
qed

lemma exit_block:
  assumes "regs v ESP = e - 60" and "frame_holds e ret s (mem v)" and "regs s ESP = e"
    and t: "t = run_block C n i interrupt_exit v"
  shows "control t = goto C n ret" "regs t = regs s" "segs t = (segs s)(SS := segs v SS)" "eflags t = eflags s"
    "mem t = mem v" "ports t = ports v"
proof -
  note f = assms(2) [unfolded frame_holds_def]
  show "control t = goto C n ret" "eflags t = eflags s" "mem t = mem v" "ports t = ports v"
    using f assms(1) by (simp_all add: t interrupt_exit_def pop_all_def machine_simps)
  show "regs t = regs s"
  proof
    fix r show "regs t r = regs s r"
      using f assms(1,3) by (cases r) (simp_all add: t interrupt_exit_def pop_all_def machine_simps)
  qed
  show "segs t = (segs s)(SS := segs v SS)"
  proof
    fix g show "segs t g = ((segs s)(SS := segs v SS)) g"
      using f assms(1) by (cases g) (simp_all add: t interrupt_exit_def pop_all_def machine_simps)
  qed
qed

section \<open>Stubs\<close>

text \<open>
  Any stub that enters like this, calls a C function, runs a straight block that keeps the frame and leaves:
  the state at the call, and the state after the last instruction.
\<close>

definition at_call :: "asm_env \<Rightarrow> u32 \<Rightarrow> cpu \<Rightarrow> cpu" where
  "at_call C ret s =
     push32 (code_at C 9) (asm_run C interrupt_entry 8 (take_interrupt ret s))"

lemma asm_run_entry: "asm_run C interrupt_entry 8 (take_interrupt ret s) = run_block C 8 0 interrupt_entry (take_interrupt ret s)"
  using asm_run_block [of "take_interrupt ret s" 0 interrupt_entry interrupt_entry "[]" 8 C] by (simp add: take_interrupt_def)

lemma entry_block_length: "run_block C n 0 interrupt_entry u = run_block C m 0 interrupt_entry u"
  by (simp add: interrupt_entry_def)

lemma at_call_state:
  assumes "regs s ESP = e"
  shows "regs (at_call C ret s) ESP = e - 64" "segs (at_call C ret s) = (segs s)(CS := 0x08, DS := 0x10, ES := 0x10)"
    "eflags (at_call C ret s) = interrupt_flags (eflags s)" "ports (at_call C ret s) = ports s"
    "frame_holds e ret s (mem (at_call C ret s))"
  using entry_block [OF assms, where ret = ret and C = C and n = 8]
  by (simp_all add: at_call_def asm_run_entry push32_def Let_def frame_holds_def memory_simps)

lemma stub_run:
  assumes "regs s ESP = e" and "returned_from (at_call C ret s) v" and "list_all straight body"
    and keeps: "\<And>n u. regs (run_block C n 9 body u) ESP = regs u ESP \<and> mem (run_block C n 9 body u) = mem u \<and>
                  segs (run_block C n 9 body u) = segs u \<and> ports (run_block C n 9 body u) = ports u @ sent"
    and t: "t = asm_run C (interrupt_entry @ [Call_c f] @ body @ interrupt_exit) (15 + length body) (take_interrupt ret s)"
    and after: "c_function C f (at_call C ret s) = Some v"
  shows "control t = goto C (15 + length body) ret" "regs t = regs s" "segs t = segs s" "eflags t = eflags s"
    "mem t = mem v" "ports t = ports v @ sent"
proof -
  let ?prog = "interrupt_entry @ [Call_c f] @ body @ interrupt_exit" and ?n = "15 + length body"
  let ?u = "take_interrupt ret s"
  have n: "length ?prog = ?n" by simp
  have call: "asm_run C ?prog 9 ?u = v\<lparr>control := At 9\<rparr>"
  proof -
    have "asm_run C ?prog 8 ?u = run_block C ?n 0 interrupt_entry ?u"
      using asm_run_block [of ?u 0 ?prog interrupt_entry "[Call_c f] @ body @ interrupt_exit" 8 C]
      by (simp add: take_interrupt_def)
    moreover have "asm_run C ?prog 1 (run_block C ?n 0 interrupt_entry ?u) = v\<lparr>control := At 9\<rparr>"
      using asm_call_c [of "run_block C ?n 0 interrupt_entry ?u" 8 ?prog f "body @ interrupt_exit" C] entry_block(6) after
      by (simp add: at_call_def asm_run_entry entry_block_length [of C ?n _ 8])
    ultimately show ?thesis using asm_run_add [of C ?prog 8 1 ?u] by simp
  qed
  define w where "w = run_block C ?n 9 body (v\<lparr>control := At 9\<rparr>)"
  have t': "t = run_block C ?n (9 + length body) interrupt_exit w"
  proof -
    have "asm_run C ?prog (6 + length body) (v\<lparr>control := At 9\<rparr>) = run_block C ?n 9 (body @ interrupt_exit) (v\<lparr>control := At 9\<rparr>)"
      using asm_run_block [of "v\<lparr>control := At 9\<rparr>" 9 ?prog "body @ interrupt_exit" "[]" "6 + length body" C] assms(3)
      by (simp add: butlast_append interrupt_exit_def)
    moreover have "15 + length body = 9 + (6 + length body)" by simp
    ultimately show ?thesis unfolding t w_def using call by (simp only: asm_run_add run_block_append)
  qed
  obtain v': "regs v ESP = e - 60" "segs v = (segs s)(CS := 0x08, DS := 0x10, ES := 0x10)"
    "\<And>i. i < 60 \<Longrightarrow> mem v (e - 60 + of_nat i) = mem (at_call C ret s) (e - 60 + of_nat i)"
    using assms(2) at_call_state(1,2) [OF assms(1), of C ret] by (simp add: returned_from_def)
  have "frame_holds e ret s (mem w)"
    using frame_bytes [OF at_call_state(5) [OF assms(1)] v'(3)] keeps by (simp add: w_def)
  moreover have "regs w ESP = e - 60" using v'(1) keeps by (simp add: w_def)
  ultimately have x: "control t = goto C ?n ret" "regs t = regs s" "segs t = (segs s)(SS := segs w SS)" "eflags t = eflags s"
    "mem t = mem w" "ports t = ports w"
    using exit_block [OF _ _ assms(1) t'] by simp_all
  then show "control t = goto C ?n ret" "regs t = regs s" "eflags t = eflags s" by simp_all
  show "segs t = segs s" "mem t = mem v" "ports t = ports v @ sent"
    using x(3,5,6) keeps v'(2) by (simp_all add: w_def)
qed

lemma wrapper_body:
  "list_all straight [Mov_imm8 EAX 0x20, Out8 0x20 EAX]"
  "regs (run_block C n 9 [Mov_imm8 EAX 0x20, Out8 0x20 EAX] u) ESP = regs u ESP \<and>
   mem (run_block C n 9 [Mov_imm8 EAX 0x20, Out8 0x20 EAX] u) = mem u \<and>
   segs (run_block C n 9 [Mov_imm8 EAX 0x20, Out8 0x20 EAX] u) = segs u \<and>
   ports (run_block C n 9 [Mov_imm8 EAX 0x20, Out8 0x20 EAX] u) = ports u @ [(0x20, 0x20)]"
  by (simp_all add: set_reg_def)

lemma handler_body: "regs (run_block C n 9 [] u) ESP = regs u ESP \<and> mem (run_block C n 9 [] u) = mem u \<and>
   segs (run_block C n 9 [] u) = segs u \<and> ports (run_block C n 9 [] u) = ports u @ []"
  by simp

text \<open>If the called function does not return, the stub stays in it and sends nothing.\<close>

lemma no_return_stub:
  assumes "c_function C f (at_call C ret s) = None" and "9 \<le> n" and prog: "prog = interrupt_entry @ [Call_c f] @ rest"
  shows "control (asm_run C prog n (take_interrupt ret s)) = Inside f \<and>
    ports (asm_run C prog n (take_interrupt ret s)) = ports s"
proof -
  let ?u = "take_interrupt ret s"
  let ?b = "run_block C (length prog) 0 interrupt_entry ?u"
  have "asm_run C prog 8 ?u = ?b"
    using asm_run_block [of ?u 0 prog interrupt_entry _ 8 C] by (simp add: take_interrupt_def prog)
  moreover have "asm_run C prog 1 ?b = (at_call C ret s)\<lparr>control := Inside f\<rparr>"
    using asm_call_c [of ?b 8 prog f rest C] entry_block(6) assms(1)
    by (simp add: prog at_call_def asm_run_entry entry_block_length [of C "Suc (8 + length rest)" _ 8]
        entry_block_length [of C "9 + length rest" _ 8])
  ultimately have nine: "asm_run C prog 9 ?u = (at_call C ret s)\<lparr>control := Inside f\<rparr>"
    using asm_run_add [of C prog 8 1 ?u] by simp
  have "asm_run C prog n ?u = (at_call C ret s)\<lparr>control := Inside f\<rparr>"
    using asm_run_stuck [of C prog 9 ?u f n] assms(2) nine by simp
  then show ?thesis using at_call_state(4) [OF refl] by simp
qed

text \<open>
  \<open>idt_flush\<close> returns with the processor's table register set from the packed structure \<open>idt_p\<close>; after
  \<open>idt_init\<close> that is the table of 256 gates.
\<close>

definition idt_p_at :: "(u32 \<Rightarrow> u8) \<Rightarrow> u32 \<Rightarrow> idt_state \<Rightarrow> bool" where
  "idt_p_at m p i \<longleftrightarrow> read16 m p = idt_p_limit i \<and> read32 m (p + 2) = idt_p_base i"

lemma idt_flush_loads:
  assumes "control s = At 0" and "read32 (mem s) (regs s ESP + 4) = p" and "idt_p_at (mem s) p (idt_init L i)"
  shows "asm_run C idt_flush_asm 3 s =
    s\<lparr>idtr := (2047, idt_entries_addr L), regs := (regs s)(EAX := p, ESP := regs s ESP + 4),
      control := goto C 3 (read32 (mem s) (regs s ESP))\<rparr>"
  using asm_run_block [OF assms(1), of idt_flush_asm idt_flush_asm "[]" 3 C] assms(2,3) idt_init_correct [of L i]
  by (simp add: idt_flush_asm_def idt_p_at_def machine_simps eval_nat_numeral)

text \<open>The exception stub saves the registers and stays in \<open>exception_handler\<close>, which never returns.\<close>

lemma exception_stub_stops:
  assumes "c_function C C_exception_handler (push32 (code_at C 2) ((push_all (take_interrupt ret s))\<lparr>control := At 1\<rparr>)) = None"
    and "2 \<le> n"
  shows "control (asm_run C exception_handler_asm n (take_interrupt ret s)) = Inside C_exception_handler"
proof -
  let ?u = "take_interrupt ret s"
  have two: "control (asm_run C exception_handler_asm 2 ?u) = Inside C_exception_handler"
    using assms(1)
    by (simp add: numeral_2_eq_2 asm_step_def exception_handler_asm_def) (simp add: take_interrupt_def Let_def)
  show ?thesis using asm_run_stuck [OF two assms(2)] two by (simp only:)
qed

section \<open>A concrete machine\<close>

text \<open>C functions that clobber \<open>eax\<close> and the flags, store a word below the stack and write a port.\<close>

definition sample_handlers :: asm_env where
  "sample_handlers = sample_env\<lparr>c_function := (\<lambda>f s. Some (s\<lparr>regs := (regs s)(EAX := 5, ESP := regs s ESP + 4), eflags := 0,
     mem := (mem s)(regs s ESP - 8 := 1), ports := ports s @ [(0x43, 1)]\<rparr>))\<rparr>"

lemma sample_handlers_return: "\<exists>v. c_function sample_handlers f u = Some v \<and> returned_from u v"
proof -
  have "regs u ESP + 4 + of_nat i \<noteq> regs u ESP - 8" if "i < 60" for i
  proof
    assume "regs u ESP + 4 + of_nat i = regs u ESP - 8"
    then have "of_nat (i + 12) = (0 :: u32)" by (simp add: algebra_simps)
    then show False using that of_nat_u32_inject [of "i + 12" 0] by (simp del: of_nat_add)
  qed
  then show ?thesis by (simp add: returned_from_def sample_handlers_def)
qed

section \<open>Properties\<close>

text \<open>
  C8. What a timer interrupt does to the code it interrupts. The handler runs with interrupts off and the kernel
  data segment. When this call of \<open>timer_handler\<close> returns by the calling convention, as it does when
  \<open>schedule\<close> finds nothing to switch to, the wrapper ends at the interrupted instruction with every register,
  segment register and flag as before, and one end-of-interrupt command follows what the handler wrote to the
  ports. When it does not return, as after a switch that never comes back, the wrapper stays in it
  for ever and the interrupt is never acknowledged. The stub in \<open>context_switch.asm\<close>, around
  \<open>scheduler_tick\<close>, restores the same state but acknowledges nothing in either case.
\<close>

theorem timer_interrupt_transparent:
  "\<not> bit (eflags (at_call C ret s)) 9 \<and> segs (at_call C ret s) DS = 0x10 \<and> ports (at_call C ret s) = ports s \<and>
   (case c_function C C_timer_handler (at_call C ret s) of
      Some v \<Rightarrow> returned_from (at_call C ret s) v \<longrightarrow>
        (let t = asm_run C timer_interrupt_wrapper 17 (take_interrupt ret s)
         in control t = goto C 17 ret \<and> regs t = regs s \<and> segs t = segs s \<and> eflags t = eflags s \<and>
            mem t = mem v \<and> ports t = ports v @ [(0x20, 0x20)])
    | None \<Rightarrow> \<forall>n\<ge>9. let t = asm_run C timer_interrupt_wrapper n (take_interrupt ret s)
         in control t = Inside C_timer_handler \<and> ports t = ports s) \<and>
   (case c_function C C_scheduler_tick (at_call C ret s) of
      Some v \<Rightarrow> returned_from (at_call C ret s) v \<longrightarrow>
        (let t = asm_run C timer_interrupt_handler 15 (take_interrupt ret s)
         in control t = goto C 15 ret \<and> regs t = regs s \<and> segs t = segs s \<and> eflags t = eflags s \<and>
            mem t = mem v \<and> ports t = ports v)
    | None \<Rightarrow> \<forall>n\<ge>9. let t = asm_run C timer_interrupt_handler n (take_interrupt ret s)
         in control t = Inside C_scheduler_tick \<and> ports t = ports s)"
proof -
  note u = at_call_state [OF refl, where C = C and ret = ret and s = s]
  have i: "\<not> bit (interrupt_flags (eflags s)) 9"
    by (simp add: interrupt_flags_def bit_simps)
  let ?u = "at_call C ret s"
  have "case c_function C C_timer_handler ?u of
      Some v \<Rightarrow> returned_from ?u v \<longrightarrow>
        (let t = asm_run C timer_interrupt_wrapper 17 (take_interrupt ret s)
         in control t = goto C 17 ret \<and> regs t = regs s \<and> segs t = segs s \<and> eflags t = eflags s \<and>
            mem t = mem v \<and> ports t = ports v @ [(0x20, 0x20)])
    | None \<Rightarrow> \<forall>n\<ge>9. let t = asm_run C timer_interrupt_wrapper n (take_interrupt ret s)
         in control t = Inside C_timer_handler \<and> ports t = ports s"
    using stub_run [OF refl _ wrapper_body(1) wrapper_body(2) refl, of C ret s _ C_timer_handler]
      no_return_stub [OF _ _ timer_interrupt_wrapper_def, of C ret s]
    by (simp add: timer_interrupt_wrapper_def Let_def split: option.split)
  moreover have "case c_function C C_scheduler_tick ?u of
      Some v \<Rightarrow> returned_from ?u v \<longrightarrow>
        (let t = asm_run C timer_interrupt_handler 15 (take_interrupt ret s)
         in control t = goto C 15 ret \<and> regs t = regs s \<and> segs t = segs s \<and> eflags t = eflags s \<and>
            mem t = mem v \<and> ports t = ports v)
    | None \<Rightarrow> \<forall>n\<ge>9. let t = asm_run C timer_interrupt_handler n (take_interrupt ret s)
         in control t = Inside C_scheduler_tick \<and> ports t = ports s"
    using stub_run [OF refl _ _ handler_body refl, of C ret s _ C_scheduler_tick]
      no_return_stub [OF _ _ timer_interrupt_handler_def, of C ret s]
    by (simp add: timer_interrupt_handler_def Let_def split: option.split)
  ultimately show ?thesis using u i by simp
qed

text \<open>Handlers that return, and handlers that do not.\<close>

theorem timer_interrupt_transparent_witness:
  "regs (asm_run sample_handlers timer_interrupt_wrapper 17 (take_interrupt 0x500000 (sample_cpu 0))) EBX = 7 \<and>
   ports (asm_run sample_handlers timer_interrupt_wrapper 17 (take_interrupt 0x500000 (sample_cpu 0))) = [(0x43, 1), (0x20, 0x20)] \<and>
   control (asm_run (sample_env\<lparr>c_function := \<lambda>f s. None\<rparr>) timer_interrupt_wrapper 1000 (take_interrupt 0x500000 (sample_cpu 0))) =
     Inside C_timer_handler"
proof -
  have "ports (at_call sample_handlers 0x500000 (sample_cpu 0)) = []"
    using at_call_state(4) [OF refl, of sample_handlers "0x500000" "sample_cpu 0"] by (simp add: sample_cpu_def)
  then have "regs (asm_run sample_handlers timer_interrupt_wrapper 17 (take_interrupt 0x500000 (sample_cpu 0))) EBX = 7 \<and>
     ports (asm_run sample_handlers timer_interrupt_wrapper 17 (take_interrupt 0x500000 (sample_cpu 0))) = [(0x43, 1), (0x20, 0x20)]"
    using timer_interrupt_transparent [of sample_handlers "0x500000" "sample_cpu 0"]
      sample_handlers_return [of C_timer_handler "at_call sample_handlers 0x500000 (sample_cpu 0)"]
    by (auto simp: sample_handlers_def Let_def)
  moreover have "control (asm_run (sample_env\<lparr>c_function := \<lambda>f s. None\<rparr>) timer_interrupt_wrapper 1000
      (take_interrupt 0x500000 (sample_cpu 0))) = Inside C_timer_handler"
    using timer_interrupt_transparent [of "sample_env\<lparr>c_function := \<lambda>f s. None\<rparr>" "0x500000" "sample_cpu 0"]
    by (simp add: Let_def)
  ultimately show ?thesis by blast
qed

end
