(* ===== verification/Boot_Entry.thy ===== *)
theory Boot_Entry
  imports X86
begin

text \<open>
  The entry point of the kernel image, \<open>kernel/boot.asm\<close>: the multiboot header by which the boot loader
  recognises it, and \<open>_start\<close>, which sets up the stack, calls \<open>kernel_main\<close> and halts should it return.
  Where the linker puts the stack is a parameter.
\<close>

definition MBALIGN :: u32 where "MBALIGN = push_bit 0 1"
definition MEMINFO :: u32 where "MEMINFO = push_bit 1 1"
definition FLAGS :: u32 where "FLAGS = MBALIGN OR MEMINFO"
definition MAGIC :: u32 where "MAGIC = 0x1BADB002"
definition CHECKSUM :: u32 where "CHECKSUM = - (MAGIC + FLAGS)"

definition multiboot_header :: "u32 list" where
  "multiboot_header = [MAGIC, FLAGS, CHECKSUM]"

text \<open>A machine with interrupts off executes \<open>hlt\<close> again and again: nothing wakes it.\<close>

definition kernel_start :: "u32 \<Rightarrow> instr list" where
  "kernel_start stack_top = [Mov_imm ESP stack_top, Call_c C_kernel_main, Cli, Hlt, Jmp 3]"

text \<open>The header sums to 0, as the multiboot specification asks.\<close>

lemma multiboot_checksum: "sum_list multiboot_header = 0"
  by (simp add: multiboot_header_def CHECKSUM_def)

text \<open>The state \<open>kernel_main\<close> starts in.\<close>

definition main_entry :: "asm_env \<Rightarrow> u32 \<Rightarrow> cpu \<Rightarrow> cpu" where
  "main_entry C stack_top s = push32 (code_at C 2) ((set_reg ESP stack_top s)\<lparr>control := At 1\<rparr>)"

lemma main_entry_stack: "regs (main_entry C stack_top s) ESP = stack_top - 4" "top32 (main_entry C stack_top s) = code_at C 2"
  by (simp_all add: main_entry_def push32_def set_reg_def top32_def Let_def memory_simps)

lemma kernel_start_calls:
  assumes "control s = At 0"
  shows "asm_run C (kernel_start stack_top) 2 s =
    (case c_function C C_kernel_main (main_entry C stack_top s) of
       None \<Rightarrow> (main_entry C stack_top s)\<lparr>control := Inside C_kernel_main\<rparr> | Some t \<Rightarrow> t\<lparr>control := At 2\<rparr>)"
proof -
  have "asm_run C (kernel_start stack_top) 1 s = (set_reg ESP stack_top s)\<lparr>control := At 1\<rparr>"
    using assms by (simp add: asm_step_def kernel_start_def)
  moreover have "asm_run C (kernel_start stack_top) 1 ((set_reg ESP stack_top s)\<lparr>control := At 1\<rparr>) =
      exec_instr C 5 1 (Call_c C_kernel_main) ((set_reg ESP stack_top s)\<lparr>control := At 1\<rparr>)"
    by (subst asm_call_c [where i = 1 and rest = "[Cli, Hlt, Jmp 3]"]) (simp_all add: kernel_start_def)
  ultimately show ?thesis
    using asm_run_add [of C "kernel_start stack_top" 1 1 s]
    by (simp add: main_entry_def Let_def eval_nat_numeral split: option.split)
qed

text \<open>
  From the first instruction the machine enters \<open>kernel_main\<close> on the kernel's stack and either stays there,
  or, if it returns, ends at the \<open>hlt\<close> with interrupts off.
\<close>

lemma kernel_start_correct:
  assumes "control s = At 0" and "4 \<le> n"
  shows "control (asm_run C (kernel_start stack_top) n s) =
      (if c_function C C_kernel_main (main_entry C stack_top s) = None then Inside C_kernel_main else At 3) \<and>
    (c_function C C_kernel_main (main_entry C stack_top s) \<noteq> None \<longrightarrow>
      \<not> bit (eflags (asm_run C (kernel_start stack_top) n s)) 9)"
proof (cases "c_function C C_kernel_main (main_entry C stack_top s)")
  case None
  then have "control (asm_run C (kernel_start stack_top) 2 s) = Inside C_kernel_main"
    using kernel_start_calls [OF assms(1), of C stack_top] by simp
  then show ?thesis using asm_run_stuck [of C _ 2 s C_kernel_main n] assms(2) None by simp
next
  case (Some t)
  let ?h = "t\<lparr>eflags := unset_bit 9 (eflags t), control := At 3\<rparr>"
  have halted: "asm_run C (kernel_start stack_top) k ?h = ?h" for k
    by (induction k) (simp_all add: asm_step_def kernel_start_def bit_unset_bit_iff)
  have "asm_run C (kernel_start stack_top) 1 (t\<lparr>control := At 2\<rparr>) = ?h"
    by (simp add: asm_step_def kernel_start_def)
  then have "asm_run C (kernel_start stack_top) 3 s = ?h"
    using asm_run_add [of C "kernel_start stack_top" 2 1 s] kernel_start_calls [OF assms(1), of C stack_top] Some by simp
  then have "asm_run C (kernel_start stack_top) n s = ?h"
    using asm_run_add [of C "kernel_start stack_top" 3 "n - 3" s] assms(2) halted by simp
  then show ?thesis using Some by (simp add: bit_unset_bit_iff)
qed

end
