(* ===== verification/Simple_Kernel.thy ===== *)
theory Simple_Kernel
  imports Vga
begin

text \<open>
  The test kernel \<open>kernel/simple_kernel.c\<close>: it fills the text page and writes ten lines, then loops for
  ever without touching anything. Video memory is a map from byte addresses to 16 bit cells, as in \<open>Vga\<close>,
  whose constants it defines again with the same values. The lemmas give the page it leaves.
\<close>

section \<open>Operations\<close>

type_synonym video = "u32 \<Rightarrow> u16"

text \<open>\<open>vga[index]\<close> for an \<open>int\<close> index, and a store to it.\<close>

definition video_addr :: "nat \<Rightarrow> u32" where
  "video_addr index = VGA_MEMORY + 2 * of_nat index"

definition video_store :: "nat \<Rightarrow> u16 \<Rightarrow> video \<Rightarrow> video" where
  "video_store index e m = m(video_addr index := e)"

text \<open>\<open>(unsigned short)c | (0x07 << 8)\<close>: the signed character is extended to 16 bits.\<close>

definition simple_entry :: "u8 \<Rightarrow> u16" where
  "simple_entry c = scast c OR push_bit 8 0x07"

fun simple_print_from :: "u8 list \<Rightarrow> nat \<Rightarrow> nat \<Rightarrow> video \<Rightarrow> video option" where
  "simple_print_from [] row col m = None"
| "simple_print_from (c # str) row col m =
     (if c \<noteq> 0 \<and> col < 80 then simple_print_from str row (col + 1) (video_store (row * 80 + col) (simple_entry c) m)
      else Some m)"

definition simple_print :: "u8 list \<Rightarrow> nat \<Rightarrow> video \<Rightarrow> video option" where
  "simple_print str row m = simple_print_from str row 0 m"

definition simple_lines :: "string list" where
  "simple_lines =
     [''SimpleOS - Ultra Simple Test Kernel'', '''', ''If you can see this text, the kernel is working!'', '''',
      ''VGA driver: OK'', ''Memory access: OK'', ''C code execution: OK'', '''',
      ''Kernel is now in infinite loop - this is normal.'', ''Press Ctrl+Alt+Q to quit QEMU.'']"

text \<open>The calls of \<open>simple_print\<close>, one row after the other, and \<open>kernel_main\<close> up to its endless loop.\<close>

fun print_lines :: "string list \<Rightarrow> nat \<Rightarrow> video \<Rightarrow> video option" where
  "print_lines [] row m = Some m"
| "print_lines (l # ls) row m = Option.bind (simple_print (c_literal l) row m) (print_lines ls (row + 1))"

definition simple_kernel_main :: "video \<Rightarrow> video option" where
  "simple_kernel_main m =
     print_lines simple_lines 0 (for_loop 0 (80 * 25) (\<lambda>i. video_store i (simple_entry (chr8 CHR '' ''))) m)"

section \<open>The page\<close>

definition video_cell :: "video \<Rightarrow> nat \<Rightarrow> u16" where
  "video_cell m i = m (video_addr i)"

lemma video_addr_unat: "i < 2000 \<Longrightarrow> unat (video_addr i) = 753664 + 2 * i"
proof -
  assume i: "i < 2000"
  then have "unat (of_nat (2 * i) :: u32) = 2 * i" by (intro unat_of_nat_u32) simp
  then have "unat (2 * of_nat i :: u32) = 2 * i" by simp
  then show ?thesis using i by (simp add: video_addr_def unat_plus_u32)
qed

lemma video_cell_store:
  "i < 2000 \<Longrightarrow> j < 2000 \<Longrightarrow> video_cell (video_store j e m) i = (if i = j then e else video_cell m i)"
  using video_addr_unat [of i] video_addr_unat [of j] by (auto simp: video_cell_def video_store_def)

definition outside_page :: "u32 \<Rightarrow> bool" where
  "outside_page a \<longleftrightarrow> unat a < 753664 \<or> 757664 \<le> unat a"

lemma video_store_outside: "j < 2000 \<Longrightarrow> outside_page a \<Longrightarrow> video_store j e m a = m a"
  using video_addr_unat [of j] by (auto simp: video_store_def outside_page_def)

lemma simple_print_from_correct:
  assumes "terminated str" and "row < 25" and "col \<le> 80"
  shows "\<exists>m'. simple_print_from str row col m = Some m' \<and> (\<forall>a. outside_page a \<longrightarrow> m' a = m a) \<and>
    (\<forall>i<2000. video_cell m' i =
       (if row * 80 + col \<le> i \<and> i < row * 80 + min 80 (col + length (cstr str))
        then simple_entry (cstr str ! (i - (row * 80 + col))) else video_cell m i))"
  using assms
proof (induction str arbitrary: col m)
  case (Cons c str)
  show ?case
  proof (cases "c \<noteq> 0 \<and> col < 80")
    case True
    then have "terminated str" "col + 1 \<le> 80" using Cons.prems by simp_all
    from Cons.IH [OF this(1) Cons.prems(2) this(2), of "video_store (row * 80 + col) (simple_entry c) m"]
    obtain m' where m': "simple_print_from str row (col + 1) (video_store (row * 80 + col) (simple_entry c) m) = Some m'"
      and out: "\<forall>a. outside_page a \<longrightarrow> m' a = video_store (row * 80 + col) (simple_entry c) m a"
      and cells: "\<forall>i<2000. video_cell m' i =
        (if row * 80 + (col + 1) \<le> i \<and> i < row * 80 + min 80 (col + 1 + length (cstr str))
         then simple_entry (cstr str ! (i - (row * 80 + (col + 1))))
         else video_cell (video_store (row * 80 + col) (simple_entry c) m) i)"
      by blast
    have j: "row * 80 + col < 2000" using True Cons.prems(2) by simp
    have "video_cell m' i =
       (if row * 80 + col \<le> i \<and> i < row * 80 + min 80 (col + length (cstr (c # str)))
        then simple_entry (cstr (c # str) ! (i - (row * 80 + col))) else video_cell m i)" if "i < 2000" for i
    proof (cases "i = row * 80 + col")
      case False
      then show ?thesis
        using cells that j True by (auto simp: video_cell_store nth_Cons' min_def)
    qed (use cells that j True in \<open>auto simp: video_cell_store min_def\<close>)
    then show ?thesis using True m' out j by (simp add: video_store_outside)
  next
    case False
    then show ?thesis by auto
  qed
qed simp

text \<open>What the screen shows in column \<open>c\<close> of row \<open>r\<close> for the lines \<open>ls\<close>.\<close>

definition shown_char :: "string list \<Rightarrow> nat \<Rightarrow> nat \<Rightarrow> char" where
  "shown_char ls r c = (if r < length ls \<and> c < length (ls ! r) then ls ! r ! c else CHR '' '')"

lemma simple_print_row:
  assumes "nul_free l" and "length l \<le> 80" and "row < 25"
  shows "\<exists>m'. simple_print (c_literal l) row m = Some m' \<and> (\<forall>a. outside_page a \<longrightarrow> m' a = m a) \<and>
    (\<forall>r<25. \<forall>c<80. video_cell m' (r * 80 + c) =
       (if r = row \<and> c < length l then simple_entry (of_char (l ! c)) else video_cell m (r * 80 + c)))"
proof -
  from simple_print_from_correct [of "c_literal l" row 0 m] assms
  obtain m' where m': "simple_print (c_literal l) row m = Some m'" "\<forall>a. outside_page a \<longrightarrow> m' a = m a"
    and cells: "\<forall>i<2000. video_cell m' i =
      (if row * 80 \<le> i \<and> i < row * 80 + length l then simple_entry (c_chars l ! (i - row * 80)) else video_cell m i)"
    by (auto simp: simple_print_def)
  have "video_cell m' (r * 80 + c) =
      (if r = row \<and> c < length l then simple_entry (of_char (l ! c)) else video_cell m (r * 80 + c))"
    if "r < 25" "c < 80" for r c
  proof -
    have "row * 80 \<le> r * 80 + c \<and> r * 80 + c < row * 80 + length l \<longleftrightarrow> r = row \<and> c < length l"
      using that assms(2) by (cases r row rule: linorder_cases) auto
    moreover have "r * 80 + c < 2000" using that by simp
    ultimately show ?thesis using cells [rule_format, of "r * 80 + c"] by (simp add: c_chars_def)
  qed
  then show ?thesis using m' by blast
qed

lemma print_lines_correct:
  assumes "\<forall>l \<in> set ls. nul_free l \<and> length l \<le> 80" and "row + length ls \<le> 25"
  shows "\<exists>m'. print_lines ls row m = Some m' \<and> (\<forall>a. outside_page a \<longrightarrow> m' a = m a) \<and>
    (\<forall>r<25. \<forall>c<80. video_cell m' (r * 80 + c) =
       (if row \<le> r \<and> r < row + length ls \<and> c < length (ls ! (r - row))
        then simple_entry (of_char (ls ! (r - row) ! c)) else video_cell m (r * 80 + c)))"
  using assms
proof (induction ls arbitrary: row m)
  case (Cons l ls)
  obtain m1 where m1: "simple_print (c_literal l) row m = Some m1" "\<forall>a. outside_page a \<longrightarrow> m1 a = m a"
    and c1: "\<forall>r<25. \<forall>c<80. video_cell m1 (r * 80 + c) =
      (if r = row \<and> c < length l then simple_entry (of_char (l ! c)) else video_cell m (r * 80 + c))"
    using simple_print_row [of l row m] Cons.prems by auto
  obtain m2 where m2: "print_lines ls (row + 1) m1 = Some m2" "\<forall>a. outside_page a \<longrightarrow> m2 a = m1 a"
    and c2: "\<forall>r<25. \<forall>c<80. video_cell m2 (r * 80 + c) =
      (if row + 1 \<le> r \<and> r < row + 1 + length ls \<and> c < length (ls ! (r - (row + 1)))
       then simple_entry (of_char (ls ! (r - (row + 1)) ! c)) else video_cell m1 (r * 80 + c))"
    using Cons.IH [of "row + 1" m1] Cons.prems by auto
  have "video_cell m2 (r * 80 + c) =
      (if row \<le> r \<and> r < row + length (l # ls) \<and> c < length ((l # ls) ! (r - row))
       then simple_entry (of_char ((l # ls) ! (r - row) ! c)) else video_cell m (r * 80 + c))"
    if "r < 25" "c < 80" for r c
  proof (cases "row < r")
    case True
    then have "r - row = Suc (r - (row + 1))" by simp
    then show ?thesis using c1 c2 that True by simp
  next
    case False
    then show ?thesis using c1 c2 that by auto
  qed
  then show ?case using m1 m2 by simp
qed auto

lemma fill_page:
  assumes "n \<le> 2000"
  shows "(\<forall>a. outside_page a \<longrightarrow> for_loop 0 n (\<lambda>i. video_store i e) m a = m a) \<and>
    (\<forall>i<n. video_cell (for_loop 0 n (\<lambda>i. video_store i e) m) i = e)"
  using assms
proof (induction n)
  case (Suc n)
  then show ?case by (auto simp: for_loop_Suc video_store_outside video_cell_store less_Suc_eq)
qed simp

text \<open>
  The test kernel reaches its final loop with the ten lines on the screen, one per row, spaces everywhere
  else, all in light grey on black, and no cell outside the page is written.
\<close>

theorem simple_kernel_shows:
  "\<exists>m'. simple_kernel_main m = Some m' \<and> (\<forall>a. outside_page a \<longrightarrow> m' a = m a) \<and>
    (\<forall>r<25. \<forall>c<80. video_cell m' (r * 80 + c) = simple_entry (of_char (shown_char simple_lines r c)))"
proof -
  define m0 where "m0 = for_loop 0 2000 (\<lambda>i. video_store i (simple_entry (chr8 CHR '' ''))) m"
  have m0: "\<forall>a. outside_page a \<longrightarrow> m0 a = m a" "\<forall>i<2000. video_cell m0 i = simple_entry (chr8 CHR '' '')"
    unfolding m0_def using fill_page [of 2000 "simple_entry (chr8 CHR '' '')" m] by blast+
  have lines: "\<forall>l \<in> set simple_lines. nul_free l \<and> length l \<le> 80" "length simple_lines = 10"
    by (simp_all add: simple_lines_def)
  obtain m' where m': "print_lines simple_lines 0 m0 = Some m'" "\<forall>a. outside_page a \<longrightarrow> m' a = m0 a"
    and cells: "\<forall>r<25. \<forall>c<80. video_cell m' (r * 80 + c) =
       (if r < 10 \<and> c < length (simple_lines ! r)
        then simple_entry (of_char (simple_lines ! r ! c)) else video_cell m0 (r * 80 + c))"
    using print_lines_correct [OF lines(1), of 0 m0] lines(2) by auto
  have "simple_kernel_main m = Some m'" using m'(1) by (simp add: simple_kernel_main_def m0_def)
  moreover have "video_cell m' (r * 80 + c) = simple_entry (of_char (shown_char simple_lines r c))"
    if "r < 25" "c < 80" for r c
    using cells m0(2) that lines(2) by (simp add: shown_char_def)
  ultimately show ?thesis using m'(2) m0(1) by auto
qed

end
