(* ===== verification/Spec2Isabelle.thy ===== *)
theory Spec2Isabelle
  imports Screen_Safety Process_Table Interrupt_Stubs Boot_Entry Simple_Kernel
begin

text \<open>
  SimpleOS is a small monolithic kernel for the i686: a text screen, a polled keyboard with a line
  editor, a bump allocator, a process manager with a round robin scheduler, system calls, and a shell that
  \<open>kernel_main\<close> ends in. This development models its C code and its 32 bit assembly - the entry point, the
  interrupt stubs, the context switch - and proves what each part does, where it keeps its promises and where
  it does not.

  \<^bold>\<open>The program.\<close> \<open>_start\<close> (\<open>kernel/boot.asm\<close>) sets up a stack and calls \<open>kernel_main\<close>. \<open>kernel_main\<close> (\<open>kernel/kernel.c\<close>) initialises the heap, the screen, the interrupt table,
  the process manager, the timer and the keyboard, writes two messages to the serial port, and calls
  \<open>interactive_shell\<close>, which reads a line with \<open>keyboard_get_input\<close> and hands it to \<open>process_command\<close>.
  The commands call the process manager (\<open>kernel/proc/process.c\<close>) and the system calls
  (\<open>kernel/syscalls.c\<close>); these share the process table, the control blocks, which also carry the links of
  the ready queue, and the current process. The timer interrupt enters by \<open>timer_interrupt_wrapper\<close>
  (\<open>kernel/arch/interrupts.asm\<close>) and calls \<open>schedule\<close>, which moves blocks between the queue and the current
  process and then calls the routines of \<open>kernel/arch/context_switch.asm\<close>.

  \<^bold>\<open>Theories and sources.\<close>
  \<^item> \<open>Kernel_Prelude\<close>: C integers as words, C strings as byte lists, counted loops, and the interfaces
    \<open>safe_system\<close> (steps that keep an invariant; interpreted on the running kernel as \<open>booted\<close>, for its data,
    and as \<open>display\<close>, for the screen), \<open>event_loop\<close> (a polling loop; interpreted as \<open>kbd_loop\<close> on the line
    editor), \<open>simulation\<close> and its extension \<open>total_simulation\<close> (operations that implement a specification,
    and return; interpreted as \<open>process_manager\<close>).
  \<^item> \<open>Cstring\<close>: \<open>libc/string.c\<close> and the string functions and argument parser of \<open>kernel/kernel.c\<close>.
  \<^item> \<open>Vga\<close>: \<open>kernel/drivers/vga.c\<close>. The state \<open>vga_state\<close> is the driver's four statics and video memory;
    an abstract 80x25 terminal is the specification, \<open>text_device\<close> the interface, interpreted for
    \<open>vga_print\<close> and for \<open>vga_putchar\<close>.
  \<^item> \<open>Memory\<close>: \<open>kernel/mem/memory.c\<close>, with the locale \<open>bump_allocator\<close> interpreted on \<open>kmalloc\<close>. The
    record \<open>layout\<close> holds the addresses the linker chooses, which are parameters everywhere.
  \<^item> \<open>Process\<close>, \<open>Process_Ops\<close>, \<open>Process_Props\<close>: \<open>kernel/proc/process.{h,c}\<close>. The state \<open>kstate\<close> is the file's
    globals and function statics with the screen, the heap and the tick counter; \<open>pcb\<close> maps the elements
    of the two static arrays of control blocks to their contents. Creation, destruction, kill, cleanup, PIDs,
    listings, and the invariant \<open>table_ok\<close> of the process table.
  \<^item> \<open>Process_Table\<close>: the process manager as a table of tasks. \<open>manage\<close> specifies creation, kill, state change,
    reaping and exit on a map from PIDs to tasks; \<open>manager_of\<close> is the table a state of the code stands for.
  \<^item> \<open>Ready_Queue\<close>: the doubly linked queue through the control blocks, refined to a list (\<open>queue_rep\<close>), and
    the locale \<open>fifo_queue\<close> it satisfies.
  \<^item> \<open>Scheduler\<close>: \<open>schedule\<close>, \<open>scheduler_tick\<close> and \<open>kernel/drivers/timer.c\<close>, against the policy \<open>round_robin\<close> on
    lists. \<open>schedule\<close> returns the pending call of an assembly routine as a value of \<open>switch_call\<close>.
  \<^item> \<open>X86\<close>: a model of the part of the processor the kernel's assembly uses, as an execution function on
    listings of instructions. \<open>Context_Switch\<close>: the four routines of \<open>kernel/arch/context_switch.asm\<close> a switch
    runs, and the layout of \<open>process_t\<close> they assume. \<open>Interrupt_Stubs\<close>: \<open>kernel/arch/interrupts.asm\<close> and the timer
    stub of \<open>context_switch.asm\<close>, with what the processor does when an interrupt arrives; the C functions they
    call are parameters, which may return or not at each call; \<open>returned_from\<close> is what the calling convention
    promises of one that does. \<open>Boot_Entry\<close>: \<open>kernel/boot.asm\<close>.
  \<^item> \<open>Syscalls\<close>, \<open>Syscall_Props\<close>: \<open>kernel/syscalls.c\<close>.
  \<^item> \<open>Demo\<close>: \<open>kernel/proc/demo_processes.c\<close>.
  \<^item> \<open>Idt\<close>: \<open>kernel/arch/idt.c\<close> and \<open>timer_init\<close>; port writes are a list, latest last.
  \<^item> \<open>Keyboard\<close>: \<open>kernel/drivers/keyboard.{h,c}\<close>; the values the data port delivers are an input list.
  \<^item> \<open>Shell\<close>, \<open>Shell_Props\<close>, \<open>Shell_Safety\<close>: the commands of \<open>process_command\<close> and the dispatch, what each
    command keeps (\<open>kernel_inv\<close>), and whole command lines (\<open>machine_inv\<close>).
  \<^item> \<open>Kernel\<close>: \<open>kernel_main\<close>, the serial port, and the step relation \<open>kernel_step\<close> of the running kernel:
    command lines, timer ticks, returns from a switch, programs that run to their end, in any order.
  \<^item> \<open>Screen_Safety\<close>: the same steps, followed through everything they print.
  \<^item> \<open>Simple_Kernel\<close>: \<open>kernel/simple_kernel.c\<close>, a test kernel the build leaves out.
  \<^item> this theory: properties of \<open>schedule\<close> and the assembly it calls together.

  \<^bold>\<open>What is shown.\<close> The functional lemmas give the result of every branch of an operation, with a frame: which
  part of the state it leaves alone. The refinements compare the screen, the ready queue and the scheduler
  with abstract specifications, and \<open>process_manager_refines\<close> does so for sequences of operations on the
  process table. \<open>kernel_boots\<close> and \<open>kernel_stays_safe\<close> say that the kernel reaches its shell and that its
  invariant holds in every state reached from there, \<open>shell_command_returns\<close> which command lines run through,
  \<open>keyboard_typing\<close> and \<open>keyboard_press_edits\<close> what the line editor returns, \<open>screen_writes_stay_on_page\<close> that
  nothing it prints leaves the screen, \<open>timer_interrupt_transparent\<close> that a timer interrupt whose handler returns
  changes nothing the interrupted code can see in its registers. The code does not always do what it means
  to; where it does not, a theorem states what it does:
  \<^item> a process started by \<open>schedule\<close> is no longer in the ready queue, and preempting it corrupts the queue
    (\<open>schedule_loses_running\<close>); \<open>process_cleanup\<close> of a process outside the queue empties the queue;
    killed processes stay queued (\<open>killed_process_scheduled\<close>);
  \<^item> the offset of the saved registers in the assembly is 20 instead of 84: saving overwrites the name, state and
    priority of the process (\<open>save_context_overwrites_state\<close>), and the first switch to a created process jumps
    to an address read from its name, mostly 0 (\<open>first_dispatch_jumps_to_null\<close>); \<open>switch_to_process\<close> never returns
    (\<open>switch_to_process_never_returns\<close>); \<open>save_context\<close> stores EBP in the slot of EBX; an interrupt whose handler
    switches away for good is never acknowledged (\<open>timer_interrupt_transparent\<close>);
  \<^item> killing a process with a static stack overwrites memory by a size read from the neighbouring stack
    (\<open>kill_trusts_neighbour_stack\<close>); the heap starts where the linker script places the kernel image, so the
    first \<open>process_create\<close> zeroes 4096 bytes of the kernel from its fifth on (\<open>create_overwrites_image\<close>);
  \<^item> the two creation functions share PIDs (\<open>pid_collision\<close>); a word of 64 characters overflows the buffers of the
    argument parser (\<open>shell_argument_overflow\<close>); \<open>kmalloc\<close> wraps for sizes near \<open>2 ^ 32\<close> (\<open>kmalloc_correct\<close>).

  \<^bold>\<open>Conventions and bounds.\<close> A \<open>None\<close> is an access outside the objects the model knows, or, for the loops that
  wait for a device, an input list that ends too early: the keyboard needs an Enter, the serial port 64 statuses
  with an empty transmitter, one for each character it sends. Counted loops run with the bounds of the source.
  \<open>process_command\<close>, the parser and the keytest loop are total functions with a measure; no fuel is used. The
  assembly runs for a number of instructions given in each theorem (39 for a save, 23 for a restore, 73 for a
  switch, 17 for the timer wrapper), which is exactly the length of that path; \<open>switch_to_process_never_returns\<close> and
  the branches of the stubs whose handler does not return hold for every number.
  Hypotheses \<open>apart n a b\<close> say that two objects lie at least \<open>n\<close> bytes from each other, so that stack and
  control blocks do not overlap.

  \<^bold>\<open>Granularity.\<close> Interrupts fall between command lines and not inside them: the code takes no locks, and an
  interrupt in the middle of a queue operation is not modelled. (As the sources stand no interrupt arrives at all:
  nothing executes \<open>sti\<close>, and vector 8, where an unmapped controller would deliver the timer, is not present.
  The step relation allows the ticks the code is written for.) Code, control blocks and globals are not part of
  the byte memory \<open>ram\<close> of the model: a write between 1 MB and 2 MB changes \<open>ram\<close> only, so the theorems about the
  running kernel do not see the damage of \<open>create_overwrites_image\<close>. Nor do they see what the assembly writes into
  control blocks: \<open>schedule\<close> and \<open>sys_exit\<close> end in a pending call, the state they return is the one at that
  call and not one after a return of the C function, and a step that returns from a switch leaves name, state,
  priority and exit code of the saved process as they were, which \<open>save_context\<close> in fact overwrites
  (\<open>save_context_overwrites_state\<close>).

  \<^bold>\<open>Not modelled.\<close>
  \<^item> The BIOS boot loader \<open>bootloader/boot.asm\<close>, real mode code over BIOS calls; the image the Makefile builds
    is started by GRUB. How the compiler turns the C functions into code: the C model and the processor model
    meet at the calls, not below.
  \<^item> Delay loops, which change no state; page and segment faults, so that a program that jumps to address 0
    is a state outside the listing and no more.
  \<^item> \<open>pmm.c\<close>, \<open>vmm.c\<close>, \<open>advanced_heap.c\<close>, \<open>kernel_debug.c\<close> and \<open>kernel_debug_clean.c\<close>, which are empty files;
    \<open>save_cpu_state\<close>, \<open>restore_cpu_state\<close> and other functions that are declared and never defined.
\<close>

section \<open>The first dispatch\<close>

text \<open>
  The two static arrays of control blocks, \<open>static_processes\<close> of both creation functions, do not overlap
  and do not wrap around the address space.
\<close>

definition pcb_arrays_apart :: "layout \<Rightarrow> bool" where
  "pcb_arrays_apart L \<longleftrightarrow>
     unat (create_pcbs_addr L) + 2680 \<le> 4294967295 \<and> unat (test_pcbs_addr L) + 2680 \<le> 4294967295 \<and>
     (unat (create_pcbs_addr L) + 2680 \<le> unat (test_pcbs_addr L) \<or>
      unat (test_pcbs_addr L) + 2680 \<le> unat (create_pcbs_addr L))"

definition pcb_index :: "pcb_ref \<Rightarrow> nat" where
  "pcb_index r = (case r of Create_pcb i \<Rightarrow> i | Test_pcb i \<Rightarrow> i)"

lemma unat_pcb_addr:
  assumes "pcb_arrays_apart L" and "pcb_index r < 10"
  shows "unat (pcb_addr L r) =
    (case r of Create_pcb i \<Rightarrow> unat (create_pcbs_addr L) | Test_pcb i \<Rightarrow> unat (test_pcbs_addr L)) + 268 * pcb_index r"
proof -
  have "unat (a + 268 * of_nat i) = unat a + 268 * i" if "unat a + 2680 \<le> 4294967295" and "i < 10" for a :: u32 and i
  proof -
    have "unat (of_nat (268 * i) :: u32) = 268 * i" using that(2) by (intro unat_of_nat_u32) simp
    then have "unat (268 * of_nat i :: u32) = 268 * i" by simp
    then show ?thesis using that by (subst unat_plus_u32) simp_all
  qed
  then show ?thesis
    using assms by (cases r) (simp_all add: pcb_addr_def pcb_index_def pcb_arrays_apart_def)
qed

lemma apart_ordered:
  assumes "unat a + n \<le> unat b" and "unat b + n \<le> 4294967296"
  shows "apart n a b" "apart n b a"
proof -
  have "a \<le> b" using assms(1) by (simp add: word_le_nat_alt)
  then have d: "unat (b - a) = unat b - unat a" by (rule unat_sub)
  have "n \<le> unat (a - b)" if "a \<noteq> b"
    using unat_minus_sum [OF that] d assms by linarith
  moreover have "n = 0" if "a = b" using assms(1) that by simp
  ultimately show "apart n a b" "apart n b a" using d assms by (auto simp: apart_def)
qed

lemma pcb_addr_apart:
  assumes "pcb_arrays_apart L" and "pcb_index r < 10" and "pcb_index r' < 10" and "r \<noteq> r'"
  shows "apart 268 (pcb_addr L r) (pcb_addr L r')"
proof -
  let ?a = "unat (pcb_addr L r)" and ?b = "unat (pcb_addr L r')"
  have b: "?a + 268 \<le> 4294967295" "?b + 268 \<le> 4294967295"
    using unat_pcb_addr [OF assms(1,2)] unat_pcb_addr [OF assms(1,3)] assms(1-3)
    by (simp_all add: pcb_arrays_apart_def split: pcb_ref.splits)
  have "?a + 268 \<le> ?b \<or> ?b + 268 \<le> ?a"
    using unat_pcb_addr [OF assms(1,2)] unat_pcb_addr [OF assms(1,3)] assms
    by (cases r; cases r') (simp_all add: pcb_arrays_apart_def pcb_index_def; linarith)+
  then show ?thesis
  proof
    assume "?a + 268 \<le> ?b"
    then show ?thesis using b(2) by (intro apart_ordered(1)) simp_all
  next
    assume "?b + 268 \<le> ?a"
    then show ?thesis using b(1) by (intro apart_ordered(2)) simp_all
  qed
qed

lemma schedule_name [simp]: "p_name (pcb (fst (schedule k)) r) = p_name (pcb k r)"
  by (auto simp: schedule_def preempt_current_def Let_def split: option.splits)

text \<open>
  C12. The first dispatch of a process jumps to an address taken from its name. When \<open>schedule\<close> takes the head
  of the ready queue over from another process, its call is \<open>context_switch(old, new)\<close>; every machine that starts this
  call with the name of the new process in its control block loads its stack pointer from the bytes 36 to 39
  of the name and jumps to the bytes 44 to 47. For a zero padded name of at most 44 characters (longer
  ones, up to 63, give other addresses) that is address 0, and not the entry point the process was created with.
\<close>

theorem first_dispatch_jumps_to_null:
  assumes "ready_queue_head k = Some new" and "current_process k = Some old" and "old \<noteq> new"
    and "pcb_arrays_apart L" and "pcb_index old < 10" and "pcb_index new < 10" and "pcb_addr L old \<noteq> 0"
    and "inj_on (code_at C) {..<83}" and "\<forall>i<83. code_at C i \<noteq> 0"
    and "control s = At switch_label" and "regs s ESP = e"
    and "read32 (mem s) (e + 4) = pcb_addr L old" and "read32 (mem s) (e + 8) = pcb_addr L new"
    and "apart 1024 (pcb_addr L old) e" and "apart 1024 (pcb_addr L new) e"
    and "nm = p_name (pcb (fst (schedule k)) new)" and "holds_name (mem s) (pcb_addr L new) nm"
    and "apart 512 (pcb_addr L new) (word_of_name nm 36)"
  shows "snd (schedule k) = Context_switch old new \<and> p_state (pcb (fst (schedule k)) new) = PROCESS_RUNNING \<and>
    (let t = asm_run C (switch_listing C) 73 s; entry = r_eip (p_cpu_state (pcb k new)) in
       regs t ESP = word_of_name nm 36 \<and> control t = goto C 83 (word_of_name nm 44) \<and>
       (nm = cs @ replicate (64 - length cs) 0 \<and> length cs \<le> 44 \<longrightarrow>
          control t = Outside 0 \<and> (entry \<noteq> 0 \<longrightarrow> control t \<noteq> goto C 83 entry)))"
proof -
  have "snd (schedule k) = Context_switch old new" using assms(1-3) by (simp add: schedule_call)
  moreover have "p_state (pcb (fst (schedule k)) new) = PROCESS_RUNNING"
    using assms(1-3) by (auto simp: schedule_def preempt_current_def Let_def) (metis option.inject)
  moreover note t = first_switch_jumps_into_name [OF assms(10-13,7,14,15) pcb_addr_apart [OF assms(4-6,3)] assms(8,17,18)]
  moreover have "goto C 83 (word_of_name nm 44) = Outside 0" if "nm = cs @ replicate (64 - length cs) 0" "length cs \<le> 44"
    using goto_Outside [OF assms(9)] word_of_padded_name [OF that(2)] that(1) by simp
  ultimately show ?thesis by (auto simp: Let_def dest: goto_outside_address goto_outside_address [OF sym])
qed

text \<open>The concrete machine of \<open>Context_Switch\<close>, with the two blocks as the first of each array.\<close>

theorem first_dispatch_jumps_to_null_witness:
  "control (asm_run sample_env (switch_listing sample_env) 73 (sample_cpu 62)) = Outside 0 \<and>
   control (asm_run sample_env (switch_listing sample_env) 73 (sample_cpu 62)) \<noteq> goto sample_env 83 0x200500"
proof -
  let ?c = "[] :: u8 list"
  let ?L = "sample_layout\<lparr>create_pcbs_addr := 0x200000, test_pcbs_addr := 0x210000\<rparr>"
  let ?k = "zero_kstate\<lparr>ready_queue_head := Some (Test_pcb 0), current_process := Some (Create_pcb 0),
    pcb := (pcb zero_kstate)(Test_pcb 0 := zero_process\<lparr>p_cpu_state := zero_cpu\<lparr>r_eip := 0x200500\<rparr>\<rparr>)\<rparr>"
  have a: "pcb_addr ?L (Create_pcb 0) = 0x200000" "pcb_addr ?L (Test_pcb 0) = 0x210000"
    by (simp_all add: pcb_addr_def)
  have n: "p_name (pcb (fst (schedule ?k)) (Test_pcb 0)) = ?c @ replicate (64 - length ?c) 0"
    by (simp add: zero_process_def)
  have l: "pcb_arrays_apart ?L" by (simp add: pcb_arrays_apart_def)
  have e: "r_eip (p_cpu_state (pcb ?k (Test_pcb 0))) = 0x200500" by simp
  have w: "word_of_name (?c @ replicate (64 - length ?c) 0) 36 = 0" "word_of_name (?c @ replicate (64 - length ?c) 0) 44 = 0"
    by (rule word_of_padded_name; simp)+
  have g: "goto sample_env 83 0 = Outside 0" by (rule goto_Outside [OF sample_env_code(2)])
  have "let t = asm_run sample_env (switch_listing sample_env) 73 (sample_cpu 62); entry = r_eip (p_cpu_state (pcb ?k (Test_pcb 0))) in
      ?c @ replicate (64 - length ?c) 0 = ?c @ replicate (64 - length ?c) 0 \<and> length ?c \<le> 44 \<longrightarrow>
          control t = Outside 0 \<and> (entry \<noteq> 0 \<longrightarrow> control t \<noteq> goto sample_env 83 entry)"
    using first_dispatch_jumps_to_null [where k = ?k and new = "Test_pcb 0" and old = "Create_pcb 0" and L = ?L and
        cs = ?c and C = sample_env and s = "sample_cpu 62" and e = "0x300000", OF _ _ _ l _ _ _ sample_env_code _ _ _ _ _ _ n [symmetric]]
      sample_words w g unfolding a Let_def
    by (simp add: apart_def switch_label_def pcb_index_def) (metis g)
  then show ?thesis unfolding e Let_def by auto
qed

end
